(* ===== verification/Prelude.thy ===== *)
theory Prelude
  imports Complex_Main "HOL-Library.Multiset" "HOL-Library.Char_ord" "HOL-Library.List_Lexorder"
begin

text \<open>
  Shared vocabulary of the development: the Python exceptions the script can raise, the
  result type \<open>'a result\<close> (an exception on the left), the bind that propagates an
  exception the way the top-to-bottom script does, the missing-value view of a column
  (\<open>None\<close> is pandas' NaN/NaT) and the generic lemmas on counting in lists that the
  counting and imputation theories share. Strings are \<open>char list\<close> with the
  lexicographic order of \<open>List_Lexorder\<close>; the input is read as ISO-8859-1, so
  every character is one byte and this order is Python's code-point order on \<open>str\<close>.
\<close>

named_theorems count_simps "counting facts on lists used by the aggregation proofs"
named_theorems frame_simps "characteristic equations of the frame operations"

datatype error =
    KeyError string
  | TypeError string
  | ValueError string
  | DateParseError string
  | OutOfBoundsDatetime string
  | ParserError string
  | EmptyDataError string

type_synonym 'a result = "error + 'a"

definition bind_r :: "'a result \<Rightarrow> ('a \<Rightarrow> 'b result) \<Rightarrow> 'b result" where
  "bind_r m f = (case m of Inl e \<Rightarrow> Inl e | Inr x \<Rightarrow> f x)"

lemma bind_r_Inl [simp]: "bind_r (Inl e) f = Inl e"
  by (simp add: bind_r_def)

lemma bind_r_Inr [simp]: "bind_r (Inr x) f = f x"
  by (simp add: bind_r_def)

lemma bind_r_eq_Inr: "bind_r m f = Inr y \<longleftrightarrow> (\<exists>x. m = Inr x \<and> f x = Inr y)"
  by (cases m) auto

lemma bind_r_eq_Inl: "bind_r m f = Inl e \<longleftrightarrow> m = Inl e \<or> (\<exists>x. m = Inr x \<and> f x = Inl e)"
  by (cases m) auto

text \<open>A list over \<open>'a result\<close> evaluated left to right, stopping at the first exception.\<close>

fun map_r :: "('a \<Rightarrow> 'b result) \<Rightarrow> 'a list \<Rightarrow> 'b list result" where
  "map_r f [] = Inr []"
| "map_r f (x # xs) = bind_r (f x) (\<lambda>y. bind_r (map_r f xs) (\<lambda>ys. Inr (y # ys)))"

lemma map_r_Inr_length: "map_r f xs = Inr ys \<Longrightarrow> length ys = length xs"
  by (induction xs arbitrary: ys) (auto simp: bind_r_eq_Inr)

lemma map_r_Inr_nth:
  "map_r f xs = Inr ys \<Longrightarrow> i < length xs \<Longrightarrow> f (xs ! i) = Inr (ys ! i)"
proof (induction xs arbitrary: ys i)
  case Nil
  then show ?case by simp
next
  case (Cons x xs)
  then obtain y ys' where "f x = Inr y" "map_r f xs = Inr ys'" "ys = y # ys'"
    by (auto simp: bind_r_eq_Inr)
  with Cons show ?case by (cases i) auto
qed

lemma map_r_map: "(\<And>x. x \<in> set xs \<Longrightarrow> f x = Inr (g x)) \<Longrightarrow> map_r f xs = Inr (map g xs)"
  by (induction xs) auto

lemma map_r_ok: "(\<exists>ys. map_r f xs = Inr ys) \<longleftrightarrow> list_all (\<lambda>x. \<not> isl (f x)) xs"
  by (induction xs) (auto simp: bind_r_def split: sum.splits)

lemma map_r_Inr_set: "map_r f xs = Inr ys \<Longrightarrow> y \<in> set ys \<Longrightarrow> \<exists>x \<in> set xs. f x = Inr y"
  by (metis in_set_conv_nth map_r_Inr_length map_r_Inr_nth nth_mem)

lemma map_r_list_all2: "map_r f xs = Inr ys \<longleftrightarrow> list_all2 (\<lambda>x y. f x = Inr y) xs ys"
proof (induction xs arbitrary: ys)
  case Nil
  then show ?case by auto
next
  case (Cons x xs)
  then show ?case by (cases ys) (auto simp: bind_r_eq_Inr)
qed

lemma map_r_bind_Inr:
  "map_r (\<lambda>x. bind_r (f x) (\<lambda>y. Inr (g y))) xs = bind_r (map_r f xs) (\<lambda>ys. Inr (map g ys))"
  by (induction xs) (auto simp: bind_r_def split: sum.splits)

lemma map_r_Inl: "x \<in> set xs \<Longrightarrow> f x = Inl e \<Longrightarrow> \<exists>e'. map_r f xs = Inl e'"
proof (induction xs)
  case Nil
  then show ?case by simp
next
  case (Cons a xs)
  show ?case
  proof (cases "f a")
    case (Inl e1)
    then show ?thesis by simp
  next
    case (Inr y)
    with Cons have "x \<in> set xs" by auto
    with Cons.IH Cons.prems(2) obtain e' where "map_r f xs = Inl e'" by blast
    with Inr show ?thesis by simp
  qed
qed

subsection \<open>Present values of a column\<close>

text \<open>The non-missing values of a column in order: what \<open>dropna()\<close> keeps.\<close>

primrec present :: "'a option list \<Rightarrow> 'a list" where
  "present [] = []"
| "present (x # xs) = (case x of None \<Rightarrow> present xs | Some a \<Rightarrow> a # present xs)"

lemma set_present [simp]: "set (present xs) = {a. Some a \<in> set xs}"
  by (induction xs) (auto split: option.splits)

lemma length_present: "length (present xs) = length (filter (\<lambda>x. x \<noteq> None) xs)"
  by (induction xs) (auto split: option.splits)

lemma present_append [simp]: "present (xs @ ys) = present xs @ present ys"
  by (induction xs) (auto split: option.splits)

lemma present_map_Some [simp]: "present (map Some xs) = xs"
  by (induction xs) auto

lemma present_empty_iff: "present xs = [] \<longleftrightarrow> (\<forall>x \<in> set xs. x = None)"
  by (induction xs) (auto split: option.splits)

lemma count_list_present [count_simps]: "count_list (present xs) a = count_list xs (Some a)"
  by (induction xs) (auto split: option.splits)

subsection \<open>Counting\<close>

lemma count_list_mset [count_simps]: "count_list xs a = count (mset xs) a"
  by (induction xs) auto

lemma sum_count_list_remdups [count_simps]:
  "(\<Sum>k\<leftarrow>remdups xs. count_list xs k) = length xs"
  by (simp add: sum_list_distinct_conv_sum_set sum_count_set)

lemma count_list_pos_iff [count_simps]: "0 < count_list xs a \<longleftrightarrow> a \<in> set xs"
  by (induction xs) auto

end
