(* ===== verification/Counting.thy ===== *)
theory Counting
  imports Prelude
begin

text \<open>
  The aggregations the script takes from pandas, over any key type \<open>'k\<close> (strings for
  \<open>Make\<close>, \<open>Location\<close>, \<open>Injury.Severity\<close>, reals for \<open>year\<close>, the severity
  category for the cross-tabulation). A column's missing values are \<open>None\<close>.
  \<^item> \<open>value_counts_raw\<close>: the hash-table pass of \<open>Series.value_counts\<close>, one bucket per
    distinct key in order of first appearance;
  \<^item> \<open>sort_values_desc\<close>: \<open>Series.sort_values(ascending=False)\<close> as pandas' \<open>nargsort\<close>
    computes it (reverse, stable ascending sort, reverse);
  \<^item> \<open>groupby_size\<close>: \<open>groupby(key).size()\<close>, one pass inserting into a list sorted by key
    (\<open>sort=True\<close>, \<open>dropna=True\<close>);
  \<^item> \<open>series_mode\<close>: \<open>Series.mode()\<close>, the most frequent present values, sorted;
  \<^item> \<open>crosstab\<close>: \<open>groupby([a, b]).size().unstack().fillna(0)\<close> with \<open>b\<close> categorical.
  Each comes with its reference description (counts by \<open>count_list\<close>) and the lemma that
  the pass computes it. These definitions model pandas, a library the script only calls;
  the script's aggregations that call them are in theory \<open>Pipeline\<close>.
\<close>

subsection \<open>value_counts\<close>

definition pd_unique :: "'k list \<Rightarrow> 'k list" where
  "pd_unique xs = rev (remdups (rev xs))"

fun vc_bump :: "'k \<Rightarrow> ('k \<times> nat) list \<Rightarrow> ('k \<times> nat) list" where
  "vc_bump k [] = [(k, 1)]"
| "vc_bump k ((a, n) # ps) = (if a = k then (a, Suc n) # ps else (a, n) # vc_bump k ps)"

definition value_counts_raw :: "'k list \<Rightarrow> ('k \<times> nat) list" where
  "value_counts_raw xs = fold vc_bump xs []"

definition sort_values_desc :: "('k \<times> nat) list \<Rightarrow> ('k \<times> nat) list" where
  "sort_values_desc ps = rev (sort_key snd (rev ps))"

definition head :: "nat \<Rightarrow> 'a list \<Rightarrow> 'a list" where
  "head n xs = take n xs"

text \<open>\<open>value_counts()\<close> (NaN dropped) and \<open>value_counts(dropna=False)\<close> (NaN a key).\<close>

definition value_counts :: "'k option list \<Rightarrow> ('k \<times> nat) list" where
  "value_counts xs = sort_values_desc (value_counts_raw (present xs))"

definition value_counts_keepna :: "'k option list \<Rightarrow> ('k option \<times> nat) list" where
  "value_counts_keepna xs = sort_values_desc (value_counts_raw xs)"

subsection \<open>groupby(...).size()\<close>

fun count_into :: "'k::linorder \<Rightarrow> ('k \<times> nat) list \<Rightarrow> ('k \<times> nat) list" where
  "count_into k [] = [(k, 1)]"
| "count_into k ((a, n) # ps) =
     (if k < a then (k, 1) # (a, n) # ps
      else if k = a then (a, Suc n) # ps
      else (a, n) # count_into k ps)"

definition groupby_size :: "'k::linorder option list \<Rightarrow> ('k \<times> nat) list" where
  "groupby_size xs = fold count_into (present xs) []"

subsection \<open>mode\<close>

definition series_mode :: "'k::linorder option list \<Rightarrow> 'k list" where
  "series_mode xs =
     (let vc = value_counts_raw (present xs);
          m = fold max (map snd vc) 0
      in sort (map fst (filter (\<lambda>p. snd p = m) vc)))"

text \<open>\<open>s.mode()[0]\<close>: label 0 of the mode series; an empty mode raises \<open>KeyError: 0\<close>.\<close>

definition mode_first :: "'k::linorder option list \<Rightarrow> 'k result" where
  "mode_first xs = (case series_mode xs of [] \<Rightarrow> Inl (KeyError ''0'') | k # _ \<Rightarrow> Inr k)"

subsection \<open>Two-key grouping, unstacked\<close>

text \<open>
  With a categorical second key and pandas' default \<open>observed=False\<close>, \<open>size()\<close> is
  reindexed to the product of the first key's sorted present values and all categories,
  with 0 for absent pairs; \<open>unstack()\<close> makes the categories columns.
\<close>

definition crosstab ::
  "'a::linorder option list \<Rightarrow> 'b option list \<Rightarrow> 'b list \<Rightarrow> ('a \<times> ('b \<times> nat) list) list" where
  "crosstab rs cs cats =
     map (\<lambda>r. (r, map (\<lambda>c. (c, count_list (zip rs cs) (Some r, Some c))) cats))
       (map fst (groupby_size rs))"

subsection \<open>Abstraction: a count table as a multiset\<close>

text \<open>A table of (key, count) pairs stands for the multiset with each key that often.\<close>

definition counts_mset :: "('k \<times> nat) list \<Rightarrow> 'k multiset" where
  "counts_mset ps = (\<Sum>p\<leftarrow>ps. replicate_mset (snd p) (fst p))"

subsection \<open>The passes compute their reference descriptions\<close>

lemma set_pd_unique [simp]: "set (pd_unique xs) = set xs"
  by (simp add: pd_unique_def)

lemma distinct_pd_unique [simp]: "distinct (pd_unique xs)"
  by (simp add: pd_unique_def)

lemma pd_unique_snoc:
  "pd_unique (xs @ [x]) = (if x \<in> set xs then pd_unique xs else pd_unique xs @ [x])"
  by (simp add: pd_unique_def)

lemma vc_bump_map:
  "distinct ks \<Longrightarrow> vc_bump x (map (\<lambda>k. (k, f k)) ks) =
     (if x \<in> set ks then map (\<lambda>k. (k, (f(x := Suc (f x))) k)) ks
      else map (\<lambda>k. (k, f k)) ks @ [(x, 1)])"
  by (induction ks) auto

lemma fold_vc_bump:
  "fold vc_bump xs (map (\<lambda>k. (k, count_list ys k)) (pd_unique ys)) =
   map (\<lambda>k. (k, count_list (ys @ xs) k)) (pd_unique (ys @ xs))"
proof (induction xs arbitrary: ys)
  case Nil
  then show ?case by simp
next
  case (Cons x xs)
  have "vc_bump x (map (\<lambda>k. (k, count_list ys k)) (pd_unique ys)) =
        map (\<lambda>k. (k, count_list (ys @ [x]) k)) (pd_unique (ys @ [x]))"
    by (auto simp: vc_bump_map pd_unique_snoc intro!: map_cong)
  then show ?case using Cons.IH[of "ys @ [x]"] by simp
qed

lemma value_counts_raw_eq:
  "value_counts_raw xs = map (\<lambda>k. (k, count_list xs k)) (pd_unique xs)"
  using fold_vc_bump[of xs "[]"] by (simp add: value_counts_raw_def pd_unique_def)

lemma count_into_map:
  "sorted_wrt (<) ks \<Longrightarrow> count_into x (map (\<lambda>k. (k, f k)) ks) =
     (if x \<in> set ks then map (\<lambda>k. (k, (f(x := Suc (f x))) k)) ks
      else map (\<lambda>k. (k, (f(x := 1)) k)) (insort x ks))"
  by (induction ks) (auto intro!: map_cong)

lemma fold_count_into:
  "fold count_into xs (map (\<lambda>k. (k, count_list ys k)) (sorted_list_of_set (set ys))) =
   map (\<lambda>k. (k, count_list (ys @ xs) k)) (sorted_list_of_set (set (ys @ xs)))"
proof (induction xs arbitrary: ys)
  case Nil
  then show ?case by simp
next
  case (Cons x xs)
  have "count_into x (map (\<lambda>k. (k, count_list ys k)) (sorted_list_of_set (set ys))) =
        map (\<lambda>k. (k, count_list (ys @ [x]) k)) (sorted_list_of_set (set (ys @ [x])))"
  proof (cases "x \<in> set ys")
    case True
    then show ?thesis by (auto simp: count_into_map insert_absorb intro!: map_cong)
  next
    case False
    then show ?thesis
      by (auto simp: count_into_map sorted_list_of_set_insert_remove intro!: map_cong)
  qed
  then show ?case using Cons.IH[of "ys @ [x]"] by simp
qed

lemma groupby_size_eq:
  "groupby_size xs =
     map (\<lambda>k. (k, count_list xs (Some k))) (sorted_list_of_set {k. Some k \<in> set xs})"
  using fold_count_into[of "present xs" "[]"]
  by (simp add: groupby_size_def count_list_present)

lemma counts_mset_map_count_filter:
  "distinct ks \<Longrightarrow>
     counts_mset (map (\<lambda>k. (k, count_list ys k)) ks) = filter_mset (\<lambda>x. x \<in> set ks) (mset ys)"
proof (induction ks)
  case Nil
  then show ?case by (simp add: counts_mset_def)
next
  case (Cons k ks)
  have "filter_mset (\<lambda>x. x \<in> set (k # ks)) (mset ys) =
        filter_mset (\<lambda>x. x = k) (mset ys) + filter_mset (\<lambda>x. x \<in> set ks) (mset ys)"
    using Cons.prems by (auto simp: multiset_eq_iff)
  with Cons show ?case
    by (simp add: counts_mset_def filter_eq_replicate_mset count_list_mset)
qed

lemma counts_mset_map_count:
  "distinct ks \<Longrightarrow> set ys \<subseteq> set ks \<Longrightarrow>
     counts_mset (map (\<lambda>k. (k, count_list ys k)) ks) = mset ys"
proof -
  assume "distinct ks" and sub: "set ys \<subseteq> set ks"
  then have "counts_mset (map (\<lambda>k. (k, count_list ys k)) ks) =
             filter_mset (\<lambda>x. x \<in> set ks) (mset ys)"
    by (simp add: counts_mset_map_count_filter)
  also have "\<dots> = filter_mset (\<lambda>x. True) (mset ys)"
    using sub by (intro filter_mset_cong0) auto
  finally show ?thesis by simp
qed

subsection \<open>Sorting by count, descending\<close>

lemma sort_values_desc_mset [simp]: "mset (sort_values_desc ps) = mset ps"
  by (simp add: sort_values_desc_def)

lemma sort_values_desc_filter_count:
  "filter (\<lambda>p. snd p = c) (sort_values_desc ps) = filter (\<lambda>p. snd p = c) ps"
proof -
  have "filter (\<lambda>p. snd p = c) (sort_key snd (rev ps)) = filter (\<lambda>p. snd p = c) (rev ps)"
    by (rule sort_key_stable)
  then show ?thesis by (simp add: sort_values_desc_def flip: rev_filter)
qed

lemma sort_values_desc_sorted: "sorted_wrt (\<ge>) (map snd (sort_values_desc ps))"
proof -
  have "sorted (map snd (sort_key snd (rev ps)))" by simp
  then show ?thesis by (simp add: sort_values_desc_def rev_map [symmetric] sorted_wrt_rev)
qed

text \<open>Stable insertion keeps a list ordered by the key first and an order \<open>R\<close> on ties.\<close>

lemma insort_key_sorted_ties:
  assumes "sorted_wrt (\<lambda>a b. f a < f b \<or> (f a = f b \<and> R a b)) zs"
    and "\<forall>y \<in> set zs. R x y"
  shows "sorted_wrt (\<lambda>a b. f a < f b \<or> (f a = f b \<and> R a b)) (insort_key f x zs)"
  using assms
proof (induction zs)
  case Nil
  then show ?case by simp
next
  case (Cons z zs)
  show ?case
  proof (cases "f x \<le> f z")
    case True
    have "\<forall>y \<in> set zs. f z \<le> f y" using Cons.prems(1) by auto
    with True Cons.prems show ?thesis by (auto simp: order_le_less)
  next
    case False
    with Cons show ?thesis by (auto simp: set_insort_key)
  qed
qed

lemma sort_key_sorted_ties:
  "sorted_wrt R xs \<Longrightarrow> sorted_wrt (\<lambda>a b. f a < f b \<or> (f a = f b \<and> R a b)) (sort_key f xs)"
  by (induction xs) (auto intro: insort_key_sorted_ties)

subsection \<open>Mode\<close>

lemma fold_max_eq_Max: "fold max ns (0::nat) = Max (insert 0 (set ns))"
  by (metis Max.set_eq_fold list.simps(15))

lemma map_fst_filter_snd:
  "map fst (filter (\<lambda>p. snd p = m) (map (\<lambda>k. (k, f k)) ks)) = filter (\<lambda>k. f k = m) ks"
  by (induction ks) auto

lemma set_series_mode:
  "set (series_mode xs) =
     {k. Some k \<in> set xs \<and> (\<forall>j. count_list xs (Some j) \<le> count_list xs (Some k))}"
proof -
  let ?c = "\<lambda>k. count_list xs (Some k)"
  let ?S = "{k. Some k \<in> set xs}"
  let ?m = "Max (insert 0 (?c ` ?S))"
  have fin: "finite (insert 0 (?c ` ?S))"
    using finite_set[of "present xs"] by simp
  have vc: "value_counts_raw (present xs) = map (\<lambda>k. (k, ?c k)) (pd_unique (present xs))"
    by (simp add: value_counts_raw_eq count_list_present)
  have eqv: "k \<in> ?S \<and> ?c k = ?m \<longleftrightarrow> k \<in> ?S \<and> (\<forall>j. ?c j \<le> ?c k)" for k
  proof
    assume a: "k \<in> ?S \<and> ?c k = ?m"
    show "k \<in> ?S \<and> (\<forall>j. ?c j \<le> ?c k)"
    proof (intro conjI allI)
      fix j
      show "?c j \<le> ?c k"
      proof (cases "j \<in> ?S")
        case True
        then show ?thesis using a fin by (simp add: Max_ge)
      next
        case False
        then show ?thesis by (simp add: count_list_0_iff)
      qed
    qed (use a in simp)
  next
    assume a: "k \<in> ?S \<and> (\<forall>j. ?c j \<le> ?c k)"
    have "?m \<le> ?c k" using a fin by (auto intro!: Max.boundedI)
    moreover have "?c k \<le> ?m" using a fin by (auto intro!: Max_ge)
    ultimately show "k \<in> ?S \<and> ?c k = ?m" using a by simp
  qed
  have "set (series_mode xs) = {k \<in> ?S. ?c k = fold max (map ?c (pd_unique (present xs))) 0}"
    by (simp add: series_mode_def Let_def vc map_fst_filter_snd comp_def)
  also have "\<dots> = {k \<in> ?S. ?c k = ?m}"
    by (simp add: fold_max_eq_Max)
  finally show ?thesis using eqv by blast
qed

lemma sorted_series_mode: "sorted (series_mode xs)"
  by (simp add: series_mode_def Let_def)

lemma fold_max_mem: "ns \<noteq> [] \<Longrightarrow> fold max ns (0::nat) \<in> set ns"
proof -
  assume ne: "ns \<noteq> []"
  have "Max (insert 0 (set ns)) = Max (set ns)"
    using ne by (simp add: Max_insert)
  also have "\<dots> \<in> set ns" using ne by simp
  finally show ?thesis by (simp add: fold_max_eq_Max)
qed

lemma sort_eq_Nil: "sort ys = [] \<longleftrightarrow> ys = []"
  by (metis length_0_conv length_sort)

lemma series_mode_Nil_iff: "series_mode xs = [] \<longleftrightarrow> present xs = []"
proof
  assume "series_mode xs = []"
  then have "filter (\<lambda>p. snd p = fold max (map snd (value_counts_raw (present xs))) 0)
               (value_counts_raw (present xs)) = []"
    by (simp add: series_mode_def Let_def sort_eq_Nil)
  then have "value_counts_raw (present xs) = []"
  proof (rule contrapos_pp)
    let ?vc = "value_counts_raw (present xs)"
    assume "?vc \<noteq> []"
    then have "fold max (map snd ?vc) 0 \<in> set (map snd ?vc)" by (intro fold_max_mem) simp
    then obtain p where "p \<in> set ?vc" "snd p = fold max (map snd ?vc) 0" by auto
    then show "filter (\<lambda>p. snd p = fold max (map snd ?vc) 0) ?vc \<noteq> []"
      by (auto simp: filter_empty_conv)
  qed
  then show "present xs = []" by (simp add: value_counts_raw_eq pd_unique_def)
next
  assume "present xs = []"
  then show "series_mode xs = []"
    by (simp add: series_mode_def value_counts_raw_def)
qed

lemma mode_first_Inl:
  "mode_first xs = Inl e \<longleftrightarrow> e = KeyError ''0'' \<and> (\<forall>x \<in> set xs. x = None)"
proof (cases "series_mode xs")
  case Nil
  then have "\<forall>x \<in> set xs. x = None"
    by (simp add: series_mode_Nil_iff present_empty_iff)
  with Nil show ?thesis by (auto simp: mode_first_def)
next
  case (Cons k ks)
  then have "\<not> (\<forall>x \<in> set xs. x = None)"
    using series_mode_Nil_iff[of xs] by (auto simp: present_empty_iff)
  with Cons show ?thesis by (simp add: mode_first_def)
qed

lemma mode_first_Inr:
  assumes "mode_first xs = Inr k"
  shows "Some k \<in> set xs \<and> (\<forall>j. count_list xs (Some j) \<le> count_list xs (Some k)) \<and>
         (\<forall>j. count_list xs (Some j) = count_list xs (Some k) \<longrightarrow> k \<le> j)"
proof -
  obtain ks where ms: "series_mode xs = k # ks"
    using assms by (auto simp: mode_first_def split: list.splits)
  then have k: "k \<in> set (series_mode xs)" by simp
  have "k \<le> j" if "count_list xs (Some j) = count_list xs (Some k)" for j
  proof -
    from k have "Some k \<in> set xs" by (simp add: set_series_mode)
    then have "0 < count_list xs (Some k)" by (simp add: count_list_pos_iff)
    with that have "Some j \<in> set xs" by (simp add: count_list_pos_iff [symmetric])
    with that k have "j \<in> set (series_mode xs)" by (auto simp: set_series_mode)
    with ms sorted_series_mode[of xs] show "k \<le> j" by auto
  qed
  with k show ?thesis by (auto simp: set_series_mode)
qed

subsection \<open>Helper lemmas of the properties\<close>

lemma counts_mset_groupby_size: "counts_mset (groupby_size xs) = mset (present xs)"
proof -
  have "groupby_size xs =
        map (\<lambda>k. (k, count_list (present xs) k)) (sorted_list_of_set (set (present xs)))"
    by (simp only: groupby_size_eq count_list_present set_present)
  also have "counts_mset \<dots> = mset (present xs)"
    by (rule counts_mset_map_count) (simp_all del: set_present)
  finally show ?thesis .
qed

lemma sum_counts_mset: "sum_list (map snd ps) = size (counts_mset ps)"
  by (induction ps) (auto simp: counts_mset_def)

lemma finite_present_keys [simp]: "finite {k. Some k \<in> set xs}"
  using finite_set[of "present xs"] by (simp del: finite_set)

lemma map_fst_groupby_size:
  "map fst (groupby_size xs) = sorted_list_of_set {k. Some k \<in> set xs}"
  by (simp add: groupby_size_eq comp_def)

lemma groupby_size_member:
  "p \<in> set (groupby_size xs) \<longleftrightarrow>
     Some (fst p) \<in> set xs \<and> snd p = count_list xs (Some (fst p))"
  by (cases p) (auto simp: groupby_size_eq)

lemma sort_values_desc_eq_sort_key:
  "sort_values_desc ps = sort_key (\<lambda>p. - int (snd p)) ps"
proof (rule properties_for_sort_key [symmetric])
  show "mset (sort_values_desc ps) = mset ps" by simp
next
  fix k
  have "filter (\<lambda>x. - int (snd k) = - int (snd x)) (sort_values_desc ps)
        = filter (\<lambda>p. snd p = snd k) (sort_values_desc ps)"
    by (rule filter_cong) auto
  also have "\<dots> = filter (\<lambda>p. snd p = snd k) ps"
    by (rule sort_values_desc_filter_count)
  also have "\<dots> = filter (\<lambda>x. - int (snd k) = - int (snd x)) ps"
    by (rule filter_cong) auto
  finally show "filter (\<lambda>x. - int (snd k) = - int (snd x)) (sort_values_desc ps)
        = filter (\<lambda>x. - int (snd k) = - int (snd x)) ps" .
next
  have "sorted_wrt (\<ge>) (map snd (sort_values_desc ps))" by (rule sort_values_desc_sorted)
  then show "sorted (map (\<lambda>p. - int (snd p)) (sort_values_desc ps))"
    by (simp add: sorted_wrt_map)
qed

lemma sum_list_indicator:
  "distinct cats \<Longrightarrow>
     (\<Sum>c\<leftarrow>cats. if z = (a, Some c) then 1 else (0::nat)) =
     (if fst z = a \<and> snd z \<in> Some ` set cats then 1 else 0)"
proof (induction cats)
  case Nil
  then show ?case by simp
next
  case (Cons c cats)
  then show ?case by (cases z) auto
qed

lemma sum_list_count_cats:
  "distinct cats \<Longrightarrow>
     (\<Sum>c\<leftarrow>cats. count_list zs (a, Some c)) =
     length (filter (\<lambda>p. fst p = a \<and> snd p \<in> Some ` set cats) zs)"
proof (induction zs)
  case Nil
  then show ?case by simp
next
  case (Cons z zs)
  have step: "count_list (z # zs) (a, Some c) =
              count_list zs (a, Some c) + (if z = (a, Some c) then 1 else 0)" for c
    by simp
  have "(\<Sum>c\<leftarrow>cats. count_list (z # zs) (a, Some c)) =
        (\<Sum>c\<leftarrow>cats. count_list zs (a, Some c)) +
        (\<Sum>c\<leftarrow>cats. if z = (a, Some c) then 1 else (0::nat))"
    by (simp only: step sum_list_addf)
  also have "\<dots> = length (filter (\<lambda>p. fst p = a \<and> snd p \<in> Some ` set cats) zs) +
                  (if fst z = a \<and> snd z \<in> Some ` set cats then 1 else 0)"
    using Cons by (simp only: sum_list_indicator)
  finally show ?case by simp
qed

lemma counts_mset_perm: "mset ps = mset qs \<Longrightarrow> counts_mset ps = counts_mset qs"
  by (simp add: counts_mset_def sum_mset_sum_list [symmetric] mset_map)

subsection \<open>The aggregations as their reference descriptions\<close>

text \<open>Each pass of pandas equals its reference description: the count tables refine the
  multisets of their inputs and sum to their sizes, \<open>groupby().size()\<close> has its keys
  in ascending order with their numbers of occurrences, top-N keeps the largest counts,
  the two-key count is rectangular, \<open>value_counts()\<close> is a stable sort by descending
  count. The claims about the script's aggregations in theory \<open>Pipeline\<close> rest on them.\<close>

lemma value_counts_refines:
  "counts_mset (value_counts xs) = mset (present xs) \<and>
   counts_mset (value_counts_keepna xs) = mset xs"
proof
  show "counts_mset (value_counts xs) = mset (present xs)"
    unfolding value_counts_def
    by (simp add: counts_mset_perm [OF sort_values_desc_mset] value_counts_raw_eq
        counts_mset_map_count del: set_present)
  show "counts_mset (value_counts_keepna xs) = mset xs"
    unfolding value_counts_keepna_def
    by (simp add: counts_mset_perm [OF sort_values_desc_mset] value_counts_raw_eq
        counts_mset_map_count)
qed

lemma groupby_size_keys_counts:
  "sorted_wrt (<) (map fst (groupby_size xs)) \<and>
   set (map fst (groupby_size xs)) = {k. Some k \<in> set xs} \<and>
   (\<forall>p \<in> set (groupby_size xs). snd p = count_list xs (Some (fst p)) \<and> 0 < snd p)"
proof (intro conjI ballI)
  show "sorted_wrt (<) (map fst (groupby_size xs))"
    by (simp only: map_fst_groupby_size sorted_list_of_set.strict_sorted_key_list_of_set)
  show "set (map fst (groupby_size xs)) = {k. Some k \<in> set xs}"
    by (simp only: map_fst_groupby_size set_sorted_list_of_set finite_present_keys)
next
  fix p assume "p \<in> set (groupby_size xs)"
  then have "Some (fst p) \<in> set xs" and c: "snd p = count_list xs (Some (fst p))"
    by (simp_all add: groupby_size_member)
  then show "snd p = count_list xs (Some (fst p))" and "0 < snd p"
    by (simp_all add: count_list_pos_iff)
qed

lemma groupby_size_total:
  "sum_list (map snd (groupby_size xs)) = length (filter (\<lambda>x. x \<noteq> None) xs)"
  by (simp add: sum_counts_mset counts_mset_groupby_size length_present)

lemma top_n_groupby:
  "length (head n (sort_values_desc (groupby_size xs))) = min n (card {k. Some k \<in> set xs}) \<and>
   sorted_wrt (\<lambda>p q. snd q < snd p \<or> (snd p = snd q \<and> fst p < fst q))
     (head n (sort_values_desc (groupby_size xs))) \<and>
   (\<forall>p \<in> set (head n (sort_values_desc (groupby_size xs))).
      \<forall>q \<in> set (drop n (sort_values_desc (groupby_size xs))). snd q \<le> snd p)"
proof (intro conjI)
  let ?s = "sort_values_desc (groupby_size xs)"
  have "length ?s = length (groupby_size xs)"
    using sort_values_desc_mset[of "groupby_size xs"] by (metis size_mset)
  also have "\<dots> = card {k. Some k \<in> set xs}"
    by (simp add: groupby_size_eq flip: set_present)
  finally show "length (head n ?s) = min n (card {k. Some k \<in> set xs})"
    by (simp add: head_def)
next
  let ?s = "sort_values_desc (groupby_size xs)"
  have "sorted_wrt (<) (map fst (groupby_size xs))"
    by (simp only: map_fst_groupby_size sorted_list_of_set.strict_sorted_key_list_of_set)
  then have "sorted_wrt (\<lambda>p q. fst p < fst q) (groupby_size xs)"
    by (simp add: sorted_wrt_map)
  then have "sorted_wrt (\<lambda>a b. - int (snd a) < - int (snd b) \<or>
                (- int (snd a) = - int (snd b) \<and> fst a < fst b)) ?s"
    unfolding sort_values_desc_eq_sort_key by (rule sort_key_sorted_ties)
  then have "sorted_wrt (\<lambda>p q. snd q < snd p \<or> (snd p = snd q \<and> fst p < fst q)) ?s"
    by (rule sorted_wrt_mono_rel [rotated]) auto
  then show "sorted_wrt (\<lambda>p q. snd q < snd p \<or> (snd p = snd q \<and> fst p < fst q)) (head n ?s)"
    by (simp add: head_def sorted_wrt_take)
next
  let ?s = "sort_values_desc (groupby_size xs)"
  have "sorted_wrt (\<ge>) (map snd (take n ?s) @ map snd (drop n ?s))"
    using sort_values_desc_sorted[of "groupby_size xs"] by (simp flip: map_append)
  then show "\<forall>p \<in> set (head n ?s). \<forall>q \<in> set (drop n ?s). snd q \<le> snd p"
    by (force simp: head_def sorted_wrt_append)
qed

lemma crosstab_rectangular:
  "distinct cats \<Longrightarrow>
   map fst (crosstab rs cs cats) = sorted_list_of_set {r. Some r \<in> set rs} \<and>
   (\<forall>row \<in> set (crosstab rs cs cats).
      map fst (snd row) = cats \<and>
      (\<forall>e \<in> set (snd row). snd e = count_list (zip rs cs) (Some (fst row), Some (fst e))) \<and>
      sum_list (map snd (snd row)) =
        length (filter (\<lambda>p. fst p = Some (fst row) \<and> snd p \<in> Some ` set cats) (zip rs cs)))"
  by (auto simp: crosstab_def groupby_size_eq comp_def sum_list_count_cats)

lemma value_counts_eq_stable_desc:
  "value_counts xs =
     sort_key (\<lambda>p. - int (snd p))
       (map (\<lambda>k. (k, count_list xs (Some k))) (pd_unique (present xs)))"
  by (simp add: value_counts_def sort_values_desc_eq_sort_key value_counts_raw_eq
      count_list_present)

lemma value_counts_total:
  "sum_list (map snd (value_counts_keepna xs)) = length xs \<and>
   sum_list (map snd (value_counts xs)) = length (filter (\<lambda>x. x \<noteq> None) xs)"
proof
  show "sum_list (map snd (value_counts_keepna xs)) = length xs"
    unfolding value_counts_keepna_def
    by (simp add: sum_counts_mset counts_mset_perm [OF sort_values_desc_mset]
        value_counts_raw_eq counts_mset_map_count)
  show "sum_list (map snd (value_counts xs)) = length (filter (\<lambda>x. x \<noteq> None) xs)"
    unfolding value_counts_def
    by (simp add: sum_counts_mset counts_mset_perm [OF sort_values_desc_mset]
        value_counts_raw_eq counts_mset_map_count length_present del: set_present)
qed

end
