(* ===== verification/Frame.thy ===== *)
theory Frame
  imports Prelude
begin

text \<open>
  The pandas \<open>DataFrame\<close> the script keeps in the global \<open>df\<close>: a number of rows and an
  ordered list of named columns, each a list of cells. A cell is what the columns of this
  script hold: pandas' missing value (NaN, NaT), a float, a string, a timestamp (a date,
  since the script's dates carry no time) or a severity category made by \<open>pd.cut\<close>.
  The operations are the column-level statements of the script: \<open>pd.read_csv\<close> with
  \<open>on_bad_lines='skip'\<close> (line 45), \<open>df.drop(columns=..., errors='ignore')\<close> (line 83),
  \<open>df[name]\<close> (a \<open>KeyError\<close> when absent) and \<open>df[name] = values\<close> (replace in place,
  or append a new column last; a \<open>ValueError\<close> on a length mismatch).
  The invariant \<open>wf_frame\<close> says the frame is rectangular with distinct column names.
\<close>

type_synonym date = "nat \<times> nat \<times> nat"

datatype sev = Low | Medium | High

datatype cell = NaN | Num real | Str string | Stamp date | Cat sev

record frame =
  nrows :: nat
  cols :: "(string \<times> cell list) list"

definition wf_frame :: "frame \<Rightarrow> bool" where
  "wf_frame df \<longleftrightarrow>
     distinct (map fst (cols df)) \<and> list_all (\<lambda>c. length (snd c) = nrows df) (cols df)"

definition col_names :: "frame \<Rightarrow> string list" where
  "col_names df = map fst (cols df)"

subsection \<open>Loading: \<open>pd.read_csv(..., on_bad_lines='skip')\<close>\<close>

text \<open>
  The parsed records are given as cell lists (pandas' type inference is not modelled).
  A record with more fields than the header is a bad line and is skipped; a record with
  fewer fields is not a bad line for pandas and is padded with NaN.
\<close>

definition pad_row :: "nat \<Rightarrow> cell list \<Rightarrow> cell list" where
  "pad_row n r = r @ replicate (n - length r) NaN"

definition read_csv :: "string list \<Rightarrow> cell list list \<Rightarrow> frame" where
  "read_csv header records =
     (let rows = map (pad_row (length header)) (filter (\<lambda>r. length r \<le> length header) records)
      in \<lparr>nrows = length rows,
          cols = map (\<lambda>j. (header ! j, map (\<lambda>r. r ! j) rows)) [0..<length header]\<rparr>)"

subsection \<open>Column access and assignment\<close>

definition drop_columns :: "string list \<Rightarrow> frame \<Rightarrow> frame" where
  "drop_columns names df = df\<lparr>cols := filter (\<lambda>c. fst c \<notin> set names) (cols df)\<rparr>"

definition get_column :: "frame \<Rightarrow> string \<Rightarrow> cell list result" where
  "get_column df name =
     (case map_of (cols df) name of None \<Rightarrow> Inl (KeyError name) | Some cs \<Rightarrow> Inr cs)"

fun upd_col :: "string \<Rightarrow> cell list \<Rightarrow> (string \<times> cell list) list \<Rightarrow> (string \<times> cell list) list" where
  "upd_col n v [] = [(n, v)]"
| "upd_col n v ((a, w) # ps) = (if a = n then (n, v) # ps else (a, w) # upd_col n v ps)"

definition set_column :: "string \<Rightarrow> cell list \<Rightarrow> frame \<Rightarrow> frame result" where
  "set_column name cs df =
     (if length cs \<noteq> nrows df
      then Inl (ValueError ''Length of values does not match length of index'')
      else Inr (df\<lparr>cols := upd_col name cs (cols df)\<rparr>))"

subsection \<open>Typed views of a column\<close>

text \<open>
  The reading of a cell as a float (for \<open>mean\<close> and \<open>pd.cut\<close>), as a string key (for
  sorting group keys and modes: Python raises \<open>TypeError\<close> comparing \<open>str\<close> with other
  types) and as a hashable value with NaN as \<open>None\<close> (for \<open>value_counts\<close>).
\<close>

fun as_num :: "cell \<Rightarrow> real option result" where
  "as_num NaN = Inr None"
| "as_num (Num x) = Inr (Some x)"
| "as_num _ = Inl (TypeError ''could not convert to float'')"

fun as_str :: "cell \<Rightarrow> string option result" where
  "as_str NaN = Inr None"
| "as_str (Str s) = Inr (Some s)"
| "as_str _ = Inl (TypeError ''< not supported between str and another type'')"

definition cell_opt :: "cell \<Rightarrow> cell option" where
  "cell_opt c = (if c = NaN then None else Some c)"

definition num_values :: "cell list \<Rightarrow> real option list result" where
  "num_values cs = map_r as_num cs"

definition str_values :: "cell list \<Rightarrow> string option list result" where
  "str_values cs = map_r as_str cs"

subsection \<open>Inspection: \<open>head\<close>, \<open>info\<close>, \<open>isnull().sum()\<close>\<close>

text \<open>The values the inspection statements display: \<open>df.head()\<close> (lines 52, 92) is the
  frame of the first five rows, \<open>df.info()\<close> (line 55) lists the non-null count of every
  column, \<open>df.isnull().sum()\<close> (line 80) the number of missing cells of every column.\<close>

definition frame_head :: "nat \<Rightarrow> frame \<Rightarrow> frame" where
  "frame_head n df = \<lparr>nrows = min n (nrows df), cols = map (\<lambda>(c, cs). (c, take n cs)) (cols df)\<rparr>"

definition info_non_null :: "frame \<Rightarrow> (string \<times> nat) list" where
  "info_non_null df = map (\<lambda>(c, cs). (c, length (filter (\<lambda>x. x \<noteq> NaN) cs))) (cols df)"

definition isnull_sum :: "frame \<Rightarrow> (string \<times> nat) list" where
  "isnull_sum df = map (\<lambda>(c, cs). (c, count_list cs NaN)) (cols df)"

text \<open>The cells a float view and a string view accept, the cells \<open>pd.read_csv\<close> produces
  (NaN, float, string: never a timestamp or a category), and a column of the frame all of
  whose cells have a property (false when the column is absent).\<close>

definition num_cell :: "cell \<Rightarrow> bool" where
  "num_cell c = (case c of NaN \<Rightarrow> True | Num _ \<Rightarrow> True | _ \<Rightarrow> False)"

definition str_cell :: "cell \<Rightarrow> bool" where
  "str_cell c = (case c of NaN \<Rightarrow> True | Str _ \<Rightarrow> True | _ \<Rightarrow> False)"

definition csv_cell :: "cell \<Rightarrow> bool" where
  "csv_cell c = (case c of Stamp _ \<Rightarrow> False | Cat _ \<Rightarrow> False | _ \<Rightarrow> True)"

definition col_all :: "frame \<Rightarrow> string \<Rightarrow> (cell \<Rightarrow> bool) \<Rightarrow> bool" where
  "col_all df n P = (case get_column df n of Inl _ \<Rightarrow> False | Inr cs \<Rightarrow> list_all P cs)"

subsection \<open>Lemmas\<close>

lemma map_of_upd_col [frame_simps]: "map_of (upd_col n v ps) = (map_of ps)(n \<mapsto> v)"
  by (induction ps rule: upd_col.induct) (auto simp: fun_eq_iff)

lemma map_fst_upd_col:
  "map fst (upd_col n v ps) = (if n \<in> set (map fst ps) then map fst ps else map fst ps @ [n])"
  by (induction ps rule: upd_col.induct) auto

lemma set_upd_col: "set (upd_col n v ps) \<subseteq> insert (n, v) (set ps)"
  by (induction ps rule: upd_col.induct) auto

lemma length_upd_col_cells:
  "list_all (\<lambda>c. length (snd c) = k) ps \<Longrightarrow> length v = k \<Longrightarrow>
     list_all (\<lambda>c. length (snd c) = k) (upd_col n v ps)"
  using set_upd_col[of n v ps] by (auto simp: list_all_iff)

lemma get_column_Inr [frame_simps]:
  "get_column df name = Inr cs \<longleftrightarrow> map_of (cols df) name = Some cs"
  by (auto simp: get_column_def split: option.splits)

lemma get_column_Inl [frame_simps]:
  "get_column df name = Inl e \<longleftrightarrow> e = KeyError name \<and> name \<notin> set (col_names df)"
  by (force simp: get_column_def col_names_def map_of_eq_None_iff dest: map_of_SomeD
      split: option.splits)

lemma get_column_length:
  "wf_frame df \<Longrightarrow> get_column df name = Inr cs \<Longrightarrow> length cs = nrows df"
  by (auto simp: get_column_Inr wf_frame_def list_all_iff dest!: map_of_SomeD)

lemma set_column_Inr [frame_simps]:
  "set_column name cs df = Inr df' \<longleftrightarrow>
     length cs = nrows df \<and> df' = df\<lparr>cols := upd_col name cs (cols df)\<rparr>"
  by (auto simp: set_column_def)

lemma set_column_wf: "wf_frame df \<Longrightarrow> set_column name cs df = Inr df' \<Longrightarrow> wf_frame df'"
  by (auto simp: set_column_Inr wf_frame_def map_fst_upd_col length_upd_col_cells)

lemma set_column_nrows: "set_column name cs df = Inr df' \<Longrightarrow> nrows df' = nrows df"
  by (simp add: set_column_Inr)

lemma get_set_column [frame_simps]:
  "set_column name cs df = Inr df' \<Longrightarrow>
     get_column df' n = (if n = name then Inr cs else get_column df n)"
  by (auto simp: set_column_Inr get_column_def map_of_upd_col)

lemma drop_columns_wf: "wf_frame df \<Longrightarrow> wf_frame (drop_columns names df)"
  by (auto simp: wf_frame_def drop_columns_def distinct_map_filter list_all_iff)

lemma as_num_Inr_None: "as_num c = Inr None \<longleftrightarrow> c = NaN"
  by (cases c) auto

lemma as_str_Inr_None: "as_str c = Inr None \<longleftrightarrow> c = NaN"
  by (cases c) auto

lemma num_values_length: "num_values cs = Inr xs \<Longrightarrow> length xs = length cs"
  by (simp add: num_values_def map_r_Inr_length)

lemma str_values_length: "str_values cs = Inr xs \<Longrightarrow> length xs = length cs"
  by (simp add: str_values_def map_r_Inr_length)

lemma map_r_all_NaN:
  assumes "\<And>c. f c = Inr None \<longleftrightarrow> c = NaN"
  shows "map_r f cs = Inr xs \<Longrightarrow> (\<forall>c \<in> set cs. c = NaN) \<longleftrightarrow> present xs = []"
proof (induction cs arbitrary: xs)
  case Nil
  then show ?case by simp
next
  case (Cons c cs)
  from Cons.prems obtain x xs' where x: "f c = Inr x" and r: "map_r f cs = Inr xs'" and xs: "xs = x # xs'"
    by (auto simp: bind_r_eq_Inr)
  show ?case
  proof (cases x)
    case None
    with x have "c = NaN" using assms by simp
    with None xs Cons.IH[OF r] show ?thesis by simp
  next
    case (Some a)
    with x have "c \<noteq> NaN" using assms[of c] by auto
    with Some xs show ?thesis by simp
  qed
qed

lemma num_values_all_NaN:
  "num_values cs = Inr xs \<Longrightarrow> (\<forall>c \<in> set cs. c = NaN) \<longleftrightarrow> present xs = []"
  unfolding num_values_def by (rule map_r_all_NaN) (rule as_num_Inr_None)

lemma str_values_all_NaN:
  "str_values cs = Inr xs \<Longrightarrow> (\<forall>c \<in> set cs. c = NaN) \<longleftrightarrow> present xs = []"
  unfolding str_values_def by (rule map_r_all_NaN) (rule as_str_Inr_None)

lemma set_column_ok:
  "wf_frame df \<Longrightarrow> length cs = nrows df \<Longrightarrow>
     \<exists>df'. set_column n cs df = Inr df' \<and> get_column df' n = Inr cs \<and> wf_frame df' \<and>
           nrows df' = nrows df"
proof -
  assume wf: "wf_frame df" and len: "length cs = nrows df"
  define df' where "df' = df\<lparr>cols := upd_col n cs (cols df)\<rparr>"
  have s: "set_column n cs df = Inr df'" using len by (simp add: set_column_def df'_def)
  moreover have "get_column df' n = Inr cs" using get_set_column [OF s, of n] by simp
  moreover have "wf_frame df'" using wf s by (rule set_column_wf)
  moreover have "nrows df' = nrows df" by (simp add: df'_def)
  ultimately show ?thesis by blast
qed

lemma col_names_read_csv [simp]: "col_names (read_csv header records) = header"
  by (simp add: read_csv_def col_names_def Let_def comp_def map_nth)

lemma col_names_drop_columns:
  "col_names (drop_columns ns df) = filter (\<lambda>n. n \<notin> set ns) (col_names df)"
  by (simp add: col_names_def drop_columns_def filter_map comp_def)

lemma map_of_filter_keep:
  "n \<notin> set ns \<Longrightarrow> map_of (filter (\<lambda>c. fst c \<notin> set ns) ps) n = map_of ps n"
  by (induction ps) auto

lemma num_values_ok: "(\<exists>xs. num_values cs = Inr xs) \<longleftrightarrow> list_all num_cell cs"
proof -
  have "\<not> isl (as_num c) \<longleftrightarrow> num_cell c" for c by (cases c) (simp_all add: num_cell_def)
  then show ?thesis by (simp add: num_values_def map_r_ok)
qed

lemma str_values_ok: "(\<exists>xs. str_values cs = Inr xs) \<longleftrightarrow> list_all str_cell cs"
proof -
  have "\<not> isl (as_str c) \<longleftrightarrow> str_cell c" for c by (cases c) (simp_all add: str_cell_def)
  then show ?thesis by (simp add: str_values_def map_r_ok)
qed

lemma col_all_iff: "col_all df n P \<longleftrightarrow> (\<exists>cs. get_column df n = Inr cs \<and> list_all P cs)"
  by (simp add: col_all_def split: sum.splits)

lemma col_all_same:
  "get_column df' n = get_column df n \<Longrightarrow> col_all df' n P = col_all df n P"
  by (simp add: col_all_def)

lemma set_column_other:
  "set_column n cs df = Inr df' \<Longrightarrow> m \<noteq> n \<Longrightarrow> get_column df' m = get_column df m"
  by (simp add: get_set_column)

lemma get_column_drop_columns:
  "n \<notin> set ns \<Longrightarrow> get_column (drop_columns ns df) n = get_column df n"
  by (simp add: get_column_def drop_columns_def map_of_filter_keep)

lemma wf_read_csv: "distinct header \<Longrightarrow> wf_frame (read_csv header records)"
  by (simp add: wf_frame_def read_csv_def Let_def comp_def map_nth list_all_iff)

lemma read_csv_cells:
  assumes r: "list_all (list_all P) records" and p: "P NaN"
    and g: "get_column (read_csv header records) n = Inr cs"
  shows "list_all P cs"
proof -
  let ?rows = "map (pad_row (length header)) (filter (\<lambda>r. length r \<le> length header) records)"
  from g obtain j where j: "j < length header" and cs: "cs = map (\<lambda>r. r ! j) ?rows"
    by (auto simp: get_column_Inr read_csv_def Let_def dest!: map_of_SomeD)
  have "P (pad_row (length header) r ! j)" if "r \<in> set records" for r
    using r that p j by (auto simp: pad_row_def nth_append list_all_iff)
  then show ?thesis by (auto simp: cs list_all_iff)
qed

lemma map_of_isnull_sum:
  "get_column df n = Inr cs \<Longrightarrow> map_of (isnull_sum df) n = Some (count_list cs NaN)"
  by (induction "cols df" arbitrary: df)
    (auto simp: isnull_sum_def get_column_Inr map_of_map split: if_splits)

lemma count_list_0_iff: "count_list xs x = 0 \<longleftrightarrow> x \<notin> set xs"
  by (induction xs) auto

lemma read_csv_shape:
  assumes "distinct header"
  shows "wf_frame (read_csv header records) \<and>
         nrows (read_csv header records) = length (filter (\<lambda>r. length r \<le> length header) records) \<and>
         col_names (read_csv header records) = header"
  using assms
  by (simp add: wf_frame_def read_csv_def Let_def comp_def map_nth list_all_iff col_names_def)

lemma drop_columns_spec:
  "(set ns \<inter> set (col_names df) = {} \<longrightarrow> drop_columns ns df = df) \<and>
   (\<forall>n \<in> set ns. get_column (drop_columns ns df) n = Inl (KeyError n)) \<and>
   (\<forall>n. n \<notin> set ns \<longrightarrow> get_column (drop_columns ns df) n = get_column df n)"
proof (intro conjI impI allI ballI)
  assume "set ns \<inter> set (col_names df) = {}"
  then have "filter (\<lambda>c. fst c \<notin> set ns) (cols df) = cols df"
    by (auto simp: col_names_def filter_id_conv)
  then show "drop_columns ns df = df" by (simp add: drop_columns_def)
next
  fix n assume "n \<in> set ns"
  then show "get_column (drop_columns ns df) n = Inl (KeyError n)"
    by (simp add: get_column_Inl col_names_drop_columns)
next
  fix n assume "n \<notin> set ns"
  then show "get_column (drop_columns ns df) n = get_column df n"
    by (simp add: get_column_def drop_columns_def map_of_filter_keep)
qed

lemma get_column_col_names: "get_column df n = Inr cs \<Longrightarrow> n \<in> set (col_names df)"
  by (force simp: get_column_Inr col_names_def dest: map_of_SomeD)

lemma set_column_col_names:
  "set_column n cs df = Inr df' \<Longrightarrow> set (col_names df') = insert n (set (col_names df))"
  by (auto simp: set_column_Inr col_names_def map_fst_upd_col)

lemma read_csv_column:
  assumes d: "distinct header" and j: "j < length header"
  shows "get_column (read_csv header records) (header ! j) =
           Inr (map (\<lambda>r. pad_row (length header) r ! j) (filter (\<lambda>r. length r \<le> length header) records))"
proof -
  have "map_of (cols (read_csv header records)) (header ! j) =
          Some (map (\<lambda>r. pad_row (length header) r ! j) (filter (\<lambda>r. length r \<le> length header) records))"
    using d j by (simp add: read_csv_def Let_def map_of_eq_Some_iff comp_def map_nth)
      (rule image_eqI[where x = j]; simp)
  then show ?thesis by (simp add: get_column_Inr)
qed

lemma num_values_Str: "Str s \<in> set cs \<Longrightarrow> num_values cs = Inl (TypeError ''could not convert to float'')"
proof (induction cs)
  case (Cons c cs)
  show ?case
  proof (cases "as_num c")
    case (Inl e)
    then show ?thesis by (cases c) (simp_all add: num_values_def)
  next
    case (Inr y)
    then have "Str s \<in> set cs" using Cons.prems by auto
    then show ?thesis using Cons.IH Inr by (simp add: num_values_def)
  qed
qed simp

end
