(* ===== verification/Impute.thy ===== *)
theory Impute
  imports Counting Frame
begin

text \<open>
  Missing-value imputation, lines 86 and 89 of the script:
  \<^verbatim>\<open>df['Total.Fatal.Injuries'].fillna(df['Total.Fatal.Injuries'].mean(), inplace=True)
df['Weather.Condition'].fillna(df['Weather.Condition'].mode()[0], inplace=True)\<close>
  \<open>Series.mean()\<close> skips NaN and is NaN on a column with no present value; filling with
  NaN changes nothing. \<open>Series.mode()\<close> is \<open>series_mode\<close> of \<open>Counting\<close>, and \<open>[0]\<close>
  on an empty mode raises \<open>KeyError: 0\<close>. The in-place fill on \<open>df[col]\<close> writes the
  column back (pandas 2 without copy-on-write). Floats are modelled as reals: rounding
  of the mean is not modelled.
\<close>

definition series_mean :: "cell list \<Rightarrow> real option result" where
  "series_mean cs =
     bind_r (num_values cs)
       (\<lambda>xs. let ys = present xs
             in Inr (if ys = [] then None else Some (sum_list ys / real (length ys))))"

definition fillna :: "cell \<Rightarrow> cell list \<Rightarrow> cell list" where
  "fillna v cs = map (\<lambda>c. if c = NaN then v else c) cs"

definition mean_cell :: "real option \<Rightarrow> cell" where
  "mean_cell m = (case m of None \<Rightarrow> NaN | Some x \<Rightarrow> Num x)"

definition impute_mean :: "string \<Rightarrow> frame \<Rightarrow> frame result" where
  "impute_mean name df =
     bind_r (get_column df name)
       (\<lambda>cs. bind_r (series_mean cs) (\<lambda>m. set_column name (fillna (mean_cell m) cs) df))"

definition impute_mode :: "string \<Rightarrow> frame \<Rightarrow> frame result" where
  "impute_mode name df =
     bind_r (get_column df name)
       (\<lambda>cs. bind_r (str_values cs)
         (\<lambda>ks. bind_r (mode_first ks) (\<lambda>v. set_column name (fillna (Str v) cs) df)))"

subsection \<open>Lemmas\<close>

lemma length_fillna [simp]: "length (fillna v cs) = length cs"
  by (simp add: fillna_def)

lemma NaN_notin_fillna: "v \<noteq> NaN \<Longrightarrow> NaN \<notin> set (fillna v cs)"
  by (auto simp: fillna_def)

lemma fillna_NaN [simp]: "fillna NaN cs = cs"
  by (induction cs) (auto simp: fillna_def)

lemma series_mean_Inr:
  "num_values cs = Inr xs \<Longrightarrow>
     series_mean cs = Inr (if present xs = [] then None
                           else Some (sum_list (present xs) / real (length (present xs))))"
  by (simp add: series_mean_def Let_def)

lemma upd_col_same:
  "distinct (map fst ps) \<Longrightarrow> map_of ps n = Some v \<Longrightarrow> upd_col n v ps = ps"
  by (induction ps rule: upd_col.induct) (auto split: if_splits)

lemma set_column_same:
  "wf_frame df \<Longrightarrow> get_column df n = Inr cs \<Longrightarrow> set_column n cs df = Inr df"
proof -
  assume wf: "wf_frame df" and g: "get_column df n = Inr cs"
  have "length cs = nrows df" using wf g by (rule get_column_length)
  moreover have "upd_col n cs (cols df) = cols df"
    using wf g by (intro upd_col_same) (simp_all add: wf_frame_def get_column_Inr)
  ultimately show ?thesis by (simp add: set_column_def)
qed

lemma set_column_exists:
  "wf_frame df \<Longrightarrow> get_column df n = Inr cs \<Longrightarrow> length cs' = length cs \<Longrightarrow>
     \<exists>df'. set_column n cs' df = Inr df' \<and> get_column df' n = Inr cs' \<and> wf_frame df' \<and>
           nrows df' = nrows df"
  using get_column_length[of df n cs] get_set_column[of n cs' df]
  by (auto simp: set_column_Inr intro: set_column_wf [of df n cs'])

lemma list_all_fillna: "P v \<Longrightarrow> list_all P cs \<Longrightarrow> list_all P (fillna v cs)"
  by (auto simp: fillna_def list_all_iff)

lemma impute_mean_ok:
  assumes wf: "wf_frame df" and g: "get_column df n = Inr cs" and t: "list_all num_cell cs"
  shows "\<exists>df'. impute_mean n df = Inr df' \<and> col_all df' n num_cell"
proof -
  obtain xs where nv: "num_values cs = Inr xs" using t num_values_ok by blast
  define m where "m = (if present xs = [] then None
                       else Some (sum_list (present xs) / real (length (present xs))))"
  have "num_cell (mean_cell m)" by (simp add: mean_cell_def num_cell_def split: option.splits)
  then have c: "list_all num_cell (fillna (mean_cell m) cs)" using t by (rule list_all_fillna)
  obtain df' where s: "set_column n (fillna (mean_cell m) cs) df = Inr df'"
    "get_column df' n = Inr (fillna (mean_cell m) cs)"
    using set_column_exists[OF wf g, of "fillna (mean_cell m) cs"] by auto
  have "impute_mean n df = Inr df'"
    using g nv s(1) by (simp add: impute_mean_def series_mean_Inr m_def)
  with s(2) c show ?thesis by (auto simp: col_all_def)
qed

lemma impute_mode_ok:
  assumes wf: "wf_frame df" and g: "get_column df n = Inr cs" and t: "list_all str_cell cs"
    and ne: "\<exists>c \<in> set cs. c \<noteq> NaN"
  shows "\<exists>df'. impute_mode n df = Inr df'"
proof -
  obtain ks where sv: "str_values cs = Inr ks" using t str_values_ok by blast
  have "present ks \<noteq> []" using str_values_all_NaN[OF sv] ne by blast
  then obtain v where v: "mode_first ks = Inr v"
    by (cases "mode_first ks") (auto simp: mode_first_Inl present_empty_iff)
  obtain df' where s: "set_column n (fillna (Str v) cs) df = Inr df'"
    using set_column_exists[OF wf g, of "fillna (Str v) cs"] by auto
  then show ?thesis using g sv v by (auto simp: impute_mode_def)
qed

lemma impute_mean_no_NaN:
  assumes m: "impute_mean n df = Inr df'" and g: "get_column df n = Inr cs"
    and ne: "\<exists>c \<in> set cs. c \<noteq> NaN"
  shows "\<exists>cs'. get_column df' n = Inr cs' \<and> NaN \<notin> set cs'"
proof -
  from m g obtain xs v where nv: "num_values cs = Inr xs" and sm: "series_mean cs = Inr v"
    and s: "set_column n (fillna (mean_cell v) cs) df = Inr df'"
    by (auto simp: impute_mean_def series_mean_def bind_r_eq_Inr)
  have "present xs \<noteq> []" using num_values_all_NaN[OF nv] ne by blast
  then have "mean_cell v \<noteq> NaN" using sm series_mean_Inr[OF nv] by (auto simp: mean_cell_def)
  then show ?thesis using get_set_column[OF s, of n] NaN_notin_fillna by auto
qed

lemma impute_mode_no_NaN:
  "impute_mode n df = Inr df' \<Longrightarrow> \<exists>cs'. get_column df' n = Inr cs' \<and> NaN \<notin> set cs'"
  by (auto simp: impute_mode_def bind_r_eq_Inr get_set_column NaN_notin_fillna)

subsection \<open>Properties\<close>

text \<open>C1. Mean imputation (line 86): on a rectangular frame whose numeric column has at
  least one present value, the statement succeeds, replaces every NaN of the column by the
  mean of the values present before the fill, leaves the other cells and the row count as
  they were, and no NaN remains in the column.\<close>

theorem impute_mean_fills:
  assumes wf: "wf_frame df" and g: "get_column df n = Inr cs"
    and nv: "num_values cs = Inr xs" and ne: "present xs \<noteq> []"
  shows "\<exists>df'. impute_mean n df = Inr df' \<and>
           get_column df' n =
             Inr (fillna (Num (sum_list (present xs) / real (length (present xs)))) cs) \<and>
           NaN \<notin> set (fillna (Num (sum_list (present xs) / real (length (present xs)))) cs) \<and>
           wf_frame df' \<and> nrows df' = nrows df"
proof -
  let ?v = "Num (sum_list (present xs) / real (length (present xs)))"
  obtain df' where s: "set_column n (fillna ?v cs) df = Inr df'" "get_column df' n = Inr (fillna ?v cs)"
    "wf_frame df'" "nrows df' = nrows df"
    using set_column_exists[OF wf g, of "fillna ?v cs"] by auto
  have "impute_mean n df = Inr df'"
    using g nv ne s(1) by (simp add: impute_mean_def series_mean_Inr mean_cell_def)
  with s show ?thesis by (auto simp: NaN_notin_fillna)
qed

theorem impute_mean_fills_witness:
  "\<exists>df'. impute_mean ''Total.Fatal.Injuries''
            \<lparr>nrows = 3, cols = [(''Total.Fatal.Injuries'', [Num 0, Num 2, NaN])]\<rparr> = Inr df' \<and>
          get_column df' ''Total.Fatal.Injuries'' = Inr [Num 0, Num 2, Num 1]"
proof -
  let ?df = "\<lparr>nrows = 3, cols = [(''Total.Fatal.Injuries'', [Num 0, Num 2, NaN])]\<rparr>"
  have h1: "wf_frame ?df" by (simp add: wf_frame_def)
  have h2: "get_column ?df ''Total.Fatal.Injuries'' = Inr [Num 0, Num 2, NaN]"
    by (simp add: get_column_def)
  have h3: "num_values [Num 0, Num 2, NaN] = Inr [Some 0, Some 2, None]"
    by (simp add: num_values_def)
  have h4: "present [Some (0::real), Some 2, None] \<noteq> []" by simp
  show ?thesis using impute_mean_fills [OF h1 h2 h3 h4] by (simp add: fillna_def, blast)
qed

text \<open>C2. Mode imputation (line 89): on a rectangular frame whose string column has at
  least one present value, the statement succeeds and fills every NaN with one value \<open>v\<close>
  that occurs in the column, occurs at least as often as any other value, and is the
  least (in Python's string order) of the values that occur equally often, since
  \<open>Series.mode\<close> returns its values sorted.\<close>

theorem impute_mode_fills:
  assumes wf: "wf_frame df" and g: "get_column df n = Inr cs"
    and sv: "str_values cs = Inr ks" and ne: "present ks \<noteq> []"
  shows "\<exists>df' v. impute_mode n df = Inr df' \<and> get_column df' n = Inr (fillna (Str v) cs) \<and>
           Some v \<in> set ks \<and> (\<forall>j. count_list ks (Some j) \<le> count_list ks (Some v)) \<and>
           (\<forall>j. count_list ks (Some j) = count_list ks (Some v) \<longrightarrow> v \<le> j)"
proof -
  obtain v where m: "mode_first ks = Inr v"
    using ne mode_first_Inl[of ks] by (cases "mode_first ks") (auto simp: present_empty_iff)
  obtain df' where s: "set_column n (fillna (Str v) cs) df = Inr df'"
    "get_column df' n = Inr (fillna (Str v) cs)"
    using set_column_exists[OF wf g, of "fillna (Str v) cs"] by auto
  have "impute_mode n df = Inr df'" using g sv m s(1) by (simp add: impute_mode_def)
  with s m mode_first_Inr[OF m] show ?thesis by blast
qed

theorem impute_mode_fills_witness:
  "\<exists>df'. impute_mode ''Weather.Condition''
            \<lparr>nrows = 4, cols = [(''Weather.Condition'', [Str ''VMC'', Str ''VMC'', Str ''IMC'', NaN])]\<rparr>
            = Inr df' \<and>
          get_column df' ''Weather.Condition'' = Inr [Str ''VMC'', Str ''VMC'', Str ''IMC'', Str ''VMC'']"
proof -
  let ?cs = "[Str ''VMC'', Str ''VMC'', Str ''IMC'', NaN]"
  let ?ks = "[Some ''VMC'', Some ''VMC'', Some ''IMC'', None]"
  let ?df = "\<lparr>nrows = 4, cols = [(''Weather.Condition'', ?cs)]\<rparr>"
  have h1: "wf_frame ?df" by (simp add: wf_frame_def)
  have h2: "get_column ?df ''Weather.Condition'' = Inr ?cs" by (simp add: get_column_def)
  have h3: "str_values ?cs = Inr ?ks" by (simp add: str_values_def)
  have h4: "present ?ks \<noteq> []" by simp
  obtain df' v where r: "impute_mode ''Weather.Condition'' ?df = Inr df'"
    "get_column df' ''Weather.Condition'' = Inr (fillna (Str v) ?cs)"
    "Some v \<in> set ?ks" "\<forall>j. count_list ?ks (Some j) \<le> count_list ?ks (Some v)"
    using impute_mode_fills [OF h1 h2 h3 h4] by blast
  have "v = ''VMC''"
    using r(3) r(4) [rule_format, of "''VMC''"] by auto
  with r show ?thesis by (auto simp: fillna_def)
qed

text \<open>C3. Mean imputation of a column with no present value (every cell NaN) leaves the
  frame unchanged: \<open>mean()\<close> is NaN and \<open>fillna(NaN)\<close> fills nothing, so NaN remains,
  against the requirement that imputation leave no absent value.\<close>

theorem impute_mean_all_missing:
  assumes "wf_frame df" and "get_column df n = Inr cs" and "\<forall>c \<in> set cs. c = NaN"
  shows "impute_mean n df = Inr df"
proof -
  have nv: "num_values cs = Inr (map (\<lambda>_. None) cs)"
    unfolding num_values_def by (rule map_r_map) (use assms(3) in auto)
  with assms(3) have "present (map (\<lambda>_. None) cs :: real option list) = []"
    by (simp add: num_values_all_NaN)
  with nv have "series_mean cs = Inr None" by (simp add: series_mean_Inr)
  with assms show ?thesis by (simp add: impute_mean_def mean_cell_def set_column_same)
qed

theorem impute_mean_all_missing_witness:
  "impute_mean ''Total.Fatal.Injuries''
     \<lparr>nrows = 2, cols = [(''Total.Fatal.Injuries'', [NaN, NaN])]\<rparr> =
   Inr \<lparr>nrows = 2, cols = [(''Total.Fatal.Injuries'', [NaN, NaN])]\<rparr>"
  by (rule impute_mean_all_missing [where cs = "[NaN, NaN]"])
    (simp_all add: wf_frame_def get_column_def)

text \<open>C4. Mode imputation of a column with no present value raises \<open>KeyError: 0\<close>:
  \<open>mode()\<close> is empty and \<open>[0]\<close> finds no label 0.\<close>

theorem impute_mode_all_missing:
  assumes "get_column df n = Inr cs" and "\<forall>c \<in> set cs. c = NaN"
  shows "impute_mode n df = Inl (KeyError ''0'')"
proof -
  have sv: "str_values cs = Inr (map (\<lambda>_. None) cs)"
    unfolding str_values_def by (rule map_r_map) (use assms(2) in auto)
  have "mode_first (map (\<lambda>_. None) cs :: string option list) = Inl (KeyError ''0'')"
    by (simp add: mode_first_Inl present_empty_iff)
  with assms(1) sv show ?thesis by (simp add: impute_mode_def)
qed

theorem impute_mode_all_missing_witness:
  "impute_mode ''Weather.Condition'' \<lparr>nrows = 1, cols = [(''Weather.Condition'', [NaN])]\<rparr> =
   Inl (KeyError ''0'')"
  by (rule impute_mode_all_missing [where cs = "[NaN]"]) (simp_all add: get_column_def)

end
