(* ===== verification/Describe.thy ===== *)
theory Describe
  imports Impute
begin

text \<open>
  Summary statistics, line 58 of the script: \<^verbatim>\<open>df.describe()\<close> on the frame just loaded.
  With the default \<open>include=None\<close> pandas describes the numeric columns when there is
  one, and every column as an object column otherwise; a frame without columns raises
  \<open>ValueError\<close>. A numeric column is summarised by \<open>describe_num\<close>: the number of
  present values, their mean, their standard deviation with \<open>ddof=1\<close> (NaN below two
  values), their minimum, the quartiles by numpy's linear interpolation (\<open>quartile\<close>,
  with numpy's \<open>_lerp\<close>) and their maximum, all NaN on a column without a present value.
  An object column is summarised by \<open>describe_obj\<close>: count, number of distinct values,
  and the first entry of \<open>value_counts()\<close> as top value and frequency (NaN when there
  is none). The dtype of a column is read from its cells as \<open>pd.read_csv\<close> infers it:
  float when it has a row and every cell is NaN or a float, object otherwise (a file with
  a header and no record gives object columns).
\<close>

record num_summary =
  d_count :: nat
  d_mean :: cell
  d_std :: cell
  d_min :: cell
  d_q25 :: cell
  d_q50 :: cell
  d_q75 :: cell
  d_max :: cell

record obj_summary =
  o_count :: nat
  o_unique :: nat
  o_top :: cell
  o_freq :: cell

datatype col_summary = NumSummary num_summary | ObjSummary obj_summary

definition num_column :: "cell list \<Rightarrow> bool" where
  "num_column cs = (cs \<noteq> [] \<and> list_all num_cell cs)"

definition num_present :: "cell list \<Rightarrow> real list" where
  "num_present cs = [x. Num x \<leftarrow> cs]"

text \<open>numpy's \<open>_lerp\<close>, which computes from the nearer end for numerical stability.\<close>

definition lerp :: "real \<Rightarrow> real \<Rightarrow> real \<Rightarrow> real" where
  "lerp a b t = (if t < 1 / 2 then a + (b - a) * t else b - (b - a) * (1 - t))"

text \<open>The \<open>k\<close>/4 quantile of the sorted values \<open>zs\<close> by numpy's default method
  \<open>linear\<close>: the virtual index \<open>(n - 1) * k / 4\<close>, its floor \<open>i\<close>, the next index
  clipped to the last one, and the fraction \<open>((n - 1) * k mod 4) / 4\<close>.\<close>

definition quartile :: "real list \<Rightarrow> nat \<Rightarrow> real" where
  "quartile zs k =
     (let v = (length zs - 1) * k; i = v div 4; j = min (Suc i) (length zs - 1)
      in lerp (zs ! i) (zs ! j) (real (v mod 4) / 4))"

definition describe_num :: "cell list \<Rightarrow> num_summary" where
  "describe_num cs =
     (let ys = num_present cs; n = length ys; zs = sort ys; m = sum_list ys / real n;
          stat = (\<lambda>x. if n = 0 then NaN else Num x)
      in \<lparr>d_count = n, d_mean = stat m,
          d_std = (if n \<le> 1 then NaN
                   else Num (sqrt (sum_list (map (\<lambda>y. (y - m)\<^sup>2) ys) / real (n - 1)))),
          d_min = stat (Min (set ys)), d_q25 = stat (quartile zs 1),
          d_q50 = stat (quartile zs 2), d_q75 = stat (quartile zs 3),
          d_max = stat (Max (set ys))\<rparr>)"

definition describe_obj :: "cell list \<Rightarrow> obj_summary" where
  "describe_obj cs =
     (let vc = value_counts (map cell_opt cs)
      in \<lparr>o_count = length (filter (\<lambda>c. c \<noteq> NaN) cs), o_unique = length vc,
          o_top = (case vc of [] \<Rightarrow> NaN | p # _ \<Rightarrow> fst p),
          o_freq = (case vc of [] \<Rightarrow> NaN | p # _ \<Rightarrow> Num (real (snd p)))\<rparr>)"

definition describe :: "frame \<Rightarrow> (string \<times> col_summary) list result" where
  "describe df =
     (if cols df = [] then Inl (ValueError ''Cannot describe a DataFrame without columns'')
      else let ns = filter (\<lambda>(n, cs). num_column cs) (cols df)
           in Inr (if ns \<noteq> [] then map (\<lambda>(n, cs). (n, NumSummary (describe_num cs))) ns
                   else map (\<lambda>(n, cs). (n, ObjSummary (describe_obj cs))) (cols df)))"

subsection \<open>An example\<close>

text \<open>Five records with four fatality counts and four makes; \<open>describe()\<close> summarises the
  fatality column only, the make column being of object dtype.\<close>

definition example_describe_frame :: frame where
  "example_describe_frame =
     \<lparr>nrows = 5, cols = [(''Total.Fatal.Injuries'', [Num 2, NaN, Num 1, Num 4, Num 3]),
                          (''Make'', [Str ''Cessna'', Str ''Piper'', Str ''Cessna'', NaN, Str ''Boeing''])]\<rparr>"

definition example_summary :: num_summary where
  "example_summary =
     \<lparr>d_count = 4, d_mean = Num (5 / 2), d_std = Num (sqrt (5 / 3)), d_min = Num 1,
      d_q25 = Num (7 / 4), d_q50 = Num (5 / 2), d_q75 = Num (13 / 4), d_max = Num 4\<rparr>"

subsection \<open>Lemmas\<close>











lemma present_num_values: "num_values cs = Inr xs \<Longrightarrow> present xs = num_present cs"
proof (induction cs arbitrary: xs)
  case (Cons c cs)
  then obtain y ys where "as_num c = Inr y" "num_values cs = Inr ys" "xs = y # ys"
    by (auto simp: num_values_def bind_r_eq_Inr)
  with Cons.IH show ?case by (cases c) (auto simp: num_present_def)
qed (simp add: num_values_def num_present_def)

lemma length_num_present:
  "list_all num_cell cs \<Longrightarrow> length (num_present cs) = length (filter (\<lambda>c. c \<noteq> NaN) cs)"
  by (induction cs) (auto simp: num_present_def num_cell_def split: cell.splits)


lemma describe_NumSummary:
  "describe df = Inr s \<Longrightarrow> (n, NumSummary d) \<in> set s \<Longrightarrow>
     \<exists>cs. (n, cs) \<in> set (cols df) \<and> num_column cs \<and> d = describe_num cs"
  by (auto simp: describe_def Let_def split: if_splits)

lemma describe_num_cs:
  assumes wf: "wf_frame df" and ds: "describe df = Inr s" and m: "(n, NumSummary d) \<in> set s"
    and g: "get_column df n = Inr cs"
  shows "num_column cs \<and> d = describe_num cs"
proof -
  obtain cs' where "(n, cs') \<in> set (cols df)" "num_column cs'" "d = describe_num cs'"
    using describe_NumSummary[OF ds m] by blast
  moreover have "map_of (cols df) n = Some cs'"
    using wf \<open>(n, cs') \<in> set (cols df)\<close> by (simp add: wf_frame_def)
  ultimately show ?thesis using g by (simp add: get_column_Inr)
qed




lemma describe_Inr: "cols df \<noteq> [] \<Longrightarrow> \<exists>s. describe df = Inr s"
  by (simp add: describe_def Let_def)

lemma cols_read_csv_Nil: "cols (read_csv header records) = [] \<longleftrightarrow> header = []"
  using col_names_read_csv[of header records] by (auto simp: col_names_def)

lemma describe_read_csv:
  "header \<noteq> [] \<Longrightarrow> \<exists>s. describe (read_csv header records) = Inr s"
  by (rule describe_Inr) (simp add: cols_read_csv_Nil)

lemma describe_read_csv_Nil:
  "describe (read_csv [] records) = Inl (ValueError ''Cannot describe a DataFrame without columns'')"
  by (simp add: describe_def read_csv_def)

lemma impute_mean_describe:
  assumes g: "get_column df n = Inr cs" and t: "list_all num_cell cs"
    and i: "impute_mean n df = Inr df'"
  shows "get_column df' n = Inr (fillna (d_mean (describe_num cs)) cs)"
proof -
  obtain xs where nv: "num_values cs = Inr xs" using t num_values_ok by blast
  have p: "present xs = num_present cs" using nv by (rule present_num_values)
  have "mean_cell (if present xs = [] then None
                   else Some (sum_list (present xs) / real (length (present xs)))) =
        d_mean (describe_num cs)"
    using p by (simp add: mean_cell_def describe_num_def Let_def)
  then have "set_column n (fillna (d_mean (describe_num cs)) cs) df = Inr df'"
    using g nv i by (simp add: impute_mean_def series_mean_Inr)
  then show ?thesis by (simp add: get_set_column)
qed

lemma describe_num_member:
  assumes "describe df = Inr s" and "(n, cs) \<in> set (cols df)" and "num_column cs"
  shows "(n, NumSummary (describe_num cs)) \<in> set s"
  using assms by (auto simp: describe_def Let_def filter_empty_conv split: if_splits)

lemma present_cell_opt: "present (map cell_opt cs) = filter (\<lambda>c. c \<noteq> NaN) cs"
  by (induction cs) (auto simp: cell_opt_def)

lemma count_list_filter_NaN: "c \<noteq> NaN \<Longrightarrow> count_list (filter (\<lambda>c. c \<noteq> NaN) cs) c = count_list cs c"
  by (induction cs) auto

lemma value_counts_cells:
  fixes cs :: "cell list"
  defines "P \<equiv> filter (\<lambda>c. c \<noteq> NaN) cs"
  shows "set (value_counts (map cell_opt cs)) = (\<lambda>k. (k, count_list P k)) ` set P \<and>
         length (value_counts (map cell_opt cs)) = card (set P)"
proof -
  have m: "mset (value_counts (map cell_opt cs)) = mset (map (\<lambda>k. (k, count_list P k)) (pd_unique P))"
    by (simp add: value_counts_def value_counts_raw_eq present_cell_opt P_def)
  have "set (value_counts (map cell_opt cs)) = set (map (\<lambda>k. (k, count_list P k)) (pd_unique P))"
    using mset_eq_setD[OF m] .
  moreover have "length (value_counts (map cell_opt cs)) = length (pd_unique P)"
    using mset_eq_length[OF m] by simp
  moreover have "length (pd_unique P) = card (set P)"
    using distinct_card[of "pd_unique P"] by simp
  ultimately show ?thesis by simp
qed

lemma describe_obj_top_aux:
  assumes ne: "filter (\<lambda>c. c \<noteq> NaN) cs \<noteq> []"
  shows "o_top (describe_obj cs) \<in> set cs - {NaN} \<and>
         o_freq (describe_obj cs) = Num (real (count_list cs (o_top (describe_obj cs)))) \<and>
         (\<forall>c \<in> set cs - {NaN}. count_list cs c \<le> count_list cs (o_top (describe_obj cs)))"
proof -
  define P where "P = filter (\<lambda>c. c \<noteq> NaN) cs"
  define vc where "vc = value_counts (map cell_opt cs)"
  have sv: "set vc = (\<lambda>k. (k, count_list P k)) ` set P" and lv: "length vc = card (set P)"
    using value_counts_cells[of cs] by (simp_all add: vc_def P_def)
  have "P \<noteq> []" using ne by (simp add: P_def)
  then have "0 < card (set P)" by (simp add: card_gt_0_iff)
  then have "vc \<noteq> []" using lv by auto
  then obtain p rest where v: "vc = p # rest" by (cases vc) auto
  have srt: "\<forall>q \<in> set rest. snd q \<le> snd p"
    using sort_values_desc_sorted[of "value_counts_raw (present (map cell_opt cs))"] v
    by (simp add: vc_def value_counts_def)
  have "p \<in> set vc" using v by simp
  then obtain k where k: "k \<in> set P" "p = (k, count_list P k)" using sv by auto
  have kn: "k \<noteq> NaN" and kc: "k \<in> set cs" using k(1) by (simp_all add: P_def)
  have top: "o_top (describe_obj cs) = k" "o_freq (describe_obj cs) = Num (real (count_list P k))"
    using v k(2) by (simp_all add: describe_obj_def vc_def)
  have "count_list P c \<le> count_list P k" if "c \<in> set P" for c
  proof -
    have "(c, count_list P c) \<in> set vc" using that sv by auto
    then show ?thesis using srt v k(2) by auto
  qed
  then show ?thesis using top kn kc by (auto simp: P_def count_list_filter_NaN)
qed

lemma describe_obj_cs:
  assumes wf: "wf_frame df" and ds: "describe df = Inr s" and m: "(n, ObjSummary ob) \<in> set s"
    and g: "get_column df n = Inr cs"
  shows "ob = describe_obj cs \<and> (\<forall>p \<in> set (cols df). \<not> num_column (snd p))"
proof -
  have ne: "cols df \<noteq> []" using ds by (auto simp: describe_def split: if_splits)
  have a: "\<forall>p \<in> set (cols df). \<not> num_column (snd p)"
    using ds m by (auto simp: describe_def Let_def filter_empty_conv split: if_splits)
  then have "filter (\<lambda>(n, cs). num_column cs) (cols df) = []"
    by (simp add: filter_empty_conv split_def)
  then have "s = map (\<lambda>(n, cs). (n, ObjSummary (describe_obj cs))) (cols df)"
    using ds ne by (simp add: describe_def Let_def)
  then obtain cs' where c: "(n, cs') \<in> set (cols df)" "ob = describe_obj cs'" using m by auto
  moreover have "map_of (cols df) n = Some cs'" using wf c(1) by (simp add: wf_frame_def)
  ultimately show ?thesis using g a by (simp add: get_column_Inr)
qed

lemma example_described:
  "describe example_describe_frame = Inr [(''Total.Fatal.Injuries'', NumSummary example_summary)]"
  by (simp add: example_describe_frame_def example_summary_def describe_def describe_num_def
      num_column_def num_cell_def num_present_def quartile_def lerp_def Let_def
      power2_eq_square real_sqrt_divide)

lemma example_describe_frame_facts:
  "wf_frame example_describe_frame"
  "get_column example_describe_frame ''Total.Fatal.Injuries'' = Inr [Num 2, NaN, Num 1, Num 4, Num 3]"
  "(''Total.Fatal.Injuries'', NumSummary example_summary) \<in> set [(''Total.Fatal.Injuries'', NumSummary example_summary)]"
  by (simp_all add: example_describe_frame_def wf_frame_def get_column_def)

subsection \<open>Properties\<close>





text \<open>C36. The mean \<open>describe()\<close> displays at line 58 for a numeric column is the value that
  mean imputation (line 86, \<open>fillna(df[col].mean())\<close>) writes into the column's missing
  cells, and the count it displays is the number of non-missing cells.\<close>

theorem describe_mean_is_fill_value:
  assumes wf: "wf_frame df" and ds: "describe df = Inr s" and m: "(n, NumSummary d) \<in> set s"
    and g: "get_column df n = Inr cs"
  shows "d_count d = length (filter (\<lambda>c. c \<noteq> NaN) cs) \<and>
         (\<exists>df'. impute_mean n df = Inr df' \<and> get_column df' n = Inr (fillna (d_mean d) cs))"
proof -
  have nc: "num_column cs" and d: "d = describe_num cs" using describe_num_cs[OF wf ds m g] by simp_all
  then have t: "list_all num_cell cs" by (simp add: num_column_def)
  obtain df' where i: "impute_mean n df = Inr df'" using impute_mean_ok[OF wf g t] by blast
  have "get_column df' n = Inr (fillna (d_mean d) cs)" using impute_mean_describe[OF g t i] d by simp
  then show ?thesis using i d t by (auto simp: describe_num_def Let_def length_num_present)
qed

theorem describe_mean_is_fill_value_witness:
  "d_count example_summary = 4 \<and>
   (\<exists>df'. impute_mean ''Total.Fatal.Injuries'' example_describe_frame = Inr df' \<and>
      get_column df' ''Total.Fatal.Injuries'' = Inr [Num 2, Num (5 / 2), Num 1, Num 4, Num 3])"
  using describe_mean_is_fill_value [OF example_describe_frame_facts(1) example_described
      example_describe_frame_facts(3) example_describe_frame_facts(2)]
  by (simp add: example_summary_def fillna_def)


text \<open>C40. When no column is numeric, \<open>describe()\<close> summarises every column as an object
  column: its count is the number of non-missing cells, its unique count the number of
  distinct non-missing values, and, when a value is present, its top value is a most
  frequent one with its frequency as freq (both NaN otherwise).\<close>

theorem describe_object_summary:
  assumes wf: "wf_frame df" and ds: "describe df = Inr s" and m: "(n, ObjSummary ob) \<in> set s"
    and g: "get_column df n = Inr cs"
  shows "(\<forall>p \<in> set (cols df). \<not> num_column (snd p)) \<and>
    o_count ob = length (filter (\<lambda>c. c \<noteq> NaN) cs) \<and> o_unique ob = card (set cs - {NaN}) \<and>
    (o_count ob = 0 \<longrightarrow> o_top ob = NaN \<and> o_freq ob = NaN) \<and>
    (0 < o_count ob \<longrightarrow> o_top ob \<in> set cs - {NaN} \<and>
       o_freq ob = Num (real (count_list cs (o_top ob))) \<and>
       (\<forall>c \<in> set cs - {NaN}. count_list cs c \<le> count_list cs (o_top ob)))"
proof -
  have ob: "ob = describe_obj cs" and a: "\<forall>p \<in> set (cols df). \<not> num_column (snd p)"
    using describe_obj_cs[OF wf ds m g] by simp_all
  have s: "set (filter (\<lambda>c. c \<noteq> NaN) cs) = set cs - {NaN}" by auto
  have u: "o_unique ob = card (set cs - {NaN})"
    using value_counts_cells[of cs] s by (simp add: ob describe_obj_def Let_def)
  have z: "o_count ob = 0 \<longrightarrow> o_top ob = NaN \<and> o_freq ob = NaN"
  proof
    assume "o_count ob = 0"
    then have "filter (\<lambda>c. c \<noteq> NaN) cs = []" by (simp add: ob describe_obj_def Let_def)
    then have "set (filter (\<lambda>c. c \<noteq> NaN) cs) = {}" by simp
    then have "value_counts (map cell_opt cs) = []" using value_counts_cells[of cs] by simp
    then show "o_top ob = NaN \<and> o_freq ob = NaN" by (simp add: ob describe_obj_def)
  qed
  have oc: "o_count ob = length (filter (\<lambda>c. c \<noteq> NaN) cs)"
    by (simp add: ob describe_obj_def Let_def)
  have "0 < o_count ob \<longrightarrow> o_top ob \<in> set cs - {NaN} \<and>
       o_freq ob = Num (real (count_list cs (o_top ob))) \<and>
       (\<forall>c \<in> set cs - {NaN}. count_list cs c \<le> count_list cs (o_top ob))"
  proof
    assume "0 < o_count ob"
    then have "filter (\<lambda>c. c \<noteq> NaN) cs \<noteq> []" using oc by auto
    then show "o_top ob \<in> set cs - {NaN} \<and> o_freq ob = Num (real (count_list cs (o_top ob))) \<and>
       (\<forall>c \<in> set cs - {NaN}. count_list cs c \<le> count_list cs (o_top ob))"
      unfolding ob by (rule describe_obj_top_aux)
  qed
  then show ?thesis using a u z oc by blast
qed

theorem describe_object_summary_witness:
  "describe \<lparr>nrows = 4, cols = [(''Make'', [Str ''Cessna'', Str ''Piper'', Str ''Cessna'', NaN])]\<rparr> =
     Inr [(''Make'', ObjSummary \<lparr>o_count = 3, o_unique = 2, o_top = Str ''Cessna'', o_freq = Num 2\<rparr>)] \<and>
   count_list [Str ''Cessna'', Str ''Piper'', Str ''Cessna'', NaN] (Str ''Piper'') \<le> 2"
proof -
  let ?df = "\<lparr>nrows = 4, cols = [(''Make'', [Str ''Cessna'', Str ''Piper'', Str ''Cessna'', NaN])]\<rparr>"
  let ?ob = "\<lparr>o_count = 3, o_unique = 2, o_top = Str ''Cessna'', o_freq = Num 2\<rparr>"
  have ds: "describe ?df = Inr [(''Make'', ObjSummary ?ob)]"
    by (simp add: describe_def num_column_def num_cell_def describe_obj_def value_counts_def
        value_counts_raw_def sort_values_desc_def cell_opt_def)
  have wf: "wf_frame ?df" by (simp add: wf_frame_def)
  have g: "get_column ?df ''Make'' = Inr [Str ''Cessna'', Str ''Piper'', Str ''Cessna'', NaN]"
    by (simp add: get_column_def)
  show ?thesis using describe_object_summary [OF wf ds _ g] ds by simp
qed

end
