(* ===== verification/Derive.thy ===== *)
theory Derive
  imports Frame
begin

text \<open>
  The derived columns, lines 113, 116 and 155 of the script:
  \<^verbatim>\<open>df['Event.Date'] = pd.to_datetime(df['Event.Date'])
df['year'] = df['Event.Date'].dt.year
df['severity'] = pd.cut(df['Total.Fatal.Injuries'], bins=[0, 1, 5, 100],
                        labels=['Low', 'Medium', 'High'])\<close>
  \<open>pd.to_datetime\<close> is modelled on the dates the data set holds, ISO \<open>YYYY-MM-DD\<close>
  strings (the format pandas infers from them): NaN and the empty string give NaT, a
  string that is not a valid ISO date raises (\<open>errors='raise'\<close> is the default, so the
  whole statement fails), and a date outside the range of nanosecond timestamps
  (1677-09-21 00:12:43 to 2262-04-11 23:47:16) raises \<open>OutOfBoundsDatetime\<close>. Numeric
  epochs are not modelled and are rejected. \<open>.dt.year\<close> is the year as a float, NaN for
  NaT. \<open>pd.cut\<close> checks its bins and labels, then maps a value to the label of the bin
  \<open>(b\<^sub>i, b\<^sub>i\<^sub>+\<^sub>1]\<close> that holds it (\<open>right=True\<close>, \<open>include_lowest=False\<close>) and
  anything outside every bin to NaN.
\<close>

subsection \<open>ISO dates\<close>

definition digit_of :: "char \<Rightarrow> nat option" where
  "digit_of c = (let n = of_char c in if 48 \<le> n \<and> n \<le> 57 then Some (n - 48) else None)"

fun digits_val :: "nat \<Rightarrow> string \<Rightarrow> nat option" where
  "digits_val acc [] = Some acc"
| "digits_val acc (c # cs) =
     (case digit_of c of None \<Rightarrow> None | Some d \<Rightarrow> digits_val (10 * acc + d) cs)"

definition is_leap :: "nat \<Rightarrow> bool" where
  "is_leap y \<longleftrightarrow> (y mod 4 = 0 \<and> y mod 100 \<noteq> 0) \<or> y mod 400 = 0"

definition days_in_month :: "nat \<Rightarrow> nat \<Rightarrow> nat" where
  "days_in_month y m =
     (if m = 2 then (if is_leap y then 29 else 28)
      else if m = 4 \<or> m = 6 \<or> m = 9 \<or> m = 11 then 30 else 31)"

definition valid_date :: "date \<Rightarrow> bool" where
  "valid_date d =
     (case d of (y, m, dd) \<Rightarrow> 1 \<le> y \<and> 1 \<le> m \<and> m \<le> 12 \<and> 1 \<le> dd \<and> dd \<le> days_in_month y m)"

definition parse_iso :: "string \<Rightarrow> date option" where
  "parse_iso s =
     (if length s = 10 \<and> s ! 4 = CHR ''-'' \<and> s ! 7 = CHR ''-''
      then (case (digits_val 0 (take 4 s), digits_val 0 (take 2 (drop 5 s)), digits_val 0 (drop 8 s)) of
              (Some y, Some m, Some d) \<Rightarrow> if valid_date (y, m, d) then Some (y, m, d) else None
            | _ \<Rightarrow> None)
      else None)"

text \<open>The day ordering key of a valid date, and the days a nanosecond timestamp can hold.\<close>

definition date_key :: "date \<Rightarrow> nat" where
  "date_key d = (case d of (y, m, dd) \<Rightarrow> y * 10000 + m * 100 + dd)"

definition in_ts_range :: "date \<Rightarrow> bool" where
  "in_ts_range d \<longleftrightarrow> 16770922 \<le> date_key d \<and> date_key d \<le> 22620411"

subsection \<open>pd.to_datetime and .dt.year\<close>

fun to_timestamp :: "cell \<Rightarrow> date option result" where
  "to_timestamp NaN = Inr None"
| "to_timestamp (Stamp d) = Inr (Some d)"
| "to_timestamp (Str s) =
     (if s = [] then Inr None
      else case parse_iso s of
        None \<Rightarrow> Inl (DateParseError s)
      | Some d \<Rightarrow> if in_ts_range d then Inr (Some d) else Inl (OutOfBoundsDatetime s))"
| "to_timestamp (Num x) = Inl (TypeError ''numeric epochs are not modelled'')"
| "to_timestamp (Cat l) = Inl (TypeError ''category is not convertible to datetime'')"

definition stamp_cell :: "date option \<Rightarrow> cell" where
  "stamp_cell o' = (case o' of None \<Rightarrow> NaN | Some d \<Rightarrow> Stamp d)"

definition to_datetime :: "cell list \<Rightarrow> cell list result" where
  "to_datetime cs = map_r (\<lambda>c. bind_r (to_timestamp c) (\<lambda>o'. Inr (stamp_cell o'))) cs"

definition convert_dates :: "frame \<Rightarrow> frame result" where
  "convert_dates df =
     bind_r (get_column df ''Event.Date'')
       (\<lambda>cs. bind_r (to_datetime cs) (\<lambda>ts. set_column ''Event.Date'' ts df))"

fun dt_year :: "cell \<Rightarrow> cell result" where
  "dt_year NaN = Inr NaN"
| "dt_year (Stamp (y, m, d)) = Inr (Num (real y))"
| "dt_year _ = Inl (TypeError ''Can only use .dt accessor with datetimelike values'')"

definition add_year :: "frame \<Rightarrow> frame result" where
  "add_year df =
     bind_r (get_column df ''Event.Date'')
       (\<lambda>cs. bind_r (map_r dt_year cs) (\<lambda>ys. set_column ''year'' ys df))"

subsection \<open>pd.cut\<close>

fun cut_bin :: "real list \<Rightarrow> 'l list \<Rightarrow> real \<Rightarrow> 'l option" where
  "cut_bin (b0 # b1 # bs) (l # ls) x =
     (if b0 < x \<and> x \<le> b1 then Some l else cut_bin (b1 # bs) ls x)"
| "cut_bin _ _ x = None"

definition cut_cell :: "real list \<Rightarrow> sev list \<Rightarrow> real option \<Rightarrow> cell" where
  "cut_cell bins labels o' =
     (case o' of None \<Rightarrow> NaN
      | Some x \<Rightarrow> (case cut_bin bins labels x of None \<Rightarrow> NaN | Some l \<Rightarrow> Cat l))"

definition pd_cut :: "real list \<Rightarrow> sev list \<Rightarrow> cell list \<Rightarrow> cell list result" where
  "pd_cut bins labels cs =
     (if \<not> sorted bins then Inl (ValueError ''bins must increase monotonically.'')
      else if \<not> distinct bins then Inl (ValueError ''Bin edges must be unique'')
      else if length labels \<noteq> length bins - 1
      then Inl (ValueError ''Bin labels must be one fewer than the number of bin edges'')
      else map_r (\<lambda>c. bind_r (as_num c) (\<lambda>o'. Inr (cut_cell bins labels o'))) cs)"

definition severity_bins :: "real list" where
  "severity_bins = [0, 1, 5, 100]"

definition severity_labels :: "sev list" where
  "severity_labels = [Low, Medium, High]"

definition add_severity :: "frame \<Rightarrow> frame result" where
  "add_severity df =
     bind_r (get_column df ''Total.Fatal.Injuries'')
       (\<lambda>cs. bind_r (pd_cut severity_bins severity_labels cs)
         (\<lambda>ss. set_column ''severity'' ss df))"

subsection \<open>Typing of the date column\<close>

text \<open>The cells \<open>pd.to_datetime\<close> converts without raising, and the year \<open>.dt.year\<close>
  reads from a converted cell.\<close>

definition date_cell :: "cell \<Rightarrow> bool" where
  "date_cell c =
     (case c of NaN \<Rightarrow> True | Stamp _ \<Rightarrow> True
      | Str s \<Rightarrow> s = [] \<or> (case parse_iso s of None \<Rightarrow> False | Some d \<Rightarrow> in_ts_range d)
      | _ \<Rightarrow> False)"

definition year_cell :: "cell \<Rightarrow> cell" where
  "year_cell c = (case c of Stamp (y, m, d) \<Rightarrow> Num (real y) | _ \<Rightarrow> NaN)"

subsection \<open>An ISO printer, to state the parser's round trip\<close>

fun show_digits :: "nat \<Rightarrow> nat \<Rightarrow> string" where
  "show_digits 0 v = []"
| "show_digits (Suc n) v = show_digits n (v div 10) @ [char_of (48 + v mod 10)]"

definition show_iso :: "date \<Rightarrow> string" where
  "show_iso d =
     (case d of (y, m, dd) \<Rightarrow> show_digits 4 y @ ''-'' @ show_digits 2 m @ ''-'' @ show_digits 2 dd)"

subsection \<open>Lemmas\<close>

lemma length_show_digits [simp]: "length (show_digits n v) = n"
  by (induction n arbitrary: v) auto

lemma digit_of_char_of: "k < 10 \<Longrightarrow> digit_of (char_of (48 + k)) = Some k"
  by (simp add: digit_of_def Let_def)

lemma digits_val_append:
  "digits_val acc (xs @ ys) = (case digits_val acc xs of None \<Rightarrow> None | Some a \<Rightarrow> digits_val a ys)"
  by (induction xs arbitrary: acc) (auto split: option.splits)

lemma digits_val_show_digits:
  "v < 10 ^ n \<Longrightarrow> digits_val acc (show_digits n v) = Some (acc * 10 ^ n + v)"
proof (induction n arbitrary: v acc)
  case 0
  then show ?case by simp
next
  case (Suc n)
  have "v div 10 < 10 ^ n" using Suc.prems by (simp add: div_less_iff_less_mult mult.commute)
  then have "digits_val acc (show_digits n (v div 10)) = Some (acc * 10 ^ n + v div 10)"
    by (rule Suc.IH)
  moreover have "10 * (acc * 10 ^ n + v div 10) + v mod 10 = acc * 10 ^ Suc n + v"
    by (simp add: algebra_simps)
  ultimately show ?case by (simp add: digits_val_append digit_of_char_of)
qed

lemma days_in_month_le: "days_in_month y m \<le> 31"
  by (simp add: days_in_month_def)

lemma pd_cut_severity:
  "pd_cut severity_bins severity_labels cs =
     bind_r (num_values cs) (\<lambda>xs. Inr (map (cut_cell severity_bins severity_labels) xs))"
  by (simp add: pd_cut_def severity_bins_def severity_labels_def num_values_def map_r_bind_Inr)

lemma parse_iso_Some: "parse_iso s = Some d \<Longrightarrow> valid_date d \<and> length s = 10"
  by (auto simp: parse_iso_def split: if_splits option.splits)

lemma to_timestamp_ok: "\<not> isl (to_timestamp c) \<longleftrightarrow> date_cell c"
  by (cases c) (auto simp: date_cell_def split: option.splits)

lemma to_datetime_eq:
  "to_datetime cs = bind_r (map_r to_timestamp cs) (\<lambda>os. Inr (map stamp_cell os))"
  by (simp add: to_datetime_def map_r_bind_Inr)

lemma to_datetime_ok:
  "list_all date_cell cs \<Longrightarrow>
     \<exists>os. map_r to_timestamp cs = Inr os \<and> to_datetime cs = Inr (map stamp_cell os)"
  using map_r_ok[of to_timestamp cs] by (auto simp: to_datetime_eq to_timestamp_ok)

lemma convert_dates_set:
  assumes wf: "wf_frame df" and g: "get_column df ''Event.Date'' = Inr cs"
    and t: "to_datetime cs = Inr ts"
  shows "\<exists>df'. convert_dates df = Inr df' \<and> get_column df' ''Event.Date'' = Inr ts \<and>
           wf_frame df' \<and> nrows df' = nrows df"
proof -
  have "length ts = nrows df"
    using get_column_length[OF wf g] t by (simp add: to_datetime_def map_r_Inr_length)
  then obtain df' where s: "set_column ''Event.Date'' ts df = Inr df'"
    "get_column df' ''Event.Date'' = Inr ts" "wf_frame df'" "nrows df' = nrows df"
    using set_column_ok[OF wf] by blast
  then show ?thesis using g t by (auto simp: convert_dates_def)
qed

lemma dt_year_stamp_cell: "dt_year (stamp_cell o') = Inr (year_cell (stamp_cell o'))"
  by (cases o') (auto simp: stamp_cell_def year_cell_def)

lemma add_year_after_dates:
  assumes wf: "wf_frame df" and g: "get_column df ''Event.Date'' = Inr (map stamp_cell os)"
  shows "\<exists>df'. add_year df = Inr df' \<and>
           get_column df' ''year'' = Inr (map year_cell (map stamp_cell os)) \<and>
           wf_frame df' \<and> nrows df' = nrows df"
proof -
  let ?ys = "map year_cell (map stamp_cell os)"
  have m: "map_r dt_year (map stamp_cell os) = Inr ?ys"
    by (rule map_r_map) (auto simp: dt_year_stamp_cell)
  have "length ?ys = nrows df" using get_column_length[OF wf g] by simp
  then obtain df' where s: "set_column ''year'' ?ys df = Inr df'"
    "get_column df' ''year'' = Inr ?ys" "wf_frame df'" "nrows df' = nrows df"
    using set_column_ok[OF wf] by blast
  moreover have "add_year df = Inr df'" using g m s(1) by (simp add: add_year_def)
  ultimately show ?thesis by blast
qed

lemma num_cell_year_cell: "num_cell (year_cell c)"
  by (simp add: year_cell_def num_cell_def split: cell.splits prod.splits)

lemma in_ts_range_year:
  assumes "in_ts_range (y, m, dd)" and "m \<le> 12" and "dd \<le> 31"
  shows "1677 \<le> y \<and> y \<le> 2262"
proof -
  have "16770922 \<le> y * 10000 + m * 100 + dd" "y * 10000 + m * 100 + dd \<le> 22620411"
    using assms(1) by (simp_all add: in_ts_range_def date_key_def)
  with assms(2,3) show ?thesis by linarith
qed

lemma to_timestamp_csv_year:
  assumes "csv_cell c" and "to_timestamp c = Inr (Some (y, m, dd))"
  shows "1677 \<le> y \<and> y \<le> 2262"
proof -
  obtain s where s: "c = Str s" "s \<noteq> []" "parse_iso s = Some (y, m, dd)" "in_ts_range (y, m, dd)"
    using assms by (cases c) (auto simp: csv_cell_def split: if_splits option.splits)
  from parse_iso_Some[OF s(3)] have "m \<le> 12" "dd \<le> 31"
    using days_in_month_le[of y m] by (auto simp: valid_date_def)
  with s(4) show ?thesis by (rule in_ts_range_year)
qed

lemma year_cell_Num:
  "year_cell (stamp_cell o') = Num x \<Longrightarrow> \<exists>y m dd. o' = Some (y, m, dd) \<and> x = real y"
  by (cases o') (auto simp: stamp_cell_def year_cell_def)

lemma add_severity_Inr:
  assumes wf: "wf_frame df" and g: "get_column df ''Total.Fatal.Injuries'' = Inr cs"
    and nv: "num_values cs = Inr xs"
  shows "\<exists>df'. add_severity df = Inr df' \<and>
           get_column df' ''severity'' = Inr (map (cut_cell severity_bins severity_labels) xs) \<and>
           get_column df' ''Total.Fatal.Injuries'' = Inr cs \<and>
           wf_frame df' \<and> nrows df' = nrows df"
proof -
  let ?ss = "map (cut_cell severity_bins severity_labels) xs"
  have "length ?ss = nrows df"
    using get_column_length[OF wf g] num_values_length[OF nv] by simp
  then obtain df' where s: "set_column ''severity'' ?ss df = Inr df'"
    "get_column df' ''severity'' = Inr ?ss" "wf_frame df'" "nrows df' = nrows df"
    using set_column_ok[OF wf] by blast
  have "add_severity df = Inr df'"
    using g nv s(1) by (simp add: add_severity_def pd_cut_severity)
  moreover have "get_column df' ''Total.Fatal.Injuries'' = Inr cs"
    using get_set_column[OF s(1), of "''Total.Fatal.Injuries''"] g by simp
  ultimately show ?thesis using s by blast
qed

subsection \<open>Properties\<close>

text \<open>C11. The severity bucket of line 155 is the table of \<open>pd.cut\<close> with bins
  \<open>[0, 1, 5, 100]\<close>: \<open>(0, 1]\<close> is Low, \<open>(1, 5]\<close> Medium, \<open>(5, 100]\<close> High, and every
  other value (0 fatalities included, and more than 100) has no bucket.\<close>

theorem cut_severity_table:
  "cut_bin severity_bins severity_labels x =
     (if 0 < x \<and> x \<le> 1 then Some Low
      else if 1 < x \<and> x \<le> 5 then Some Medium
      else if 5 < x \<and> x \<le> 100 then Some High
      else None)"
  by (simp add: severity_bins_def severity_labels_def)

text \<open>C12. Line 155 on a rectangular frame whose \<open>Total.Fatal.Injuries\<close> column is
  numeric: the statement succeeds and adds the column \<open>severity\<close>, each cell the bucket
  of the same row's value (NaN when the value is NaN or outside the bins), keeping the
  fatalities column, the invariant and the row count.\<close>

theorem add_severity_column:
  assumes wf: "wf_frame df" and g: "get_column df ''Total.Fatal.Injuries'' = Inr cs"
    and nv: "num_values cs = Inr xs"
  shows "\<exists>df'. add_severity df = Inr df' \<and>
           get_column df' ''severity'' = Inr (map (cut_cell severity_bins severity_labels) xs) \<and>
           get_column df' ''Total.Fatal.Injuries'' = Inr cs \<and>
           wf_frame df' \<and> nrows df' = nrows df"
  using wf g nv by (rule add_severity_Inr)

theorem add_severity_column_witness:
  "\<exists>df'. add_severity
     \<lparr>nrows = 4, cols = [(''Total.Fatal.Injuries'', [Num 0, Num 3, Num 150, Num 1])]\<rparr> = Inr df' \<and>
   get_column df' ''severity'' = Inr [NaN, Cat Medium, NaN, Cat Low]"
proof -
  let ?cs = "[Num 0, Num 3, Num 150, Num 1]"
  let ?df = "\<lparr>nrows = 4, cols = [(''Total.Fatal.Injuries'', ?cs)]\<rparr>"
  have h1: "wf_frame ?df" by (simp add: wf_frame_def)
  have h2: "get_column ?df ''Total.Fatal.Injuries'' = Inr ?cs" by (simp add: get_column_def)
  have h3: "num_values ?cs = Inr [Some 0, Some 3, Some 150, Some 1]" by (simp add: num_values_def)
  have ev: "map (cut_cell severity_bins severity_labels) [Some 0, Some 3, Some 150, Some 1] =
            [NaN, Cat Medium, NaN, Cat Low]"
    by (simp add: cut_cell_def severity_bins_def severity_labels_def)
  show ?thesis using add_severity_column [OF h1 h2 h3] ev by auto
qed



text \<open>C14. Round trip of the date parser: every valid date with a four-digit year,
  printed as \<open>YYYY-MM-DD\<close>, parses back to itself.\<close>

theorem parse_iso_roundtrip:
  assumes "valid_date d" and "fst d < 10000"
  shows "parse_iso (show_iso d) = Some d"
proof -
  obtain y m dd where d: "d = (y, m, dd)" by (cases d) auto
  have m: "m < 10 ^ 2" and dd: "dd < 10 ^ 2" and y: "y < 10 ^ 4"
    using assms days_in_month_le[of y m] by (auto simp: d valid_date_def)
  let ?s = "show_digits 4 y @ ''-'' @ show_digits 2 m @ ''-'' @ show_digits 2 dd"
  have "take 4 ?s = show_digits 4 y" and "drop 5 ?s = show_digits 2 m @ ''-'' @ show_digits 2 dd"
    and "drop 8 ?s = show_digits 2 dd" and "?s ! 4 = CHR ''-''" and "?s ! 7 = CHR ''-''"
    and "length ?s = 10"
    by (simp_all add: nth_append)
  then show ?thesis
    using assms digits_val_show_digits[OF y, of 0] digits_val_show_digits[OF m, of 0]
      digits_val_show_digits[OF dd, of 0]
    by (simp add: parse_iso_def show_iso_def d)
qed

theorem parse_iso_roundtrip_witness:
  "parse_iso (show_iso (1948, 10, 24)) = Some (1948, 10, 24)"
  by (rule parse_iso_roundtrip) (simp_all add: valid_date_def days_in_month_def)

text \<open>C21. Bounds of \<open>pd.to_datetime\<close> (line 113): a well-formed ISO date converts to a
  timestamp exactly when it lies between 1677-09-22 and 2262-04-11, the whole days of
  pandas' nanosecond range; any other date raises \<open>OutOfBoundsDatetime\<close>.\<close>

theorem to_timestamp_bounds:
  assumes "parse_iso s = Some (y, m, dd)"
  shows "to_timestamp (Str s) =
           (if (1677 < y \<or> y = 1677 \<and> (9 < m \<or> m = 9 \<and> 22 \<le> dd)) \<and>
               (y < 2262 \<or> y = 2262 \<and> (m < 4 \<or> m = 4 \<and> dd \<le> 11))
            then Inr (Some (y, m, dd)) else Inl (OutOfBoundsDatetime s))"
proof -
  from parse_iso_Some[OF assms] have v: "valid_date (y, m, dd)" and l: "s \<noteq> []" by auto
  then have "m \<le> 12" "dd \<le> 31" "1 \<le> m" "1 \<le> dd"
    using days_in_month_le[of y m] by (auto simp: valid_date_def)
  then have "in_ts_range (y, m, dd) \<longleftrightarrow>
               (1677 < y \<or> y = 1677 \<and> (9 < m \<or> m = 9 \<and> 22 \<le> dd)) \<and>
               (y < 2262 \<or> y = 2262 \<and> (m < 4 \<or> m = 4 \<and> dd \<le> 11))"
    by (auto simp: in_ts_range_def date_key_def)
  with assms l show ?thesis by simp
qed

theorem to_timestamp_bounds_witness:
  "to_timestamp (Str ''1677-09-21'') = Inl (OutOfBoundsDatetime ''1677-09-21'') \<and>
   to_timestamp (Str ''2262-04-11'') = Inr (Some (2262, 4, 11))"
proof -
  have p1: "parse_iso ''1677-09-21'' = Some (1677, 9, 21)"
    by (simp add: parse_iso_def digit_of_def valid_date_def days_in_month_def)
  have p2: "parse_iso ''2262-04-11'' = Some (2262, 4, 11)"
    by (simp add: parse_iso_def digit_of_def valid_date_def days_in_month_def)
  show ?thesis using to_timestamp_bounds [OF p1] to_timestamp_bounds [OF p2] by simp
qed

end
