(* ===== verification/Aggregate.thy ===== *)
theory Aggregate
  imports Describe Derive
begin

text \<open>
  The six aggregations of the script, each read from the global \<open>df\<close> without changing
  it: \<open>severity_counts_of\<close> (line 102), \<open>per_year\<close> (line 117), \<open>top_makes\<close>
  (line 136), \<open>severity_by_type\<close> (line 158) and \<open>top_values\<close> (lines 175 and 190).
  Each reads its column through a typed view (\<open>num_values\<close>, \<open>str_values\<close>,
  \<open>as_cat\<close>) and raises as pandas does when the column is absent or of the wrong type.
  The lemmas say when each succeeds and which columns it reads; the properties state what
  each table holds in terms of the column's cells, by the reference descriptions of
  theory \<open>Counting\<close>.
\<close>

fun as_cat :: "cell \<Rightarrow> sev option result" where
  "as_cat NaN = Inr None"
| "as_cat (Cat l) = Inr (Some l)"
| "as_cat _ = Inl (TypeError ''not a severity category'')"

definition severity_counts_of :: "frame \<Rightarrow> (cell option \<times> nat) list result" where
  "severity_counts_of df =
     bind_r (get_column df ''Injury.Severity'') (\<lambda>cs. Inr (value_counts_keepna (map cell_opt cs)))"

definition per_year :: "frame \<Rightarrow> (real \<times> nat) list result" where
  "per_year df =
     bind_r (get_column df ''year'') (\<lambda>cs. bind_r (num_values cs) (\<lambda>ys. Inr (groupby_size ys)))"

definition top_makes :: "frame \<Rightarrow> (string \<times> nat) list result" where
  "top_makes df =
     bind_r (get_column df ''Make'')
       (\<lambda>cs. bind_r (str_values cs) (\<lambda>ks. Inr (head 10 (sort_values_desc (groupby_size ks)))))"

definition severity_by_type :: "frame \<Rightarrow> (string \<times> (sev \<times> nat) list) list result" where
  "severity_by_type df =
     bind_r (get_column df ''Aircraft.Category'') (\<lambda>as.
     bind_r (get_column df ''severity'') (\<lambda>ss.
     bind_r (str_values as) (\<lambda>ks.
     bind_r (map_r as_cat ss) (\<lambda>vs. Inr (crosstab ks vs severity_labels)))))"

definition top_values :: "string \<Rightarrow> frame \<Rightarrow> (cell \<times> nat) list result" where
  "top_values col df =
     bind_r (get_column df col) (\<lambda>cs. Inr (head 10 (value_counts (map cell_opt cs))))"

subsection \<open>Lemmas\<close>

lemma as_cat_cut_cell: "\<not> isl (as_cat (cut_cell bins labels o'))"
  by (simp add: cut_cell_def split: option.splits)

lemma severity_counts_of_ok:
  "col_all df ''Injury.Severity'' (\<lambda>c. True) \<Longrightarrow> \<exists>r. severity_counts_of df = Inr r"
  by (auto simp: severity_counts_of_def col_all_iff)

lemma per_year_ok:
  "get_column df ''year'' = Inr (map year_cell cs) \<Longrightarrow> \<exists>r. per_year df = Inr r"
  using num_values_ok[of "map year_cell cs"]
  by (auto simp: per_year_def list_all_iff num_cell_year_cell)

lemma top_makes_ok: "col_all df ''Make'' str_cell \<Longrightarrow> \<exists>r. top_makes df = Inr r"
proof -
  assume "col_all df ''Make'' str_cell"
  then obtain cs where "get_column df ''Make'' = Inr cs" "list_all str_cell cs"
    by (auto simp: col_all_iff)
  moreover obtain ks where "str_values cs = Inr ks" using calculation(2) str_values_ok by blast
  ultimately show ?thesis by (simp add: top_makes_def)
qed

lemma severity_by_type_ok:
  assumes "col_all df ''Aircraft.Category'' str_cell"
    and "get_column df ''severity'' = Inr (map (cut_cell bins labels) xs)"
  shows "\<exists>r. severity_by_type df = Inr r"
proof -
  obtain as where a: "get_column df ''Aircraft.Category'' = Inr as" "list_all str_cell as"
    using assms(1) by (auto simp: col_all_iff)
  obtain ks where "str_values as = Inr ks" using a(2) str_values_ok by blast
  moreover obtain vs where "map_r as_cat (map (cut_cell bins labels) xs) = Inr vs"
    using map_r_ok[of as_cat] as_cat_cut_cell by (fastforce simp: list_all_iff)
  ultimately show ?thesis using a(1) assms(2) by (simp add: severity_by_type_def)
qed

lemma top_values_ok: "col_all df n (\<lambda>c. True) \<Longrightarrow> \<exists>r. top_values n df = Inr r"
  by (auto simp: top_values_def col_all_iff)

lemma top_makes_Inr_ready: "top_makes df = Inr r \<Longrightarrow> col_all df ''Make'' str_cell"
  using str_values_ok by (fastforce simp: top_makes_def bind_r_eq_Inr col_all_def)

lemma severity_by_type_Inr_ready:
  "severity_by_type df = Inr r \<Longrightarrow> col_all df ''Aircraft.Category'' str_cell"
  using str_values_ok by (fastforce simp: severity_by_type_def bind_r_eq_Inr col_all_def)

lemma severity_counts_of_Inr_ready:
  "severity_counts_of df = Inr r \<Longrightarrow> col_all df ''Injury.Severity'' (\<lambda>c. True)"
  by (auto simp: severity_counts_of_def bind_r_eq_Inr col_all_def list_all_iff)

lemma top_values_Inr_ready: "top_values n df = Inr r \<Longrightarrow> col_all df n (\<lambda>c. True)"
  by (auto simp: top_values_def bind_r_eq_Inr col_all_def list_all_iff)

lemma severity_by_type_rect:
  "severity_by_type df = Inr t \<Longrightarrow> \<forall>row \<in> set t. map fst (snd row) = [Low, Medium, High]"
  by (auto simp: severity_by_type_def bind_r_eq_Inr crosstab_def severity_labels_def)

lemma severity_counts_of_cong:
  "get_column df' ''Injury.Severity'' = get_column df ''Injury.Severity'' \<Longrightarrow>
     severity_counts_of df' = severity_counts_of df"
  by (simp add: severity_counts_of_def)

lemma per_year_cong: "get_column df' ''year'' = get_column df ''year'' \<Longrightarrow> per_year df' = per_year df"
  by (simp add: per_year_def)

lemma top_makes_cong: "get_column df' ''Make'' = get_column df ''Make'' \<Longrightarrow> top_makes df' = top_makes df"
  by (simp add: top_makes_def)

lemma filter_zip_str_cat:
  assumes "list_all2 (\<lambda>c k. as_str c = Inr k) as ks" and "list_all2 (\<lambda>c v. as_cat c = Inr v) ss vs"
  shows "length (filter (\<lambda>p. fst p = Some a \<and> snd p \<in> Some ` set severity_labels) (zip ks vs)) =
         length (filter (\<lambda>p. fst p = Str a \<and> snd p \<noteq> NaN) (zip as ss))"
  using assms
proof (induction as ks arbitrary: ss vs rule: list_all2_induct)
  case Nil
  then show ?case by simp
next
  case (Cons c cs k ks)
  show ?case
  proof (cases ss)
    case Nil
    with Cons.prems show ?thesis by simp
  next
    case (Cons s ss')
    with Cons.prems obtain v vs' where vs: "vs = v # vs'" and v: "as_cat s = Inr v"
      and r: "list_all2 (\<lambda>c v. as_cat c = Inr v) ss' vs'"
      by (cases vs) auto
    have "k = Some a \<longleftrightarrow> c = Str a" using \<open>as_str c = Inr k\<close> by (cases c) auto
    moreover have "v \<in> Some ` set severity_labels \<longleftrightarrow> s \<noteq> NaN"
    proof -
      have "set severity_labels = UNIV" by (auto simp: severity_labels_def intro: sev.exhaust)
      then show ?thesis using v by (cases s) auto
    qed
    ultimately show ?thesis using Cons.IH[OF r] vs Cons by simp
  qed
qed

lemma crosstab_row_sum:
  "distinct cats \<Longrightarrow> row \<in> set (crosstab rs cs cats) \<Longrightarrow>
     sum_list (map snd (snd row)) =
       length (filter (\<lambda>p. fst p = Some (fst row) \<and> snd p \<in> Some ` set cats) (zip rs cs))"
  by (auto simp: crosstab_def comp_def sum_list_count_cats)

lemma num_values_map:
  "num_values cs = Inr ys \<Longrightarrow> ys = map (\<lambda>c. case c of Num x \<Rightarrow> Some x | _ \<Rightarrow> None) cs"
proof (induction cs arbitrary: ys)
  case (Cons c cs)
  then obtain y ys' where "as_num c = Inr y" "num_values cs = Inr ys'" "ys = y # ys'"
    by (auto simp: num_values_def bind_r_eq_Inr)
  with Cons.IH show ?case by (cases c) auto
qed (simp add: num_values_def)

lemma str_values_map:
  "str_values cs = Inr ks \<Longrightarrow> ks = map (\<lambda>c. case c of Str s \<Rightarrow> Some s | _ \<Rightarrow> None) cs"
proof (induction cs arbitrary: ks)
  case (Cons c cs)
  then obtain k ks' where "as_str c = Inr k" "str_values cs = Inr ks'" "ks = k # ks'"
    by (auto simp: str_values_def bind_r_eq_Inr)
  with Cons.IH show ?case by (cases c) auto
qed (simp add: str_values_def)

lemma count_list_num_opt:
  "count_list (map (\<lambda>c. case c of Num x \<Rightarrow> Some x | _ \<Rightarrow> None) cs) (Some y) = count_list cs (Num y)"
  by (induction cs) (auto split: cell.splits)


lemma set_num_opt:
  "{y. Some y \<in> set (map (\<lambda>c. case c of Num x \<Rightarrow> Some x | _ \<Rightarrow> None) cs)} = {y. Num y \<in> set cs}"
  by (auto split: cell.splits)

lemma set_str_opt:
  "{k. Some k \<in> set (map (\<lambda>c. case c of Str s \<Rightarrow> Some s | _ \<Rightarrow> None) cs)} = {k. Str k \<in> set cs}"
  by (auto split: cell.splits)

lemma num_values_present_length:
  "num_values cs = Inr ys \<Longrightarrow> length (filter (\<lambda>y. y \<noteq> None) ys) = length (filter (\<lambda>c. c \<noteq> NaN) cs)"
proof (induction cs arbitrary: ys)
  case (Cons c cs)
  then obtain y ys' where "as_num c = Inr y" "num_values cs = Inr ys'" "ys = y # ys'"
    by (auto simp: num_values_def bind_r_eq_Inr)
  with Cons.IH show ?case by (cases c) auto
qed (simp add: num_values_def)

lemma per_year_Inr:
  assumes "per_year df = Inr py" and "get_column df ''year'' = Inr cs"
  obtains ys where "num_values cs = Inr ys" "py = groupby_size ys"
  using assms by (auto simp: per_year_def bind_r_eq_Inr)

lemma as_cat_map:
  "map_r as_cat ss = Inr vs \<Longrightarrow> vs = map (\<lambda>c. case c of Cat l \<Rightarrow> Some l | _ \<Rightarrow> None) ss"
proof (induction ss arbitrary: vs)
  case (Cons c ss)
  then obtain v vs' where "as_cat c = Inr v" "map_r as_cat ss = Inr vs'" "vs = v # vs'"
    by (auto simp: bind_r_eq_Inr)
  with Cons.IH show ?case by (cases c) auto
qed simp

lemma count_list_pair_opt:
  "count_list (zip (map (\<lambda>c. case c of Str s \<Rightarrow> Some s | _ \<Rightarrow> None) as)
                    (map (\<lambda>c. case c of Cat l \<Rightarrow> Some l | _ \<Rightarrow> None) ss)) (Some r, Some l) =
   count_list (zip as ss) (Str r, Cat l)"
  by (induction as ss rule: list_induct2') (auto split: cell.splits)


subsection \<open>Properties\<close>

text \<open>C5. Refinement: read as a multiset, the table \<open>severity_counts\<close> of line 102
  (\<open>value_counts(dropna=False)\<close>) is exactly the multiset of the column's
  values, NaN as a key of its own: no record is lost or counted twice, whatever the
  order.\<close>

theorem severity_counts_refines:
  assumes "severity_counts_of df = Inr sc" and "get_column df ''Injury.Severity'' = Inr cs"
  shows "counts_mset sc = mset (map cell_opt cs)"
  using assms value_counts_refines[of "map cell_opt cs"] by (simp add: severity_counts_of_def)

theorem severity_counts_refines_witness:
  "severity_counts_of \<lparr>nrows = 3, cols = [(''Injury.Severity'', [Str ''Fatal(2)'', NaN, Str ''Fatal(2)''])]\<rparr> =
     Inr [(Some (Str ''Fatal(2)''), 2), (None, 1)] \<and>
   counts_mset [(Some (Str ''Fatal(2)''), 2), (None, 1)] = mset [Some (Str ''Fatal(2)''), None, Some (Str ''Fatal(2)'')]"
proof -
  let ?df = "\<lparr>nrows = 3, cols = [(''Injury.Severity'', [Str ''Fatal(2)'', NaN, Str ''Fatal(2)''])]\<rparr>"
  have e: "severity_counts_of ?df = Inr [(Some (Str ''Fatal(2)''), 2), (None, 1)]"
    by (simp add: severity_counts_of_def get_column_def value_counts_keepna_def value_counts_raw_def
        sort_values_desc_def cell_opt_def)
  have g: "get_column ?df ''Injury.Severity'' = Inr [Str ''Fatal(2)'', NaN, Str ''Fatal(2)'']"
    by (simp add: get_column_def)
  show ?thesis using severity_counts_refines [OF e g] e by (simp add: cell_opt_def)
qed

text \<open>C6. The table \<open>accidents_per_year\<close> of line 117
  (\<open>groupby('year').size()\<close>) has the distinct years of the column as keys
  in strictly ascending order, each paired with its number of occurrences, which is
  positive; NaN years are not keys.\<close>

theorem per_year_keys_counts:
  assumes "per_year df = Inr py" and "get_column df ''year'' = Inr cs"
  shows "sorted_wrt (<) (map fst py) \<and> set (map fst py) = {y. Num y \<in> set cs} \<and>
         (\<forall>p \<in> set py. snd p = count_list cs (Num (fst p)) \<and> 0 < snd p)"
proof -
  obtain ys where nv: "num_values cs = Inr ys" and py: "py = groupby_size ys"
    using assms by (rule per_year_Inr)
  have ys: "ys = map (\<lambda>c. case c of Num x \<Rightarrow> Some x | _ \<Rightarrow> None) cs" using nv by (rule num_values_map)
  show ?thesis
    using groupby_size_keys_counts[of ys] unfolding py ys set_num_opt count_list_num_opt .
qed

theorem per_year_keys_counts_witness:
  "per_year \<lparr>nrows = 4, cols = [(''year'', [Num 1983, NaN, Num 1982, Num 1983])]\<rparr> = Inr [(1982, 1), (1983, 2)] \<and>
   sorted_wrt (<) (map fst [(1982::real, 1::nat), (1983, 2)])"
proof -
  let ?df = "\<lparr>nrows = 4, cols = [(''year'', [Num 1983, NaN, Num 1982, Num 1983])]\<rparr>"
  have e: "per_year ?df = Inr [(1982, 1), (1983, 2)]"
    by (simp add: per_year_def get_column_def num_values_def groupby_size_def)
  have g: "get_column ?df ''year'' = Inr [Num 1983, NaN, Num 1982, Num 1983]" by (simp add: get_column_def)
  show ?thesis using per_year_keys_counts [OF e g] e by simp
qed

text \<open>C7. The counts of \<open>accidents_per_year\<close> (line 117) sum to the number of
  records whose year is present: records with a NaN year are dropped, no other record
  is.\<close>

theorem per_year_total:
  assumes "per_year df = Inr py" and "get_column df ''year'' = Inr cs"
  shows "sum_list (map snd py) = length (filter (\<lambda>c. c \<noteq> NaN) cs)"
proof -
  obtain ys where nv: "num_values cs = Inr ys" and py: "py = groupby_size ys"
    using assms by (rule per_year_Inr)
  show ?thesis using groupby_size_total[of ys] num_values_present_length[OF nv] py by simp
qed

theorem per_year_total_witness:
  "per_year \<lparr>nrows = 4, cols = [(''year'', [Num 1983, NaN, Num 1982, Num 1983])]\<rparr> = Inr [(1982, 1), (1983, 2)] \<and>
   sum_list (map snd [(1982::real, 1::nat), (1983, 2)]) = 3"
proof -
  let ?df = "\<lparr>nrows = 4, cols = [(''year'', [Num 1983, NaN, Num 1982, Num 1983])]\<rparr>"
  have e: "per_year ?df = Inr [(1982, 1), (1983, 2)]"
    by (simp add: per_year_def get_column_def num_values_def groupby_size_def)
  have g: "get_column ?df ''year'' = Inr [Num 1983, NaN, Num 1982, Num 1983]" by (simp add: get_column_def)
  show ?thesis using per_year_total [OF e g] e by simp
qed



text \<open>C9. The table \<open>severity_by_aircraft\<close> of line 158 is the full cross-
  tabulation: one row per distinct aircraft category in ascending order, every row with
  exactly the columns Low, Medium, High, and each entry the number of records with that
  category and that severity (0 for an unobserved pair).\<close>

theorem severity_by_type_counts:
  assumes "severity_by_type df = Inr sa" and "get_column df ''Aircraft.Category'' = Inr as"
    and "get_column df ''severity'' = Inr ss"
  shows "map fst sa = sorted_list_of_set {k. Str k \<in> set as} \<and>
         (\<forall>row \<in> set sa. map fst (snd row) = [Low, Medium, High] \<and>
            (\<forall>e \<in> set (snd row). snd e = count_list (zip as ss) (Str (fst row), Cat (fst e))))"
proof -
  obtain ks vs where sv: "str_values as = Inr ks" and cv: "map_r as_cat ss = Inr vs"
    and sa: "sa = crosstab ks vs severity_labels"
    using assms by (auto simp: severity_by_type_def bind_r_eq_Inr)
  have ks: "ks = map (\<lambda>c. case c of Str s \<Rightarrow> Some s | _ \<Rightarrow> None) as" using sv by (rule str_values_map)
  have vs: "vs = map (\<lambda>c. case c of Cat l \<Rightarrow> Some l | _ \<Rightarrow> None) ss" using cv by (rule as_cat_map)
  have d: "distinct severity_labels" by (simp add: severity_labels_def)
  show ?thesis
    using crosstab_rectangular[OF d, of ks vs] unfolding sa ks vs set_str_opt count_list_pair_opt
    by (simp add: severity_labels_def)
qed

theorem severity_by_type_counts_witness:
  "severity_by_type \<lparr>nrows = 4, cols = [(''Aircraft.Category'', [Str ''Airplane'', Str ''Helicopter'', NaN, Str ''Airplane'']),
                                     (''severity'', [Cat Low, NaN, Cat High, Cat Low])]\<rparr> =
     Inr [(''Airplane'', [(Low, 2), (Medium, 0), (High, 0)]), (''Helicopter'', [(Low, 0), (Medium, 0), (High, 0)])] \<and>
   map fst [(''Airplane'', [(Low, 2::nat), (Medium, 0), (High, 0)]), (''Helicopter'', [(Low, 0), (Medium, 0), (High, 0)])] =
     [''Airplane'', ''Helicopter'']"
proof -
  let ?df = "\<lparr>nrows = 4, cols = [(''Aircraft.Category'', [Str ''Airplane'', Str ''Helicopter'', NaN, Str ''Airplane'']),
                                     (''severity'', [Cat Low, NaN, Cat High, Cat Low])]\<rparr>"
  have e: "severity_by_type ?df =
     Inr [(''Airplane'', [(Low, 2), (Medium, 0), (High, 0)]), (''Helicopter'', [(Low, 0), (Medium, 0), (High, 0)])]"
    by (simp add: severity_by_type_def get_column_def str_values_def crosstab_def groupby_size_def severity_labels_def)
  have g1: "get_column ?df ''Aircraft.Category'' = Inr [Str ''Airplane'', Str ''Helicopter'', NaN, Str ''Airplane'']"
    by (simp add: get_column_def)
  have g2: "get_column ?df ''severity'' = Inr [Cat Low, NaN, Cat High, Cat Low]" by (simp add: get_column_def)
  show ?thesis using severity_by_type_counts [OF e g1 g2] e by simp
qed



text \<open>C20. The counts of \<open>severity_counts\<close> (line 102, NaN kept as a key) sum to
  the number of rows of the frame: every record is counted exactly once.\<close>

theorem severity_counts_total:
  assumes "wf_frame df" and "severity_counts_of df = Inr sc"
  shows "sum_list (map snd sc) = nrows df"
proof -
  obtain cs where g: "get_column df ''Injury.Severity'' = Inr cs" and s: "sc = value_counts_keepna (map cell_opt cs)"
    using assms(2) by (auto simp: severity_counts_of_def bind_r_eq_Inr)
  then show ?thesis
    using value_counts_total[of "map cell_opt cs"] get_column_length[OF assms(1) g] by simp
qed

theorem severity_counts_total_witness:
  "severity_counts_of \<lparr>nrows = 3, cols = [(''Injury.Severity'', [Str ''Fatal(2)'', NaN, Str ''Fatal(2)''])]\<rparr> =
     Inr [(Some (Str ''Fatal(2)''), 2), (None, 1)] \<and>
   sum_list (map snd [(Some (Str ''Fatal(2)''), 2), (None::cell option, 1::nat)]) = 3"
proof -
  let ?df = "\<lparr>nrows = 3, cols = [(''Injury.Severity'', [Str ''Fatal(2)'', NaN, Str ''Fatal(2)''])]\<rparr>"
  have e: "severity_counts_of ?df = Inr [(Some (Str ''Fatal(2)''), 2), (None, 1)]"
    by (simp add: severity_counts_of_def get_column_def value_counts_keepna_def value_counts_raw_def
        sort_values_desc_def cell_opt_def)
  have wf: "wf_frame ?df" by (simp add: wf_frame_def)
  show ?thesis using severity_counts_total [OF wf e] e by simp
qed

end
