(* ===== verification/Csv.thy ===== *)
theory Csv
  imports Frame
begin

text \<open>
  The text of \<open>AviationData.csv\<close> as \<open>pd.read_csv\<close> reads it at line 45, before the
  records reach \<open>Frame.read_csv\<close>: pandas' C tokenizer (\<open>tokenizer.c\<close>) is a state
  machine run once per character, with the states of \<open>tok_state\<close>, delimiter \<open>,\<close>,
  quote character \<open>"\<close> (doubled inside a quoted field), line terminator newline and
  \<open>skip_blank_lines=True\<close>; at the end of the input an open quoted field raises
  \<open>ParserError\<close>. The first record is the header; a file with no record raises
  \<open>EmptyDataError\<close>. The dtype of every other column is inferred: a column whose
  fields are all missing (pandas' default NA strings) or decimal numbers is a float
  column, any other column holds strings. The encoding ISO-8859-1 maps every byte to one
  character, so the text is its own character list. Not modelled: carriage returns, lines
  of blank characters (pandas backtracks over them), exponents in numbers, boolean and
  integer dtypes (their values are read as floats or strings), the renaming of duplicate
  header names and the implicit index column of a header one field short.
  These definitions model pandas, not lines of the script.
\<close>

datatype tok_state = StartRecord | StartField | InField | InQuotedField | QuoteInQuotedField

record tokenizer =
  tstate :: tok_state
  tok_field :: string
  tok_words :: "string list"
  tok_lines :: "string list list"

definition tok_init :: tokenizer where
  "tok_init = \<lparr>tstate = StartRecord, tok_field = [], tok_words = [], tok_lines = []\<rparr>"

definition end_field :: "tokenizer \<Rightarrow> tokenizer" where
  "end_field t = t\<lparr>tok_field := [], tok_words := tok_words t @ [tok_field t]\<rparr>"

definition end_line :: "tokenizer \<Rightarrow> tokenizer" where
  "end_line t =
     \<lparr>tstate = StartRecord, tok_field = [], tok_words = [],
      tok_lines = tok_lines t @ [tok_words t @ [tok_field t]]\<rparr>"

definition push_char :: "char \<Rightarrow> tok_state \<Rightarrow> tokenizer \<Rightarrow> tokenizer" where
  "push_char c s t = t\<lparr>tstate := s, tok_field := tok_field t @ [c]\<rparr>"

definition start_field :: "char \<Rightarrow> tokenizer \<Rightarrow> tokenizer" where
  "start_field c t =
     (if c = CHR 0x0A then end_line t
      else if c = CHR 0x22 then t\<lparr>tstate := InQuotedField\<rparr>
      else if c = CHR 0x2C then (end_field t)\<lparr>tstate := StartField\<rparr>
      else push_char c InField t)"

definition tok_step :: "tokenizer \<Rightarrow> char \<Rightarrow> tokenizer" where
  "tok_step t c =
     (case tstate t of
        StartRecord \<Rightarrow> if c = CHR 0x0A then t else start_field c t
      | StartField \<Rightarrow> start_field c t
      | InField \<Rightarrow>
          if c = CHR 0x0A then end_line t
          else if c = CHR 0x2C then (end_field t)\<lparr>tstate := StartField\<rparr>
          else push_char c InField t
      | InQuotedField \<Rightarrow>
          if c = CHR 0x22 then t\<lparr>tstate := QuoteInQuotedField\<rparr> else push_char c InQuotedField t
      | QuoteInQuotedField \<Rightarrow>
          if c = CHR 0x22 then push_char c InQuotedField t
          else if c = CHR 0x2C then (end_field t)\<lparr>tstate := StartField\<rparr>
          else if c = CHR 0x0A then end_line t
          else push_char c InField t)"

definition tok_eof :: "tokenizer \<Rightarrow> string list list result" where
  "tok_eof t =
     (case tstate t of
        StartRecord \<Rightarrow> Inr (tok_lines t)
      | InQuotedField \<Rightarrow> Inl (ParserError ''EOF inside string'')
      | _ \<Rightarrow> Inr (tok_lines (end_line t)))"

partial_function (option) tokenize :: "tokenizer \<Rightarrow> string \<Rightarrow> string list list result option" where
  "tokenize t cs = (case cs of [] \<Rightarrow> Some (tok_eof t) | c # cs' \<Rightarrow> tokenize (tok_step t c) cs')"

declare tokenize.simps [code]

subsection \<open>Type inference\<close>

definition na_values :: "string list" where
  "na_values =
     ['''', ''#N/A'', ''#N/A N/A'', ''#NA'', ''-1.#IND'', ''-1.#QNAN'', ''-NaN'', ''-nan'',
      ''1.#IND'', ''1.#QNAN'', ''<NA>'', ''N/A'', ''NA'', ''NULL'', ''NaN'', ''None'',
      ''n/a'', ''nan'', ''null'']"

definition is_digit :: "char \<Rightarrow> bool" where
  "is_digit c \<longleftrightarrow> CHR ''0'' \<le> c \<and> c \<le> CHR ''9''"

definition digits_nat :: "string \<Rightarrow> nat" where
  "digits_nat ds = foldl (\<lambda>n c. 10 * n + (of_char c - 48)) 0 ds"

definition parse_float :: "string \<Rightarrow> real option" where
  "parse_float s =
     (let (sg, r) = (case s of
                       c # r \<Rightarrow> if c = CHR ''-'' then (-1, r) else if c = CHR ''+'' then (1, r) else (1, s)
                     | [] \<Rightarrow> (1, []));
          ip = takeWhile (\<lambda>c. c \<noteq> CHR ''.'') r;
          fp = drop (Suc (length ip)) r
      in if (ip = [] \<and> fp = []) \<or> \<not> list_all is_digit ip \<or> \<not> list_all is_digit fp then None
         else Some (sg * (real (digits_nat ip) + real (digits_nat fp) / 10 ^ length fp)))"

definition infer_column :: "string list \<Rightarrow> cell list" where
  "infer_column fs =
     (if list_all (\<lambda>f. f \<in> set na_values \<or> parse_float f \<noteq> None) fs
      then map (\<lambda>f. if f \<in> set na_values then NaN
                     else case parse_float f of Some x \<Rightarrow> Num x | None \<Rightarrow> Str f) fs
      else map (\<lambda>f. if f \<in> set na_values then NaN else Str f) fs)"

definition infer_records :: "nat \<Rightarrow> string list list \<Rightarrow> cell list list" where
  "infer_records n rows =
     (let rs = map (\<lambda>r. r @ replicate (n - length r) []) (filter (\<lambda>r. length r \<le> n) rows);
          cs = map (\<lambda>j. infer_column (map (\<lambda>r. r ! j) rs)) [0..<n]
      in map (\<lambda>i. map (\<lambda>c. c ! i) cs) [0..<length rs])"

definition csv_table :: "string \<Rightarrow> (string list \<times> cell list list) result option" where
  "csv_table text =
     map_option
       (\<lambda>r. bind_r r (\<lambda>ls. case ls of
                         [] \<Rightarrow> Inl (EmptyDataError ''No columns to parse from file'')
                       | h # rows \<Rightarrow> Inr (h, infer_records (length h) rows)))
       (tokenize tok_init text)"

subsection \<open>A CSV printer, to state the tokenizer's round trip\<close>

text \<open>Minimal quoting as Python's \<open>csv\<close> module writes it: a field is quoted when it
  holds the delimiter, the quote character or a newline, or when it is the only, empty,
  field of its record; a quote inside a quoted field is doubled.\<close>

definition needs_quote :: "string \<Rightarrow> bool" where
  "needs_quote f \<longleftrightarrow> CHR 0x2C \<in> set f \<or> CHR 0x22 \<in> set f \<or> CHR 0x0A \<in> set f"

definition quote_field :: "string \<Rightarrow> string" where
  "quote_field f = CHR 0x22 # concat (map (\<lambda>c. if c = CHR 0x22 then [c, c] else [c]) f) @ [CHR 0x22]"

definition render_field :: "bool \<Rightarrow> string \<Rightarrow> string" where
  "render_field lone f = (if needs_quote f \<or> (lone \<and> f = []) then quote_field f else f)"

fun render_tail :: "string list \<Rightarrow> string" where
  "render_tail [] = [CHR 0x0A]"
| "render_tail (f # fs) = CHR 0x2C # render_field False f @ render_tail fs"

definition render_line :: "string list \<Rightarrow> string" where
  "render_line ws =
     (case ws of [] \<Rightarrow> [] | [f] \<Rightarrow> render_field True f @ [CHR 0x0A]
      | f # fs \<Rightarrow> render_field False f @ render_tail fs)"

definition to_csv :: "string list list \<Rightarrow> string" where
  "to_csv rows = concat (map render_line rows)"

abbreviation run :: "tokenizer \<Rightarrow> string \<Rightarrow> tokenizer" where
  "run t cs \<equiv> fold (\<lambda>c t. tok_step t c) cs t"

subsection \<open>Lemmas\<close>

text \<open>The character loop is a fold of the step function, so it returns on every input.\<close>

lemma tokenize_fold: "tokenize t cs = Some (tok_eof (run t cs))"
  by (induction cs arbitrary: t) (simp_all add: tokenize.simps)

lemma run_in_field:
  "tstate t = InField \<Longrightarrow> CHR 0x0A \<notin> set cs \<Longrightarrow> CHR 0x2C \<notin> set cs \<Longrightarrow>
     run t cs = t\<lparr>tok_field := tok_field t @ cs\<rparr>"
  by (induction cs arbitrary: t) (auto simp: tok_step_def push_char_def)

lemma run_in_quoted:
  "tstate t = InQuotedField \<Longrightarrow>
     run t (concat (map (\<lambda>c. if c = CHR 0x22 then [c, c] else [c]) f)) = t\<lparr>tok_field := tok_field t @ f\<rparr>"
  by (induction f arbitrary: t) (auto simp: tok_step_def push_char_def)

lemma run_field:
  assumes st: "tstate t = StartRecord \<or> tstate t = StartField" and e: "tok_field t = []"
    and ne: "tstate t = StartRecord \<longrightarrow> render_field lone f \<noteq> []"
  shows "tstate (run t (render_field lone f)) \<in> {StartField, InField, QuoteInQuotedField} \<and>
         tok_field (run t (render_field lone f)) = f \<and>
         tok_words (run t (render_field lone f)) = tok_words t \<and>
         tok_lines (run t (render_field lone f)) = tok_lines t"
proof (cases "needs_quote f \<or> (lone \<and> f = [])")
  case True
  let ?t1 = "t\<lparr>tstate := InQuotedField\<rparr>"
  have 1: "tok_step t (CHR 0x22) = ?t1" using st by (auto simp: tok_step_def start_field_def)
  have 2: "run ?t1 (concat (map (\<lambda>c. if c = CHR 0x22 then [c, c] else [c]) f)) = ?t1\<lparr>tok_field := f\<rparr>"
    using run_in_quoted[of ?t1 f] e by simp
  show ?thesis using True 1 2 by (simp add: render_field_def quote_field_def tok_step_def)
next
  case False
  then have nq: "CHR 0x0A \<notin> set f" "CHR 0x2C \<notin> set f" "CHR 0x22 \<notin> set f"
    by (auto simp: needs_quote_def)
  show ?thesis
  proof (cases f)
    case Nil
    then show ?thesis using False ne st e by (auto simp: render_field_def)
  next
    case (Cons c cs)
    let ?t1 = "push_char c InField t"
    have 1: "tok_step t c = ?t1" using st nq Cons by (auto simp: tok_step_def start_field_def)
    have "run ?t1 cs = ?t1\<lparr>tok_field := tok_field ?t1 @ cs\<rparr>"
      using nq Cons by (intro run_in_field) (auto simp: push_char_def)
    then show ?thesis using False 1 Cons e by (simp add: render_field_def push_char_def)
  qed
qed

lemma run_tail:
  "tstate t \<noteq> InQuotedField \<Longrightarrow> (tstate t = StartRecord \<longrightarrow> fs \<noteq> []) \<Longrightarrow>
     run t (render_tail fs) =
       \<lparr>tstate = StartRecord, tok_field = [], tok_words = [],
        tok_lines = tok_lines t @ [tok_words t @ [tok_field t] @ fs]\<rparr>"
proof (induction fs arbitrary: t)
  case Nil
  then show ?case by (cases "tstate t") (auto simp: tok_step_def start_field_def end_line_def)
next
  case (Cons g gs)
  let ?t1 = "(end_field t)\<lparr>tstate := StartField\<rparr>"
  have 1: "tok_step t (CHR 0x2C) = ?t1"
    using Cons.prems(1) by (cases "tstate t") (auto simp: tok_step_def start_field_def)
  let ?t2 = "run ?t1 (render_field False g)"
  have 2: "tstate ?t2 \<in> {StartField, InField, QuoteInQuotedField}" "tok_field ?t2 = g"
    "tok_words ?t2 = tok_words t @ [tok_field t]" "tok_lines ?t2 = tok_lines t"
    using run_field[of ?t1 False g] by (simp_all add: end_field_def)
  have "run ?t2 (render_tail gs) =
          \<lparr>tstate = StartRecord, tok_field = [], tok_words = [],
           tok_lines = tok_lines t @ [tok_words t @ [tok_field t] @ g # gs]\<rparr>"
    using Cons.IH[of ?t2] 2 by auto
  then show ?case using 1 by simp
qed

lemma run_line:
  assumes st: "tstate t = StartRecord" "tok_field t = []" "tok_words t = []" and ne: "ws \<noteq> []"
  shows "run t (render_line ws) =
           \<lparr>tstate = StartRecord, tok_field = [], tok_words = [], tok_lines = tok_lines t @ [ws]\<rparr>"
proof (cases ws)
  case Nil
  with ne show ?thesis by simp
next
  case (Cons f fs)
  show ?thesis
  proof (cases fs)
    case Nil
    let ?t2 = "run t (render_field True f)"
    have "render_field True f \<noteq> []" by (auto simp: render_field_def quote_field_def)
    then have 2: "tstate ?t2 \<in> {StartField, InField, QuoteInQuotedField}" "tok_field ?t2 = f"
      "tok_words ?t2 = []" "tok_lines ?t2 = tok_lines t"
      using run_field[of t True f] st by auto
    then have "tok_step ?t2 (CHR 0x0A) = end_line ?t2"
      by (auto simp: tok_step_def start_field_def)
    then show ?thesis using Cons Nil 2 by (simp add: render_line_def end_line_def)
  next
    case (Cons g gs)
    let ?t2 = "run t (render_field False f)"
    have 2: "tstate ?t2 \<noteq> InQuotedField \<and> tok_field ?t2 = f \<and> tok_words ?t2 = [] \<and>
             tok_lines ?t2 = tok_lines t"
    proof (cases "render_field False f = []")
      case True
      then have "f = []" by (auto simp: render_field_def quote_field_def split: if_splits)
      with True st show ?thesis by simp
    next
      case False
      then show ?thesis using run_field[of t False f] st by auto
    qed
    have "run ?t2 (render_tail fs) =
            \<lparr>tstate = StartRecord, tok_field = [], tok_words = [],
             tok_lines = tok_lines t @ [[f] @ fs]\<rparr>"
      using run_tail[of ?t2 fs] 2 \<open>fs = g # gs\<close> by simp
    then show ?thesis using \<open>ws = f # fs\<close> \<open>fs = g # gs\<close> by (simp add: render_line_def)
  qed
qed

lemma run_to_csv:
  "tstate t = StartRecord \<Longrightarrow> tok_field t = [] \<Longrightarrow> tok_words t = [] \<Longrightarrow> [] \<notin> set rows \<Longrightarrow>
     run t (to_csv rows) =
       \<lparr>tstate = StartRecord, tok_field = [], tok_words = [], tok_lines = tok_lines t @ rows\<rparr>"
proof (induction rows arbitrary: t)
  case Nil
  then show ?case by (cases t) (simp add: to_csv_def)
next
  case (Cons ws rows)
  let ?t1 = "\<lparr>tstate = StartRecord, tok_field = [], tok_words = [], tok_lines = tok_lines t @ [ws]\<rparr>"
  have "run t (render_line ws) = ?t1" using run_line[of t ws] Cons.prems by auto
  moreover have "run ?t1 (to_csv rows) =
      \<lparr>tstate = StartRecord, tok_field = [], tok_words = [], tok_lines = tok_lines t @ ws # rows\<rparr>"
    using Cons.IH[of ?t1] Cons.prems by simp
  ultimately show ?case by (simp add: to_csv_def)
qed

lemma tokenize_to_csv: "[] \<notin> set rows \<Longrightarrow> tokenize tok_init (to_csv rows) = Some (Inr rows)"
  using run_to_csv[of tok_init rows] by (simp add: tokenize_fold tok_init_def tok_eof_def)


lemma run_quoted_open:
  "tstate t = InQuotedField \<Longrightarrow> CHR 0x22 \<notin> set s \<Longrightarrow> tstate (run t s) = InQuotedField"
  by (induction s arbitrary: t) (auto simp: tok_step_def push_char_def)

lemma tokenize_open_quote:
  assumes "[] \<notin> set rows" and "CHR 0x22 \<notin> set s"
  shows "tokenize tok_init (to_csv rows @ CHR 0x22 # s) = Some (Inl (ParserError ''EOF inside string''))"
proof -
  let ?t = "\<lparr>tstate = StartRecord, tok_field = [], tok_words = [], tok_lines = rows\<rparr>"
  have "run tok_init (to_csv rows) = ?t" using run_to_csv[of tok_init rows] assms(1) by (simp add: tok_init_def)
  moreover have "tok_step ?t (CHR 0x22) = ?t\<lparr>tstate := InQuotedField\<rparr>"
    by (simp add: tok_step_def start_field_def)
  moreover have "tstate (run (?t\<lparr>tstate := InQuotedField\<rparr>) s) = InQuotedField"
    using assms(2) by (intro run_quoted_open) simp_all
  ultimately show ?thesis by (simp add: tokenize_fold tok_eof_def)
qed

lemma run_newlines: "tstate t = StartRecord \<Longrightarrow> set s \<subseteq> {CHR 0x0A} \<Longrightarrow> run t s = t"
  by (induction s) (auto simp: tok_step_def)

lemma tokenize_newlines: "set s \<subseteq> {CHR 0x0A} \<Longrightarrow> tokenize tok_init s = Some (Inr [])"
  using run_newlines[of tok_init s] by (simp add: tokenize_fold tok_init_def tok_eof_def)

lemma csv_cell_infer_column: "c \<in> set (infer_column fs) \<Longrightarrow> csv_cell c"
  by (auto simp: infer_column_def csv_cell_def split: if_splits option.splits)

lemma length_infer_column [simp]: "length (infer_column fs) = length fs"
  by (simp add: infer_column_def)

lemma csv_cell_infer_nth: "i < length fs \<Longrightarrow> csv_cell (infer_column fs ! i)"
  using csv_cell_infer_column[of "infer_column fs ! i" fs] by simp

lemma csv_cell_infer_records: "list_all (list_all csv_cell) (infer_records n rows)"
  by (auto simp: infer_records_def Let_def list_all_iff intro!: csv_cell_infer_nth)

lemma infer_records_length: "r \<in> set (infer_records n rows) \<Longrightarrow> length r = n"
  by (auto simp: infer_records_def Let_def)

lemma infer_records_column:
  assumes "j < n"
  shows "map (\<lambda>r. r ! j) (infer_records n rows) =
           infer_column (map (\<lambda>r. (r @ replicate (n - length r) []) ! j) (filter (\<lambda>r. length r \<le> n) rows))"
proof -
  define rs where "rs = map (\<lambda>r. r @ replicate (n - length r) []) (filter (\<lambda>r. length r \<le> n) rows)"
  define cs where "cs = map (\<lambda>j. infer_column (map (\<lambda>r. r ! j) rs)) [0..<n]"
  have e: "infer_records n rows = map (\<lambda>i. map (\<lambda>c. c ! i) cs) [0..<length rs]"
    by (simp add: infer_records_def Let_def rs_def cs_def)
  have cj: "cs ! j = infer_column (map (\<lambda>r. r ! j) rs)" using assms by (simp add: cs_def)
  have l: "length (cs ! j) = length rs" by (simp add: cj)
  have "map (\<lambda>r. r ! j) (infer_records n rows) = map (\<lambda>i. cs ! j ! i) [0..<length rs]"
    using assms by (simp add: e cs_def)
  also have "\<dots> = cs ! j" using map_nth[of "cs ! j"] by (simp only: l)
  finally show ?thesis by (simp add: cj rs_def comp_def)
qed

lemma infer_column_Str:
  "f \<in> set fs \<Longrightarrow> f \<notin> set na_values \<Longrightarrow> parse_float f = None \<Longrightarrow> Str f \<in> set (infer_column fs)"
  by (auto simp: infer_column_def list_all_iff)

end
