(* ===== verification/Pipeline.thy ===== *)
theory Pipeline
  imports Aggregate Csv
begin

text \<open>
  The script as it runs top to bottom. The statements that change the global \<open>df\<close> are
  values of \<open>stmt\<close>, executed by \<open>exec_stmt\<close>; an exception stops the run
  (\<open>exec_stmts\<close>). The aggregations (theory \<open>Aggregate\<close>) read \<open>df\<close> without changing
  it and are collected in a \<open>report\<close>, one field per variable of the script. \<open>script\<close> is the whole
  program from \<open>pd.read_csv\<close> (line 45) to the last \<open>value_counts\<close> (line 190), in the
  order of the source: an aggregation sees the frame as the statements before it left it.
  \<open>stmt_writes\<close> names the columns each statement assigns; every other column is kept
  (\<open>exec_stmts_frame\<close>), which is what lets the per-step success lemmas be composed
  into the exact condition \<open>script_ready\<close> under which the script runs through.
  The section \<open>An example data set\<close> holds three records and the evaluated run of the
  script on them, used by the witnesses and by the end-to-end scenario.
\<close>

datatype stmt =
    DropCols "string list"
  | FillMean string
  | FillMode string
  | ToDatetime
  | AddYear
  | AddSeverity

fun exec_stmt :: "stmt \<Rightarrow> frame \<Rightarrow> frame result" where
  "exec_stmt (DropCols ns) df = Inr (drop_columns ns df)"
| "exec_stmt (FillMean n) df = impute_mean n df"
| "exec_stmt (FillMode n) df = impute_mode n df"
| "exec_stmt ToDatetime df = convert_dates df"
| "exec_stmt AddYear df = add_year df"
| "exec_stmt AddSeverity df = add_severity df"

fun exec_stmts :: "stmt list \<Rightarrow> frame \<Rightarrow> frame result" where
  "exec_stmts [] df = Inr df"
| "exec_stmts (s # ss) df = bind_r (exec_stmt s df) (exec_stmts ss)"

record report =
  severity_counts :: "(cell option \<times> nat) list"
  accidents_per_year :: "(real \<times> nat) list"
  accidents_by_manufacturer :: "(string \<times> nat) list"
  severity_by_aircraft :: "(string \<times> (sev \<times> nat) list) list"
  top_states :: "(cell \<times> nat) list"
  top_injuries :: "(cell \<times> nat) list"

subsection \<open>The script\<close>

definition cleaning :: "stmt list" where
  "cleaning =
     [DropCols [''Aircraft.damage'', ''Registration.Number''],
      FillMean ''Total.Fatal.Injuries'', FillMode ''Weather.Condition'']"

definition script :: "string list \<Rightarrow> cell list list \<Rightarrow> (frame \<times> report) result" where
  "script header records =
     bind_r (describe (read_csv header records)) (\<lambda>summary.
     bind_r (exec_stmts cleaning (read_csv header records)) (\<lambda>df1.
     bind_r (severity_counts_of df1) (\<lambda>sc.
     bind_r (exec_stmts [ToDatetime, AddYear] df1) (\<lambda>df2.
     bind_r (per_year df2) (\<lambda>py.
     bind_r (top_makes df2) (\<lambda>tm.
     bind_r (exec_stmt AddSeverity df2) (\<lambda>df3.
     bind_r (severity_by_type df3) (\<lambda>sa.
     bind_r (top_values ''Location'' df3) (\<lambda>ts.
     bind_r (top_values ''Injury.Severity'' df3) (\<lambda>ti.
       Inr (df3, \<lparr>severity_counts = sc, accidents_per_year = py,
                  accidents_by_manufacturer = tm, severity_by_aircraft = sa,
                  top_states = ts, top_injuries = ti\<rparr>)))))))))))"

text \<open>Line 45, \<open>pd.read_csv('AviationData.csv', on_bad_lines='skip')\<close>, on the file's
  text: the tokenizer and the column inference of theory \<open>Csv\<close>, then the script.\<close>

definition script_file :: "string \<Rightarrow> (frame \<times> report) result option" where
  "script_file text = map_option (\<lambda>r. bind_r r (\<lambda>(h, recs). script h recs)) (csv_table text)"

subsection \<open>Frame conditions and readiness\<close>

text \<open>The columns each statement assigns (or removes): a statement leaves every other
  column as it was.\<close>

fun stmt_writes :: "stmt \<Rightarrow> string list" where
  "stmt_writes (DropCols ns) = ns"
| "stmt_writes (FillMean n) = [n]"
| "stmt_writes (FillMode n) = [n]"
| "stmt_writes ToDatetime = [''Event.Date'']"
| "stmt_writes AddYear = [''year'']"
| "stmt_writes AddSeverity = [''severity'']"

text \<open>The loaded frame the script runs through: every column it reads is present, the
  fatalities are floats or NaN, the weather conditions strings or NaN with at least one
  present (so that \<open>mode()[0]\<close> exists), the dates convertible by \<open>pd.to_datetime\<close>,
  the makes and aircraft categories strings or NaN (they are sorted as group keys).\<close>

definition script_ready :: "frame \<Rightarrow> bool" where
  "script_ready df \<longleftrightarrow>
     col_all df ''Total.Fatal.Injuries'' num_cell \<and>
     col_all df ''Weather.Condition'' str_cell \<and>
     \<not> col_all df ''Weather.Condition'' (\<lambda>c. c = NaN) \<and>
     col_all df ''Event.Date'' date_cell \<and>
     col_all df ''Make'' str_cell \<and> col_all df ''Aircraft.Category'' str_cell \<and>
     col_all df ''Injury.Severity'' (\<lambda>c. True) \<and> col_all df ''Location'' (\<lambda>c. True)"

text \<open>The six aggregations computed on one frame.\<close>

definition report_of :: "frame \<Rightarrow> report result" where
  "report_of df =
     bind_r (severity_counts_of df) (\<lambda>sc.
     bind_r (per_year df) (\<lambda>py.
     bind_r (top_makes df) (\<lambda>tm.
     bind_r (severity_by_type df) (\<lambda>sa.
     bind_r (top_values ''Location'' df) (\<lambda>ts.
     bind_r (top_values ''Injury.Severity'' df) (\<lambda>ti.
       Inr \<lparr>severity_counts = sc, accidents_per_year = py,
            accidents_by_manufacturer = tm, severity_by_aircraft = sa,
            top_states = ts, top_injuries = ti\<rparr>))))))"

subsection \<open>The charts' data\<close>

text \<open>Lines 120-197 draw five charts; what the spec keeps of them is the aggregation each
  is built from. A chart is its kind, its title, its axis labels (as \<open>plt.title\<close>,
  \<open>plt.xlabel\<close>, \<open>plt.ylabel\<close> set them; the title of line 122 holds an en dash, three
  bytes in UTF-8) and its data. Figure sizes, markers, grid and tick rotation are not
  modelled.\<close>

datatype chart =
    LineChart string string string "(real \<times> nat) list"
  | BarChart string string string "(string \<times> nat) list"
  | StackedBarChart string string string "(string \<times> (sev \<times> nat) list) list"
  | HBarChart string string string "(cell \<times> nat) list"

definition charts :: "report \<Rightarrow> chart list" where
  "charts rep =
     [LineChart (''Aviation Accidents Over Time (1962'' @ [CHR 0xE2, CHR 0x80, CHR 0x93] @ ''2023)'')
        ''Year'' ''Number of Accidents'' (accidents_per_year rep),
      BarChart ''Top 10 Aircraft Manufacturers by Accident Count'' ''Manufacturer/Make''
        ''Number of Accidents'' (accidents_by_manufacturer rep),
      StackedBarChart ''Accident Severity by Aircraft Type'' ''Aircraft Type'' ''Number of Accidents''
        (severity_by_aircraft rep),
      HBarChart ''Top 10 States by Number of Incidents'' ''Number of Incidents'' ''State''
        (top_states rep),
      HBarChart ''Top 10 Severity of Injuries'' ''Number of Incidents'' ''Severity of Injuries''
        (top_injuries rep)]"

subsection \<open>An example data set\<close>

text \<open>A small data set in the shape of \<open>AviationData.csv\<close>: three accident records, the
  second with a missing fatality count and weather condition.\<close>

definition example_header :: "string list" where
  "example_header =
     [''Event.Date'', ''Make'', ''Aircraft.Category'', ''Injury.Severity'',
              ''Total.Fatal.Injuries'', ''Weather.Condition'', ''Location'']"
definition example_records :: "cell list list" where
  "example_records =
     [[Str ''1982-01-01'', Str ''Boeing'', Str ''Airplane'', Str ''Fatal(2)'', Num 2, Str ''VMC'', Str ''TX''],
        [Str ''1983-05-02'', Str ''Boeing'', Str ''Airplane'', Str ''Non-Fatal'', NaN, NaN, Str ''TX''],
        [Str ''1983-07-09'', Str ''Cessna'', NaN, Str ''Fatal(1)'', Num 1, Str ''IMC'', Str ''CA'']]"


definition example_frame :: frame where
  "example_frame =
     \<lparr>nrows = 3, cols =
        [(''Event.Date'', [Stamp (1982, 1, 1), Stamp (1983, 5, 2), Stamp (1983, 7, 9)]),
         (''Make'', [Str ''Boeing'', Str ''Boeing'', Str ''Cessna'']),
         (''Aircraft.Category'', [Str ''Airplane'', Str ''Airplane'', NaN]),
         (''Injury.Severity'', [Str ''Fatal(2)'', Str ''Non-Fatal'', Str ''Fatal(1)'']),
         (''Total.Fatal.Injuries'', [Num 2, Num (3 / 2), Num 1]),
         (''Weather.Condition'', [Str ''VMC'', Str ''IMC'', Str ''IMC'']),
         (''Location'', [Str ''TX'', Str ''TX'', Str ''CA'']),
         (''year'', [Num 1982, Num 1983, Num 1983]),
         (''severity'', [Cat Medium, Cat Medium, Cat Low])]\<rparr>"

definition example_report :: report where
  "example_report =
     \<lparr>severity_counts =
        [(Some (Str ''Fatal(2)''), 1), (Some (Str ''Non-Fatal''), 1), (Some (Str ''Fatal(1)''), 1)],
      accidents_per_year = [(1982, 1), (1983, 2)],
      accidents_by_manufacturer = [(''Boeing'', 2), (''Cessna'', 1)],
      severity_by_aircraft = [(''Airplane'', [(Low, 0), (Medium, 2), (High, 0)])],
      top_states = [(Str ''TX'', 2), (Str ''CA'', 1)],
      top_injuries = [(Str ''Fatal(2)'', 1), (Str ''Non-Fatal'', 1), (Str ''Fatal(1)'', 1)]\<rparr>"

subsection \<open>Lemmas\<close>

lemma set_column_step:
  "wf_frame df \<Longrightarrow> set_column n cs df = Inr df' \<Longrightarrow> wf_frame df' \<and> nrows df' = nrows df"
  using set_column_wf set_column_nrows by blast

lemma exec_stmt_invariant:
  assumes "wf_frame df" and "exec_stmt s df = Inr df'"
  shows "wf_frame df' \<and> nrows df' = nrows df"
proof (cases s)
  case (DropCols ns)
  with assms have "df' = drop_columns ns df" by simp
  with drop_columns_wf[OF assms(1), of ns] show ?thesis by (simp add: drop_columns_def)
next
  case (FillMean n)
  with assms show ?thesis by (auto simp: impute_mean_def bind_r_eq_Inr dest: set_column_step)
next
  case (FillMode n)
  with assms show ?thesis by (auto simp: impute_mode_def bind_r_eq_Inr dest: set_column_step)
next
  case ToDatetime
  with assms show ?thesis by (auto simp: convert_dates_def bind_r_eq_Inr dest: set_column_step)
next
  case AddYear
  with assms show ?thesis by (auto simp: add_year_def bind_r_eq_Inr dest: set_column_step)
next
  case AddSeverity
  with assms show ?thesis by (auto simp: add_severity_def bind_r_eq_Inr dest: set_column_step)
qed

lemma exec_stmts_wf:
  "wf_frame df \<Longrightarrow> exec_stmts ss df = Inr df' \<Longrightarrow> wf_frame df' \<and> nrows df' = nrows df"
proof (induction ss arbitrary: df)
  case Nil
  then show ?case by simp
next
  case (Cons s ss)
  from Cons.prems(2) obtain df1 where s: "exec_stmt s df = Inr df1" and r: "exec_stmts ss df1 = Inr df'"
    by (auto simp: bind_r_eq_Inr)
  from exec_stmt_invariant[OF Cons.prems(1) s] have "wf_frame df1" "nrows df1 = nrows df" by auto
  with Cons.IH[OF _ r] show ?case by simp
qed

lemma exec_stmt_cases:
  "exec_stmt s df = Inr df' \<Longrightarrow>
     (\<exists>ns. s = DropCols ns \<and> df' = drop_columns ns df) \<or>
     (\<exists>n cs. n \<in> set (stmt_writes s) \<and> set_column n cs df = Inr df')"
  by (cases s) (auto simp: impute_mean_def impute_mode_def convert_dates_def add_year_def
      add_severity_def bind_r_eq_Inr)

lemma exec_stmt_frame:
  assumes "exec_stmt s df = Inr df'" and "m \<notin> set (stmt_writes s)"
  shows "get_column df' m = get_column df m"
  using exec_stmt_cases[OF assms(1)]
proof
  assume "\<exists>ns. s = DropCols ns \<and> df' = drop_columns ns df"
  with assms(2) show ?thesis by (auto simp: get_column_def drop_columns_def map_of_filter_keep)
next
  assume "\<exists>n cs. n \<in> set (stmt_writes s) \<and> set_column n cs df = Inr df'"
  then obtain n cs where "n \<in> set (stmt_writes s)" and "set_column n cs df = Inr df'" by blast
  with assms(2) show ?thesis by (metis set_column_other)
qed

lemma exec_stmts_frame:
  "exec_stmts ss df = Inr df' \<Longrightarrow> m \<notin> set (concat (map stmt_writes ss)) \<Longrightarrow>
     get_column df' m = get_column df m"
proof (induction ss arbitrary: df)
  case Nil
  then show ?case by simp
next
  case (Cons s ss)
  from Cons.prems(1) obtain df1 where s: "exec_stmt s df = Inr df1" and r: "exec_stmts ss df1 = Inr df'"
    by (auto simp: bind_r_eq_Inr)
  have "get_column df1 m = get_column df m" using exec_stmt_frame[OF s] Cons.prems(2) by simp
  with Cons.IH[OF r] Cons.prems(2) show ?case by simp
qed

lemma exec_stmt_col_names:
  "exec_stmt s df = Inr df' \<Longrightarrow>
     set (col_names df') =
       (case s of DropCols ns \<Rightarrow> set (col_names df) - set ns
        | _ \<Rightarrow> set (col_names df) \<union> set (stmt_writes s))"
proof -
  assume e: "exec_stmt s df = Inr df'"
  show ?thesis
  proof (cases "\<exists>ns. s = DropCols ns")
    case True
    then obtain ns where "s = DropCols ns" by blast
    with e show ?thesis by (auto simp: col_names_drop_columns)
  next
    case False
    with exec_stmt_cases[OF e] obtain n cs where n: "n \<in> set (stmt_writes s)"
      and sc: "set_column n cs df = Inr df'" by blast
    from False n have "set (stmt_writes s) = {n}" by (cases s) auto
    with False set_column_col_names[OF sc] show ?thesis by (cases s) auto
  qed
qed

subsection \<open>Success of the steps on ready columns\<close>




lemma exec_stmts_col_all:
  assumes "exec_stmts ss df = Inr df'" and "m \<notin> set (concat (map stmt_writes ss))"
  shows "col_all df' m P = col_all df m P"
  using exec_stmts_frame[OF assms] by (simp add: col_all_def)


lemma impute_mean_Inr_ready: "impute_mean n df = Inr df' \<Longrightarrow> col_all df n num_cell"
  using num_values_ok
  by (fastforce simp: impute_mean_def series_mean_def bind_r_eq_Inr col_all_def)

lemma impute_mode_Inr_ready:
  assumes "impute_mode n df = Inr df'"
  shows "col_all df n str_cell \<and> \<not> col_all df n (\<lambda>c. c = NaN)"
proof -
  from assms obtain cs ks v where g: "get_column df n = Inr cs" and sv: "str_values cs = Inr ks"
    and m: "mode_first ks = Inr v"
    by (auto simp: impute_mode_def bind_r_eq_Inr)
  have "list_all str_cell cs" using sv str_values_ok by blast
  moreover have "present ks \<noteq> []"
    using m mode_first_Inr[OF m] by (auto simp: present_empty_iff)
  then have "\<not> list_all (\<lambda>c. c = NaN) cs" using str_values_all_NaN[OF sv] by (simp add: list_all_iff)
  ultimately show ?thesis using g by (simp add: col_all_def)
qed

lemma convert_dates_Inr_ready:
  "convert_dates df = Inr df' \<Longrightarrow> col_all df ''Event.Date'' date_cell"
  using map_r_ok[of to_timestamp]
  by (fastforce simp: convert_dates_def to_datetime_eq bind_r_eq_Inr col_all_def to_timestamp_ok)

lemma script_Inr_steps:
  assumes "script header records = Inr res"
  obtains df1 df2 df3 sc py tm sa ts ti where
    "exec_stmts cleaning (read_csv header records) = Inr df1" "severity_counts_of df1 = Inr sc"
    "exec_stmts [ToDatetime, AddYear] df1 = Inr df2" "per_year df2 = Inr py" "top_makes df2 = Inr tm"
    "exec_stmt AddSeverity df2 = Inr df3" "severity_by_type df3 = Inr sa"
    "top_values ''Location'' df3 = Inr ts" "top_values ''Injury.Severity'' df3 = Inr ti"
    "res = (df3, \<lparr>severity_counts = sc, accidents_per_year = py,
                  accidents_by_manufacturer = tm, severity_by_aircraft = sa,
                  top_states = ts, top_injuries = ti\<rparr>)"
  using assms unfolding script_def bind_r_eq_Inr by auto

lemma script_Inr_ready:
  assumes "script header records = Inr res"
  shows "script_ready (read_csv header records)"
proof -
  let ?df0 = "read_csv header records"
  let ?d = "drop_columns [''Aircraft.damage'', ''Registration.Number''] ?df0"
  obtain df1 df2 df3 sc py tm sa ts ti where
    c: "exec_stmts cleaning ?df0 = Inr df1" and a1: "severity_counts_of df1 = Inr sc"
    and t: "exec_stmts [ToDatetime, AddYear] df1 = Inr df2" and a3: "top_makes df2 = Inr tm"
    and s: "exec_stmt AddSeverity df2 = Inr df3" and a4: "severity_by_type df3 = Inr sa"
    and a5: "top_values ''Location'' df3 = Inr ts"
    using script_Inr_steps[OF assms] by metis
  from c obtain dfa where m: "impute_mean ''Total.Fatal.Injuries'' ?d = Inr dfa"
    and o: "impute_mode ''Weather.Condition'' dfa = Inr df1"
    by (auto simp: cleaning_def bind_r_eq_Inr)
  from t obtain dfc where cd: "convert_dates df1 = Inr dfc" by (auto simp: bind_r_eq_Inr)
  have s': "exec_stmts [AddSeverity] df2 = Inr df3" using s by simp
  have gd: "col_all ?d n P = col_all ?df0 n P"
    if "n \<notin> set [''Aircraft.damage'', ''Registration.Number'']" for n P
    using get_column_drop_columns[OF that] by (rule col_all_same)
  have m': "exec_stmts [FillMean ''Total.Fatal.Injuries''] ?d = Inr dfa" using m by simp
  note f = exec_stmts_col_all[OF c] exec_stmts_col_all[OF t] exec_stmts_col_all[OF s']
    exec_stmts_col_all[OF m']
  have "col_all ?df0 ''Total.Fatal.Injuries'' num_cell"
    using impute_mean_Inr_ready[OF m] gd[of "''Total.Fatal.Injuries''"] by simp
  moreover have "col_all ?df0 ''Weather.Condition'' str_cell \<and>
                 \<not> col_all ?df0 ''Weather.Condition'' (\<lambda>c. c = NaN)"
    using impute_mode_Inr_ready[OF o] gd[of "''Weather.Condition''"] by (simp add: f)
  moreover have "col_all ?df0 ''Event.Date'' date_cell"
    using convert_dates_Inr_ready[OF cd] by (simp add: f cleaning_def)
  moreover have "col_all ?df0 ''Make'' str_cell"
    using top_makes_Inr_ready[OF a3] by (simp add: f cleaning_def)
  moreover have "col_all ?df0 ''Aircraft.Category'' str_cell"
    using severity_by_type_Inr_ready[OF a4] by (simp add: f cleaning_def)
  moreover have "col_all ?df0 ''Injury.Severity'' (\<lambda>c. True)"
    using severity_counts_of_Inr_ready[OF a1] by (simp add: f cleaning_def)
  moreover have "col_all ?df0 ''Location'' (\<lambda>c. True)"
    using top_values_Inr_ready[OF a5] by (simp add: f cleaning_def)
  ultimately show ?thesis by (simp add: script_ready_def)
qed

subsection \<open>Where each aggregation reads its columns\<close>

lemma dates_Inr_years:
  assumes "exec_stmts [ToDatetime, AddYear] df1 = Inr df2"
  obtains cs os where "get_column df1 ''Event.Date'' = Inr cs" "map_r to_timestamp cs = Inr os"
    "get_column df2 ''year'' = Inr (map year_cell (map stamp_cell os))"
proof -
  from assms obtain dfc where c: "convert_dates df1 = Inr dfc" and a: "add_year dfc = Inr df2"
    by (auto simp: bind_r_eq_Inr)
  from c obtain cs ts where g: "get_column df1 ''Event.Date'' = Inr cs"
    and t: "to_datetime cs = Inr ts" and s: "set_column ''Event.Date'' ts df1 = Inr dfc"
    by (auto simp: convert_dates_def bind_r_eq_Inr)
  from t obtain os where os: "map_r to_timestamp cs = Inr os" and ts: "ts = map stamp_cell os"
    by (auto simp: to_datetime_eq bind_r_eq_Inr)
  have gc: "get_column dfc ''Event.Date'' = Inr ts" using get_set_column[OF s] by simp
  have m: "map_r dt_year ts = Inr (map year_cell ts)"
    unfolding ts by (rule map_r_map) (auto simp: dt_year_stamp_cell)
  from a gc m have "set_column ''year'' (map year_cell ts) dfc = Inr df2"
    by (simp add: add_year_def)
  then have "get_column df2 ''year'' = Inr (map year_cell ts)" using get_set_column by simp
  with g os ts show ?thesis using that by blast
qed

subsection \<open>Loading the file\<close>





subsection \<open>The example run\<close>

text \<open>The run, stage by stage: loading, the cleaning statements, the date columns.\<close>

lemma example_loaded: "read_csv example_header example_records = \<lparr>nrows = 3, cols = [(''Event.Date'', [Str ''1982-01-01'', Str ''1983-05-02'', Str ''1983-07-09'']),
   (''Make'', [Str ''Boeing'', Str ''Boeing'', Str ''Cessna'']), (''Aircraft.Category'', [Str ''Airplane'', Str ''Airplane'', NaN]),
   (''Injury.Severity'', [Str ''Fatal(2)'', Str ''Non-Fatal'', Str ''Fatal(1)'']), (''Total.Fatal.Injuries'', [Num 2, NaN, Num 1]),
   (''Weather.Condition'', [Str ''VMC'', NaN, Str ''IMC'']), (''Location'', [Str ''TX'', Str ''TX'', Str ''CA''])]\<rparr>"
  by (simp add: read_csv_def example_header_def example_records_def pad_row_def upt_rec)

lemma example_cleaned: "exec_stmts cleaning (read_csv example_header example_records) = Inr \<lparr>nrows = 3, cols = [(''Event.Date'', [Str ''1982-01-01'', Str ''1983-05-02'', Str ''1983-07-09'']),
   (''Make'', [Str ''Boeing'', Str ''Boeing'', Str ''Cessna'']), (''Aircraft.Category'', [Str ''Airplane'', Str ''Airplane'', NaN]),
   (''Injury.Severity'', [Str ''Fatal(2)'', Str ''Non-Fatal'', Str ''Fatal(1)'']), (''Total.Fatal.Injuries'', [Num 2, Num (3/2), Num 1]),
   (''Weather.Condition'', [Str ''VMC'', Str ''IMC'', Str ''IMC'']), (''Location'', [Str ''TX'', Str ''TX'', Str ''CA''])]\<rparr>"
  by (simp add: example_loaded cleaning_def drop_columns_def impute_mean_def impute_mode_def get_column_def
      series_mean_def num_values_def str_values_def mode_first_def series_mode_def value_counts_raw_def
      set_column_def fillna_def mean_cell_def)

lemma example_dated: "exec_stmts [ToDatetime, AddYear] \<lparr>nrows = 3, cols = [(''Event.Date'', [Str ''1982-01-01'', Str ''1983-05-02'', Str ''1983-07-09'']),
   (''Make'', [Str ''Boeing'', Str ''Boeing'', Str ''Cessna'']), (''Aircraft.Category'', [Str ''Airplane'', Str ''Airplane'', NaN]),
   (''Injury.Severity'', [Str ''Fatal(2)'', Str ''Non-Fatal'', Str ''Fatal(1)'']), (''Total.Fatal.Injuries'', [Num 2, Num (3/2), Num 1]),
   (''Weather.Condition'', [Str ''VMC'', Str ''IMC'', Str ''IMC'']), (''Location'', [Str ''TX'', Str ''TX'', Str ''CA''])]\<rparr> =
  Inr \<lparr>nrows = 3, cols = [(''Event.Date'', [Stamp (1982, 1, 1), Stamp (1983, 5, 2), Stamp (1983, 7, 9)]),
   (''Make'', [Str ''Boeing'', Str ''Boeing'', Str ''Cessna'']), (''Aircraft.Category'', [Str ''Airplane'', Str ''Airplane'', NaN]),
   (''Injury.Severity'', [Str ''Fatal(2)'', Str ''Non-Fatal'', Str ''Fatal(1)'']), (''Total.Fatal.Injuries'', [Num 2, Num (3/2), Num 1]),
   (''Weather.Condition'', [Str ''VMC'', Str ''IMC'', Str ''IMC'']), (''Location'', [Str ''TX'', Str ''TX'', Str ''CA'']),
   (''year'', [Num 1982, Num 1983, Num 1983])]\<rparr>"
  by (simp add: convert_dates_def add_year_def get_column_def to_datetime_def stamp_cell_def
      parse_iso_def digit_of_def valid_date_def days_in_month_def in_ts_range_def date_key_def
      set_column_def)


lemma example_run: "script example_header example_records = Inr (example_frame, example_report)"
proof -
  obtain sm where sm: "describe (read_csv example_header example_records) = Inr sm"
    using describe_read_csv[of example_header example_records] by (auto simp: example_header_def)
  show ?thesis
  by (simp add: sm script_def example_cleaned example_dated severity_counts_of_def per_year_def
      top_makes_def severity_by_type_def top_values_def add_severity_def pd_cut_def cut_cell_def
      severity_bins_def severity_labels_def get_column_def num_values_def str_values_def
      set_column_def groupby_size_def head_def sort_values_desc_def crosstab_def
      value_counts_def value_counts_keepna_def value_counts_raw_def cell_opt_def
      example_frame_def example_report_def
      del: exec_stmts.simps)
qed

lemma script_year_range:
  assumes csv: "list_all (list_all csv_cell) records"
    and run: "script header records = Inr (df, rep)"
  shows "\<forall>p \<in> set (accidents_per_year rep). 1677 \<le> fst p \<and> fst p \<le> 2262"
proof
  fix p assume p: "p \<in> set (accidents_per_year rep)"
  obtain df1 df2 df3 sc py tm sa ts ti where
    c: "exec_stmts cleaning (read_csv header records) = Inr df1" and a1: "severity_counts_of df1 = Inr sc"
    and t: "exec_stmts [ToDatetime, AddYear] df1 = Inr df2" and py: "per_year df2 = Inr py"
    and tm: "top_makes df2 = Inr tm"
    and s: "exec_stmt AddSeverity df2 = Inr df3" and sa: "severity_by_type df3 = Inr sa"
    and ts: "top_values ''Location'' df3 = Inr ts" and ti: "top_values ''Injury.Severity'' df3 = Inr ti"
    and res: "(df, rep) = (df3, \<lparr>severity_counts = sc, accidents_per_year = py,
                  accidents_by_manufacturer = tm, severity_by_aircraft = sa,
                  top_states = ts, top_injuries = ti\<rparr>)"
    by (rule script_Inr_steps[OF run])
  have r: "accidents_per_year rep = py" using res by simp
  obtain cs os where g: "get_column df1 ''Event.Date'' = Inr cs"
    and os: "map_r to_timestamp cs = Inr os"
    and gy: "get_column df2 ''year'' = Inr (map year_cell (map stamp_cell os))"
    using dates_Inr_years[OF t] by blast
  from py gy have "bind_r (num_values (map year_cell (map stamp_cell os)))
                     (\<lambda>ys. Inr (groupby_size ys)) = Inr py"
    by (simp only: per_year_def bind_r_Inr)
  then obtain zs where nv: "num_values (map year_cell (map stamp_cell os)) = Inr zs"
    and pz: "py = groupby_size zs"
    unfolding bind_r_eq_Inr by blast
  have "Some (fst p) \<in> set zs" using p r pz by (simp add: groupby_size_member)
  then obtain c where cm: "c \<in> set (map year_cell (map stamp_cell os))"
    and cn: "as_num c = Inr (Some (fst p))"
    using map_r_Inr_set[of as_num _ zs] nv unfolding num_values_def by blast
  from cn have "c = Num (fst p)" by (cases c) auto
  moreover from cm obtain o' where "o' \<in> set os" "c = year_cell (stamp_cell o')" by auto
  ultimately have "o' \<in> set os" "year_cell (stamp_cell o') = Num (fst p)" by simp_all
  then obtain y m dd where o': "o' \<in> set os" "o' = Some (y, m, dd)" "fst p = real y"
    using year_cell_Num by blast
  then obtain c' where c': "c' \<in> set cs" "to_timestamp c' = Inr (Some (y, m, dd))"
    using map_r_Inr_set[OF os] by blast
  have "get_column (read_csv header records) ''Event.Date'' = Inr cs"
    using g exec_stmts_frame[OF c, of "''Event.Date''"] by (simp add: cleaning_def)
  then have "list_all csv_cell cs" using read_csv_cells[OF csv, of header] by (simp add: csv_cell_def)
  then have "csv_cell c'" using c'(1) by (simp add: list_all_iff)
  then have "1677 \<le> y \<and> y \<le> 2262" using c'(2) by (rule to_timestamp_csv_year)
  then show "1677 \<le> fst p \<and> fst p \<le> 2262" using o'(3) by simp
qed

subsection \<open>Properties\<close>

text \<open>C15. Invariant of the script's statements: from a rectangular frame with distinct
  column names, any sequence of the script's statements that runs without an exception
  leaves the frame rectangular with distinct names and the same number of rows: no record
  is added or removed after loading.\<close>

theorem exec_stmts_invariant:
  "wf_frame df \<Longrightarrow> exec_stmts ss df = Inr df' \<Longrightarrow> wf_frame df' \<and> nrows df' = nrows df"
  by (rule exec_stmts_wf)

theorem exec_stmts_invariant_witness:
  "exec_stmts [DropCols [''Aircraft.damage''], FillMean ''Total.Fatal.Injuries'']
     \<lparr>nrows = 2, cols = [(''Total.Fatal.Injuries'', [Num 4, NaN]), (''Aircraft.damage'', [NaN, NaN])]\<rparr> =
     Inr \<lparr>nrows = 2, cols = [(''Total.Fatal.Injuries'', [Num 4, Num 4])]\<rparr> \<and>
   wf_frame \<lparr>nrows = 2, cols = [(''Total.Fatal.Injuries'', [Num 4, Num 4])]\<rparr>"
proof -
  let ?df = "\<lparr>nrows = 2, cols = [(''Total.Fatal.Injuries'', [Num 4, NaN]), (''Aircraft.damage'', [NaN, NaN])]\<rparr>"
  let ?df' = "\<lparr>nrows = 2, cols = [(''Total.Fatal.Injuries'', [Num 4, Num 4])]\<rparr>"
  have wf: "wf_frame ?df" by (simp add: wf_frame_def)
  have ev: "exec_stmts [DropCols [''Aircraft.damage''], FillMean ''Total.Fatal.Injuries''] ?df = Inr ?df'"
    by (simp add: drop_columns_def impute_mean_def get_column_def series_mean_def num_values_def
        set_column_def fillna_def mean_cell_def)
  show ?thesis using exec_stmts_invariant [OF wf ev] ev by simp
qed

text \<open>C16. A missing required column is fatal and named: when the loaded header has no
  \<open>Total.Fatal.Injuries\<close>, the script stops at line 86 with
  \<open>KeyError: 'Total.Fatal.Injuries'\<close> and computes none of its aggregations; when the
  header is empty it stops earlier, at \<open>describe()\<close> on line 58, with \<open>ValueError\<close>.\<close>

theorem script_missing_column:
  assumes "''Total.Fatal.Injuries'' \<notin> set header"
  shows "script header records =
           Inl (if header = [] then ValueError ''Cannot describe a DataFrame without columns''
                else KeyError ''Total.Fatal.Injuries'')"
proof (cases "header = []")
  case True
  then show ?thesis by (simp add: script_def describe_read_csv_Nil)
next
  case False
  obtain sm where sm: "describe (read_csv header records) = Inr sm"
    using describe_read_csv[OF False] by blast
  let ?df = "drop_columns [''Aircraft.damage'', ''Registration.Number''] (read_csv header records)"
  have "''Total.Fatal.Injuries'' \<notin> set (col_names ?df)"
    using assms by (simp add: col_names_drop_columns)
  then have "get_column ?df ''Total.Fatal.Injuries'' = Inl (KeyError ''Total.Fatal.Injuries'')"
    by (simp add: get_column_Inl)
  then have "impute_mean ''Total.Fatal.Injuries'' ?df = Inl (KeyError ''Total.Fatal.Injuries'')"
    by (simp add: impute_mean_def)
  then show ?thesis using False sm by (simp add: script_def cleaning_def)
qed

theorem script_missing_column_witness:
  "script [''Make''] [[Str ''Boeing'']] = Inl (KeyError ''Total.Fatal.Injuries'') \<and>
   script [] [[Str ''Boeing'']] = Inl (ValueError ''Cannot describe a DataFrame without columns'')"
  using script_missing_column [of "[''Make'']" "[[Str ''Boeing'']]"]
    script_missing_column [of "[]" "[[Str ''Boeing'']]"] by simp

text \<open>C22. Lines 113 and 116 on a rectangular frame whose dates convert: both statements
  succeed, \<open>Event.Date\<close> holds the converted timestamps and the new column \<open>year\<close> the
  year of each of them (NaN for NaT), row by row, keeping the invariant and the row count.\<close>

theorem year_column:
  assumes wf: "wf_frame df" and g: "get_column df ''Event.Date'' = Inr cs"
    and t: "to_datetime cs = Inr ts"
  shows "\<exists>df'. exec_stmts [ToDatetime, AddYear] df = Inr df' \<and>
           get_column df' ''Event.Date'' = Inr ts \<and>
           get_column df' ''year'' = Inr (map year_cell ts) \<and> wf_frame df' \<and> nrows df' = nrows df"
proof -
  obtain os where ts: "ts = map stamp_cell os"
    using t by (auto simp: to_datetime_eq bind_r_eq_Inr)
  obtain df1 where c: "convert_dates df = Inr df1" "get_column df1 ''Event.Date'' = Inr ts"
    "wf_frame df1" "nrows df1 = nrows df"
    using convert_dates_set[OF wf g t] by blast
  obtain df' where a: "add_year df1 = Inr df'"
    "get_column df' ''year'' = Inr (map year_cell (map stamp_cell os))" "wf_frame df'" "nrows df' = nrows df1"
    using add_year_after_dates[OF c(3)] c(2) ts by blast
  have "get_column df' ''Event.Date'' = get_column df1 ''Event.Date''"
    using exec_stmt_frame[of AddYear df1 df' "''Event.Date''"] a(1) by simp
  then show ?thesis using c a ts by auto
qed

theorem year_column_witness:
  "\<exists>df'. exec_stmts [ToDatetime, AddYear]
           \<lparr>nrows = 2, cols = [(''Event.Date'', [Str ''1982-01-01'', NaN])]\<rparr> = Inr df' \<and>
         get_column df' ''year'' = Inr [Num 1982, NaN]"
proof -
  let ?df = "\<lparr>nrows = 2, cols = [(''Event.Date'', [Str ''1982-01-01'', NaN])]\<rparr>"
  have h1: "wf_frame ?df" by (simp add: wf_frame_def)
  have h2: "get_column ?df ''Event.Date'' = Inr [Str ''1982-01-01'', NaN]" by (simp add: get_column_def)
  have h3: "to_datetime [Str ''1982-01-01'', NaN] = Inr [Stamp (1982, 1, 1), NaN]"
    by (simp add: to_datetime_def parse_iso_def digit_of_def valid_date_def days_in_month_def
        in_ts_range_def date_key_def stamp_cell_def)
  have ev: "map year_cell [Stamp (1982, 1, 1), NaN] = [Num 1982, NaN]" by (simp add: year_cell_def)
  show ?thesis using year_column [OF h1 h2 h3] ev by auto
qed





text \<open>C25. The aggregations do not depend on where the script computes them: each of
  them reads columns that no later statement assigns, so computing all six on the final
  frame gives the report the script computed, aggregation by aggregation.\<close>

theorem script_report_at_end:
  assumes run: "script header records = Inr (df, rep)"
  shows "report_of df = Inr rep"
proof -
  obtain df1 df2 df3 sc py tm sa ts ti where
    c: "exec_stmts cleaning (read_csv header records) = Inr df1" and a1: "severity_counts_of df1 = Inr sc"
    and t: "exec_stmts [ToDatetime, AddYear] df1 = Inr df2" and py: "per_year df2 = Inr py"
    and tm: "top_makes df2 = Inr tm"
    and s: "exec_stmt AddSeverity df2 = Inr df3" and sa: "severity_by_type df3 = Inr sa"
    and ts: "top_values ''Location'' df3 = Inr ts" and ti: "top_values ''Injury.Severity'' df3 = Inr ti"
    and res: "(df, rep) = (df3, \<lparr>severity_counts = sc, accidents_per_year = py,
                  accidents_by_manufacturer = tm, severity_by_aircraft = sa,
                  top_states = ts, top_injuries = ti\<rparr>)"
    by (rule script_Inr_steps[OF run])
  have s': "exec_stmts [AddSeverity] df2 = Inr df3" using s by simp
  have n1: "''Injury.Severity'' \<notin> set (concat (map stmt_writes [AddSeverity]))"
    and n2: "''Injury.Severity'' \<notin> set (concat (map stmt_writes [ToDatetime, AddYear]))"
    by simp_all
  have "get_column df3 ''Injury.Severity'' = get_column df1 ''Injury.Severity''"
    using exec_stmts_frame[OF s' n1] exec_stmts_frame[OF t n2] by (rule trans)
  then have "severity_counts_of df3 = severity_counts_of df1" by (rule severity_counts_of_cong)
  then have "severity_counts_of df3 = Inr sc" using a1 by simp
  moreover have "per_year df3 = Inr py"
    using per_year_cong[OF exec_stmts_frame[OF s']] py by simp
  moreover have "top_makes df3 = Inr tm"
    using top_makes_cong[OF exec_stmts_frame[OF s']] tm by simp
  ultimately show ?thesis using sa ts ti res by (simp add: report_of_def)
qed

theorem script_report_at_end_witness:
  "report_of example_frame = Inr example_report"
  using script_report_at_end [OF example_run] .

text \<open>C26. Bounds of the year column: on records as \<open>pd.read_csv\<close> produces them (no
  timestamps among the cells), every year counted in \<open>accidents_per_year\<close> (line 117)
  lies between 1677 and 2262, the years of pandas' nanosecond timestamps.\<close>

theorem script_year_bounds:
  assumes csv: "list_all (list_all csv_cell) records"
    and run: "script header records = Inr (df, rep)"
  shows "\<forall>p \<in> set (accidents_per_year rep). 1677 \<le> fst p \<and> fst p \<le> 2262"
  using csv run by (rule script_year_range)

theorem script_year_bounds_witness:
  "accidents_per_year example_report = [(1982, 1), (1983, 2)] \<and>
   1677 \<le> fst (hd (accidents_per_year example_report)) \<and>
   fst (hd (accidents_per_year example_report)) \<le> 2262"
proof -
  have csv: "list_all (list_all csv_cell) example_records"
    by (simp add: example_records_def csv_cell_def)
  show ?thesis using script_year_bounds [OF csv example_run]
    by (simp add: example_report_def)
qed

text \<open>C27. After the cleaning statements (lines 83-89), \<open>df.isnull().sum()\<close> (the check
  of line 80, run again) reports no missing value in either imputed column, provided the
  fatalities column had a present value before: mean and mode imputation leave no absent
  value in the columns they target.\<close>

theorem cleaning_no_missing:
  assumes c: "exec_stmts cleaning df = Inr df1"
    and g: "get_column df ''Total.Fatal.Injuries'' = Inr cs" and ne: "\<exists>x \<in> set cs. x \<noteq> NaN"
  shows "map_of (isnull_sum df1) ''Total.Fatal.Injuries'' = Some 0 \<and>
         map_of (isnull_sum df1) ''Weather.Condition'' = Some 0"
proof -
  let ?d = "drop_columns [''Aircraft.damage'', ''Registration.Number''] df"
  from c obtain dfa where m: "impute_mean ''Total.Fatal.Injuries'' ?d = Inr dfa"
    and o: "impute_mode ''Weather.Condition'' dfa = Inr df1"
    by (auto simp: cleaning_def bind_r_eq_Inr)
  have "get_column ?d ''Total.Fatal.Injuries'' = Inr cs"
    using g get_column_drop_columns[of "''Total.Fatal.Injuries''"] by simp
  then obtain cs' where a: "get_column dfa ''Total.Fatal.Injuries'' = Inr cs'" "NaN \<notin> set cs'"
    using impute_mean_no_NaN[OF m _ ne] by blast
  have o': "exec_stmt (FillMode ''Weather.Condition'') dfa = Inr df1" using o by simp
  have "get_column df1 ''Total.Fatal.Injuries'' = Inr cs'"
    using exec_stmt_frame[OF o', of "''Total.Fatal.Injuries''"] a(1) by simp
  moreover obtain ws where "get_column df1 ''Weather.Condition'' = Inr ws" "NaN \<notin> set ws"
    using impute_mode_no_NaN[OF o] by blast
  ultimately show ?thesis using a(2) by (simp add: map_of_isnull_sum count_list_0_iff)
qed

theorem cleaning_no_missing_witness:
  "map_of (isnull_sum (read_csv example_header example_records)) ''Total.Fatal.Injuries'' = Some 1 \<and>
   map_sum id (\<lambda>df1. (map_of (isnull_sum df1) ''Total.Fatal.Injuries'',
                       map_of (isnull_sum df1) ''Weather.Condition''))
     (exec_stmts cleaning (read_csv example_header example_records)) = Inr (Some 0, Some 0)"
proof -
  have g: "get_column (read_csv example_header example_records) ''Total.Fatal.Injuries'' =
             Inr [Num 2, NaN, Num 1]"
    by (simp add: example_loaded get_column_def)
  have ne: "\<exists>x \<in> set [Num 2, NaN, Num 1]. x \<noteq> NaN" by simp
  show ?thesis
    using map_of_isnull_sum[OF g] cleaning_no_missing [OF example_cleaned g ne] example_cleaned
    by simp
qed

text \<open>C28. The stacked bar chart of line 161: in any successful run, each bar, one per
  aircraft category, is as tall as the number of records of the final frame with that
  category and a severity bucket; the counts sum to the records with both keys present.\<close>

theorem severity_chart_heights:
  assumes run: "script header records = Inr (df, rep)"
    and c: "StackedBarChart t xl yl bars \<in> set (charts rep)" and b: "bar \<in> set bars"
  shows "\<exists>as ss. get_column df ''Aircraft.Category'' = Inr as \<and> get_column df ''severity'' = Inr ss \<and>
           sum_list (map snd (snd bar)) =
             length (filter (\<lambda>p. fst p = Str (fst bar) \<and> snd p \<noteq> NaN) (zip as ss))"
proof -
  obtain df1 df2 df3 sc py tm sa ts ti where
    c1: "exec_stmts cleaning (read_csv header records) = Inr df1" and a1: "severity_counts_of df1 = Inr sc"
    and t: "exec_stmts [ToDatetime, AddYear] df1 = Inr df2" and py: "per_year df2 = Inr py"
    and tm: "top_makes df2 = Inr tm"
    and s: "exec_stmt AddSeverity df2 = Inr df3" and sa: "severity_by_type df3 = Inr sa"
    and ts: "top_values ''Location'' df3 = Inr ts" and ti: "top_values ''Injury.Severity'' df3 = Inr ti"
    and res: "(df, rep) = (df3, \<lparr>severity_counts = sc, accidents_per_year = py,
                  accidents_by_manufacturer = tm, severity_by_aircraft = sa,
                  top_states = ts, top_injuries = ti\<rparr>)"
    by (rule script_Inr_steps[OF run])
  from sa obtain as ss ks vs where g: "get_column df3 ''Aircraft.Category'' = Inr as"
    "get_column df3 ''severity'' = Inr ss" and k: "str_values as = Inr ks"
    and v: "map_r as_cat ss = Inr vs" and sa': "sa = crosstab ks vs severity_labels"
    by (auto simp: severity_by_type_def bind_r_eq_Inr)
  have "bar \<in> set sa" using c b res by (auto simp: charts_def)
  then have "sum_list (map snd (snd bar)) =
      length (filter (\<lambda>p. fst p = Some (fst bar) \<and> snd p \<in> Some ` set severity_labels) (zip ks vs))"
    unfolding sa' by (rule crosstab_row_sum[rotated]) (simp add: severity_labels_def)
  also have "\<dots> = length (filter (\<lambda>p. fst p = Str (fst bar) \<and> snd p \<noteq> NaN) (zip as ss))"
    using k v by (intro filter_zip_str_cat) (simp_all add: str_values_def map_r_list_all2)
  finally show ?thesis using g res by auto
qed

theorem severity_chart_heights_witness:
  "sum_list (map snd [(Low, 0), (Medium, 2), (High, 0)]) =
     length (filter (\<lambda>p. fst p = Str ''Airplane'' \<and> snd p \<noteq> NaN)
       (zip [Str ''Airplane'', Str ''Airplane'', NaN] [Cat Medium, Cat Medium, Cat Low]))"
proof -
  have c: "StackedBarChart ''Accident Severity by Aircraft Type'' ''Aircraft Type'' ''Number of Accidents''
             [(''Airplane'', [(Low, 0), (Medium, 2), (High, 0)])] \<in> set (charts example_report)"
    by (simp add: charts_def example_report_def)
  have b: "(''Airplane'', [(Low, 0), (Medium, 2), (High, 0)]) \<in>
             set [(''Airplane'', [(Low, (0::nat)), (Medium, 2), (High, 0)])]" by simp
  show ?thesis
    using severity_chart_heights [OF example_run c b]
    by (simp add: example_frame_def get_column_def)
qed

text \<open>C17. Shape of the frame of a run (lines 45-155): on a header with distinct names,
  whenever the script runs through, its final frame is rectangular with distinct column
  names, has one row per record with at most as many fields as the header (longer
  records are skipped as bad lines, shorter ones kept, where the spec says every record
  with a wrong number of fields is skipped), and its columns are the header without the
  two dropped columns, plus \<open>year\<close> and \<open>severity\<close>.\<close>

theorem script_frame_shape:
  assumes d: "distinct header" and run: "script header records = Inr (df, rep)"
  shows "wf_frame df \<and> nrows df = length (filter (\<lambda>r. length r \<le> length header) records) \<and>
         set (col_names df) =
           set header - {''Aircraft.damage'', ''Registration.Number''} \<union> {''year'', ''severity''}"
proof -
  let ?df0 = "read_csv header records" and ?D = "{''Aircraft.damage'', ''Registration.Number''}"
  let ?d = "drop_columns [''Aircraft.damage'', ''Registration.Number''] ?df0"
  obtain df1 df2 df3 sc py tm sa ts ti where
    c: "exec_stmts cleaning (read_csv header records) = Inr df1" and a1: "severity_counts_of df1 = Inr sc"
    and t: "exec_stmts [ToDatetime, AddYear] df1 = Inr df2" and py: "per_year df2 = Inr py"
    and tm: "top_makes df2 = Inr tm"
    and s: "exec_stmt AddSeverity df2 = Inr df3" and sa: "severity_by_type df3 = Inr sa"
    and ts: "top_values ''Location'' df3 = Inr ts" and ti: "top_values ''Injury.Severity'' df3 = Inr ti"
    and res: "(df, rep) = (df3, \<lparr>severity_counts = sc, accidents_per_year = py,
                  accidents_by_manufacturer = tm, severity_by_aircraft = sa,
                  top_states = ts, top_injuries = ti\<rparr>)"
    by (rule script_Inr_steps[OF run])
  have sh: "wf_frame ?df0" "nrows ?df0 = length (filter (\<lambda>r. length r \<le> length header) records)"
    "col_names ?df0 = header"
    using read_csv_shape[OF d] by simp_all
  have s': "exec_stmts [AddSeverity] df2 = Inr df3" using s by simp
  have w: "wf_frame df3 \<and> nrows df3 = nrows ?df0"
    using exec_stmts_wf[OF sh(1) c] exec_stmts_wf[OF _ t] exec_stmts_wf[OF _ s'] by auto
  from c obtain dfa where m: "impute_mean ''Total.Fatal.Injuries'' ?d = Inr dfa"
    and o: "impute_mode ''Weather.Condition'' dfa = Inr df1"
    by (auto simp: cleaning_def bind_r_eq_Inr)
  from t obtain dfc where cd: "convert_dates df1 = Inr dfc" and ay: "add_year dfc = Inr df2"
    by (auto simp: bind_r_eq_Inr)
  have nd: "set (col_names ?d) = set header - ?D"
    using sh(3) by (auto simp: col_names_drop_columns)
  have na: "set (col_names dfa) = set (col_names ?d) \<union> {''Total.Fatal.Injuries''}"
    using exec_stmt_col_names[of "FillMean ''Total.Fatal.Injuries''" ?d dfa] m by simp
  have n1: "set (col_names df1) = set (col_names dfa) \<union> {''Weather.Condition''}"
    using exec_stmt_col_names[of "FillMode ''Weather.Condition''" dfa df1] o by simp
  have nc: "set (col_names dfc) = set (col_names df1) \<union> {''Event.Date''}"
    using exec_stmt_col_names[of ToDatetime df1 dfc] cd by simp
  have n2: "set (col_names df2) = set (col_names dfc) \<union> {''year''}"
    using exec_stmt_col_names[of AddYear dfc df2] ay by simp
  have n3: "set (col_names df3) = set (col_names df2) \<union> {''severity''}"
    using exec_stmt_col_names[of AddSeverity df2 df3] s by simp
  have "''Total.Fatal.Injuries'' \<in> set (col_names ?d)"
    using m by (auto simp: impute_mean_def bind_r_eq_Inr dest: get_column_col_names)
  moreover have "''Weather.Condition'' \<in> set (col_names dfa)"
    using o by (auto simp: impute_mode_def bind_r_eq_Inr dest: get_column_col_names)
  moreover have "''Event.Date'' \<in> set (col_names df1)"
    using cd by (auto simp: convert_dates_def bind_r_eq_Inr dest: get_column_col_names)
  ultimately have "set (col_names df3) = set (col_names ?d) \<union> {''year'', ''severity''}"
    using na n1 nc n2 n3 by auto
  then show ?thesis using w nd sh(2) res by auto
qed

theorem script_frame_shape_witness:
  "wf_frame example_frame \<and> nrows example_frame = 3 \<and>
   set (col_names example_frame) =
     {''Event.Date'', ''Make'', ''Aircraft.Category'', ''Injury.Severity'', ''Total.Fatal.Injuries'',
      ''Weather.Condition'', ''Location'', ''year'', ''severity''}"
proof -
  have d: "distinct example_header" by (simp add: example_header_def)
  have ev: "length (filter (\<lambda>r. length r \<le> length example_header) example_records) = 3"
    by (simp add: example_header_def example_records_def)
  have h: "set example_header - {''Aircraft.damage'', ''Registration.Number''} \<union> {''year'', ''severity''} =
     {''Event.Date'', ''Make'', ''Aircraft.Category'', ''Injury.Severity'', ''Total.Fatal.Injuries'',
      ''Weather.Condition'', ''Location'', ''year'', ''severity''}"
    by (auto simp: example_header_def)
  show ?thesis using script_frame_shape [OF d example_run] ev h by simp
qed

text \<open>C18. The drop statement of line 83 (\<open>errors='ignore'\<close>) never raises: dropping
  only absent names leaves the frame unchanged, the named columns are gone afterwards, and
  every other column reads as before.\<close>

theorem drop_statement_spec:
  "(set ns \<inter> set (col_names df) = {} \<longrightarrow> exec_stmt (DropCols ns) df = Inr df) \<and>
   (exec_stmt (DropCols ns) df = Inr df' \<longrightarrow>
      (\<forall>n \<in> set ns. get_column df' n = Inl (KeyError n)) \<and>
      (\<forall>n. n \<notin> set ns \<longrightarrow> get_column df' n = get_column df n))"
  using drop_columns_spec[of ns df] by auto

theorem drop_statement_spec_witness:
  "exec_stmt (DropCols [''Aircraft.damage'', ''Registration.Number''])
     \<lparr>nrows = 1, cols = [(''Make'', [Str ''Piper''])]\<rparr> = Inr \<lparr>nrows = 1, cols = [(''Make'', [Str ''Piper''])]\<rparr> \<and>
   get_column (drop_columns [''Aircraft.damage''] \<lparr>nrows = 1, cols = [(''Aircraft.damage'', [NaN])]\<rparr>)
     ''Aircraft.damage'' = Inl (KeyError ''Aircraft.damage'')"
  using drop_statement_spec [of "[''Aircraft.damage'', ''Registration.Number'']"
      "\<lparr>nrows = 1, cols = [(''Make'', [Str ''Piper''])]\<rparr>"]
    drop_statement_spec [of "[''Aircraft.damage'']" "\<lparr>nrows = 1, cols = [(''Aircraft.damage'', [NaN])]\<rparr>"
      "drop_columns [''Aircraft.damage''] \<lparr>nrows = 1, cols = [(''Aircraft.damage'', [NaN])]\<rparr>"]
  by (simp add: col_names_def)




text \<open>C31. A quote that opens a field and is never closed aborts the load of line 45
  with pandas' \<open>ParserError\<close> ('EOF inside string'): \<open>on_bad_lines='skip'\<close> skips
  long rows only, not this error.\<close>

theorem script_file_open_quote:
  assumes "[] \<notin> set rows" and "CHR 0x22 \<notin> set s"
  shows "script_file (to_csv rows @ CHR 0x22 # s) = Some (Inl (ParserError ''EOF inside string''))"
  using tokenize_open_quote[OF assms] by (simp add: script_file_def csv_table_def)

theorem script_file_open_quote_witness:
  "script_file (to_csv [[''Make'', ''Location''], [''Piper'', ''FL'']] @ CHR 0x22 # ''Cessna, AK'') =
     Some (Inl (ParserError ''EOF inside string''))"
  by (rule script_file_open_quote) simp_all

text \<open>C32. A file of blank lines has no header: line 45 raises pandas'
  \<open>EmptyDataError\<close> and nothing of the script runs.\<close>

theorem script_file_empty:
  "set text \<subseteq> {CHR 0x0A} \<Longrightarrow>
     script_file text = Some (Inl (EmptyDataError ''No columns to parse from file''))"
  by (simp add: script_file_def csv_table_def tokenize_newlines)

theorem script_file_empty_witness:
  "script_file [CHR 0x0A, CHR 0x0A] = Some (Inl (EmptyDataError ''No columns to parse from file''))"
  by (rule script_file_empty) simp





text \<open>C39. In every run that goes through with at least one loaded record, the summary of
  line 58 shows \<open>Total.Fatal.Injuries\<close> as a numeric column, and the final frame holds
  the loaded column with each missing value replaced by the mean that summary displays:
  no later statement writes the column again.\<close>

theorem script_fatalities_filled:
  assumes d: "distinct header" and run: "script header records = Inr (df, rep)"
    and ne: "filter (\<lambda>r. length r \<le> length header) records \<noteq> []"
  shows "\<exists>s sm cs. describe (read_csv header records) = Inr s \<and>
           (''Total.Fatal.Injuries'', NumSummary sm) \<in> set s \<and>
           get_column (read_csv header records) ''Total.Fatal.Injuries'' = Inr cs \<and>
           get_column df ''Total.Fatal.Injuries'' = Inr (fillna (d_mean sm) cs)"
proof -
  let ?df0 = "read_csv header records"
  let ?dfd = "drop_columns [''Aircraft.damage'', ''Registration.Number''] ?df0"
  have wf0: "wf_frame ?df0" using d by (rule wf_read_csv)
  obtain cs where g: "get_column ?df0 ''Total.Fatal.Injuries'' = Inr cs" and t: "list_all num_cell cs"
    using script_Inr_ready[OF run] by (auto simp: script_ready_def col_all_iff)
  have "length cs = length (filter (\<lambda>r. length r \<le> length header) records)"
    using get_column_length[OF wf0 g] read_csv_shape[OF d] by simp
  then have nc: "num_column cs" using ne t by (auto simp: num_column_def)
  have "cols ?df0 \<noteq> []" using g by (auto simp: get_column_def)
  then obtain s where ds: "describe ?df0 = Inr s" using describe_Inr by blast
  have "(''Total.Fatal.Injuries'', cs) \<in> set (cols ?df0)"
    using g by (auto simp: get_column_Inr dest: map_of_SomeD)
  then have m: "(''Total.Fatal.Injuries'', NumSummary (describe_num cs)) \<in> set s"
    using ds nc by (intro describe_num_member)
  obtain df1 df2 df3 sc py tm sa ts ti where
    c: "exec_stmts cleaning ?df0 = Inr df1" and a1: "severity_counts_of df1 = Inr sc"
    and t2: "exec_stmts [ToDatetime, AddYear] df1 = Inr df2" and py: "per_year df2 = Inr py"
    and tm: "top_makes df2 = Inr tm"
    and s3: "exec_stmt AddSeverity df2 = Inr df3" and sa: "severity_by_type df3 = Inr sa"
    and ts: "top_values ''Location'' df3 = Inr ts" and ti: "top_values ''Injury.Severity'' df3 = Inr ti"
    and res: "(df, rep) = (df3, \<lparr>severity_counts = sc, accidents_per_year = py,
                  accidents_by_manufacturer = tm, severity_by_aircraft = sa,
                  top_states = ts, top_injuries = ti\<rparr>)"
    by (rule script_Inr_steps[OF run])
  from c obtain dfa where i: "impute_mean ''Total.Fatal.Injuries'' ?dfd = Inr dfa"
    and o: "exec_stmts [FillMode ''Weather.Condition''] dfa = Inr df1"
    by (auto simp: cleaning_def bind_r_eq_Inr)
  have gd: "get_column ?dfd ''Total.Fatal.Injuries'' = Inr cs"
    using g by (simp add: get_column_drop_columns)
  have "get_column dfa ''Total.Fatal.Injuries'' = Inr (fillna (d_mean (describe_num cs)) cs)"
    using gd t i by (rule impute_mean_describe)
  moreover have "get_column df1 ''Total.Fatal.Injuries'' = get_column dfa ''Total.Fatal.Injuries''"
    using exec_stmts_frame[OF o] by simp
  moreover have "get_column df2 ''Total.Fatal.Injuries'' = get_column df1 ''Total.Fatal.Injuries''"
    using exec_stmts_frame[OF t2] by simp
  moreover have "get_column df3 ''Total.Fatal.Injuries'' = get_column df2 ''Total.Fatal.Injuries''"
    using exec_stmt_frame[OF s3] by simp
  ultimately show ?thesis using ds m g res by auto
qed

theorem script_fatalities_filled_witness:
  "get_column example_frame ''Total.Fatal.Injuries'' = Inr [Num 2, Num (3 / 2), Num 1]"
proof -
  have d: "distinct example_header" by (simp add: example_header_def)
  have ne: "filter (\<lambda>r. length r \<le> length example_header) example_records \<noteq> []"
    by (simp add: example_header_def example_records_def)
  obtain s sm cs where ds: "describe (read_csv example_header example_records) = Inr s"
    and m: "(''Total.Fatal.Injuries'', NumSummary sm) \<in> set s"
    and g: "get_column (read_csv example_header example_records) ''Total.Fatal.Injuries'' = Inr cs"
    and f: "get_column example_frame ''Total.Fatal.Injuries'' = Inr (fillna (d_mean sm) cs)"
    using script_fatalities_filled [OF d example_run ne] by blast
  have "cs = [Num 2, NaN, Num 1]" using g
    by (simp add: read_csv_def example_header_def example_records_def get_column_def pad_row_def upt_rec)
  moreover have "d_mean sm = Num (3 / 2)" using ds m
    by (auto simp: read_csv_def example_header_def example_records_def pad_row_def upt_rec describe_def
        num_column_def num_cell_def describe_num_def num_present_def Let_def)
  ultimately show ?thesis using f by (simp add: fillna_def)
qed

end
