(* ===== verification/Spec2Isabelle.thy ===== *)
theory Spec2Isabelle
  imports Pipeline
begin

text \<open>
  \<^bold>\<open>Aviation accident analysis script (src/phase_1__project(adrianna_ndubi).py):
  a verification development.\<close>

  The program is one top-to-bottom pandas script. It loads \<open>AviationData.csv\<close> into a
  global \<open>DataFrame\<close> \<open>df\<close> (line 45), displays its summary statistics with
  \<open>describe()\<close> (58), drops two columns (83), imputes the missing
  values of \<open>Total.Fatal.Injuries\<close> by the mean (86) and of \<open>Weather.Condition\<close> by the
  mode (89), counts \<open>Injury.Severity\<close> (102), converts \<open>Event.Date\<close> to timestamps and
  derives \<open>year\<close> (113, 116), counts accidents per year (117), ranks the ten makes with
  most accidents (136), buckets fatalities into a \<open>severity\<close> category with
  \<open>pd.cut\<close> (155), cross-tabulates aircraft category against severity (158) and ranks
  the ten most frequent locations and injury severities (175, 190). Everything else is
  display: \<open>head\<close>, \<open>info\<close>, \<open>print\<close> and the matplotlib/seaborn plots.

  \<^bold>\<open>Theories.\<close>
  \<^item> \<open>Prelude\<close>: the Python exceptions as a datatype \<open>error\<close>, results
    \<open>'a result = error + 'a\<close> with \<open>bind_r\<close> (an exception ends the script, as it
    does when the notebook is run top to bottom), \<open>map_r\<close> (a column converted cell by
    cell, stopping at the first exception), \<open>present\<close> (the \<open>dropna()\<close> view of a column
    whose missing values are \<open>None\<close>) and counting lemmas.
  \<^item> \<open>Counting\<close>: the pandas aggregations the script calls, over any key type:
    \<open>value_counts_raw\<close> (hash-table pass, first-appearance order), \<open>sort_values_desc\<close>
    (pandas' \<open>nargsort\<close> for \<open>ascending=False\<close>), \<open>value_counts\<close>,
    \<open>value_counts_keepna\<close>, \<open>head\<close>, \<open>groupby_size\<close> (one pass into a key-sorted list),
    \<open>series_mode\<close>, \<open>mode_first\<close> (\<open>mode()[0]\<close>) and \<open>crosstab\<close> (two-key
    \<open>groupby(...).size().unstack().fillna(0)\<close>). Each pass is proved equal to its
    reference description by \<open>count_list\<close>, and the general facts follow: the count
    tables refine multisets (\<open>counts_mset\<close>), their counts sum to the input size,
    top-N keeps the largest counts, the two-key count is rectangular. These definitions
    model pandas, not lines of the script, and are not in the map.
  \<^item> \<open>Frame\<close>: the \<open>DataFrame\<close> as a record (\<open>nrows\<close>, named cell columns), the
    cell datatype (NaN, float as \<open>real\<close>, string, date, severity category),
    \<open>read_csv\<close> (line 45, \<open>on_bad_lines='skip'\<close>), \<open>drop_columns\<close> (line 83),
    \<open>get_column\<close> (\<open>df[c]\<close>, \<open>KeyError\<close>), \<open>set_column\<close> (\<open>df[c] = v\<close>,
    \<open>ValueError\<close> on a length mismatch) and the typed column views; the invariant
    \<open>wf_frame\<close> (distinct names, every column \<open>nrows\<close> long). These definitions
    model pandas itself, a library the script only calls; they are not in the map of the
    manifest, the script statements that call them are.
  \<^item> \<open>Csv\<close>: what \<open>pd.read_csv\<close> does to the file's text before \<open>read_csv\<close>:
    pandas' C tokenizer as a state machine (\<open>tok_state\<close>, \<open>tokenizer\<close>, \<open>tok_step\<close>
    per character, \<open>tok_eof\<close> at the end, with \<open>ParserError\<close> on an open quoted
    field), run by \<open>tokenize\<close>, and the dtype inference of the data columns
    (\<open>infer_column\<close>: a float column when every field is a default NA string or a
    decimal number, a string column otherwise); \<open>csv_table\<close> splits off the header
    and raises \<open>EmptyDataError\<close> on a file without one. \<open>to_csv\<close> is the writer
    (Python csv, minimal quoting) used for the round trip \<open>tokenize_to_csv\<close>. Like
    \<open>Frame\<close>, these definitions model pandas and are not in the map.
  \<^item> \<open>Aggregate\<close>: the aggregation statements of the script on the global frame,
    \<open>severity_counts_of\<close> (line 102), \<open>per_year\<close> (117), \<open>top_makes\<close> (136),
    \<open>severity_by_type\<close> (158) and \<open>top_values\<close> (175, 190), each reading its column
    through a typed view with pandas' exceptions. Properties, stated on the column's
    cells: the severity table refines the multiset of the column (C5) and sums to the row
    count (C20), the years table has ascending keys with their counts (C6) summing to the
    present years (C7), the manufacturer top ten (C8), the full cross-tabulation with its
    counts (C9), and \<open>value_counts().head(10)\<close> as a stable descending sort (C10).
  \<^item> \<open>Impute\<close>: \<open>series_mean\<close>, \<open>fillna\<close>, \<open>impute_mean\<close> (line 86) and
    \<open>impute_mode\<close> (line 89), with their functional and error properties (C1-C4).
  \<^item> \<open>Describe\<close>: \<open>df.describe()\<close> (line 58): \<open>describe\<close> summarises the numeric
    columns by \<open>describe_num\<close> (count, mean, standard deviation with \<open>ddof=1\<close>, min,
    numpy's linear-interpolation \<open>quartile\<close>s, max), or every column by
    \<open>describe_obj\<close> (count, unique, top, freq) when none is numeric, and raises
    \<open>ValueError\<close> on a frame without columns. Properties: the displayed statistics are
    ordered (C34), the standard deviation is zero exactly on a constant column (C35), the
    displayed mean is the value line 86 fills in (C36), the error (C37), the object
    summary of a frame without numeric columns (C40).
  \<^item> \<open>Derive\<close>: \<open>pd.to_datetime\<close> on ISO dates (\<open>parse_iso\<close>, \<open>to_timestamp\<close>
    with \<open>DateParseError\<close> and the \<open>OutOfBoundsDatetime\<close> range check, line 113),
    \<open>.dt.year\<close> (line 116) and \<open>pd.cut\<close> with its argument checks (line 155): the
    bucket table (C11), the severity column (C12), the raise on an unparseable date (C13),
    the parser's round trip (C14) and its range (C21).
  \<^item> \<open>Pipeline\<close>: the script. Every statement that assigns \<open>df\<close> is a value of
    \<open>stmt\<close> run by \<open>exec_stmt\<close>; \<open>script\<close> runs \<open>describe\<close> on the loaded frame
    (its only effect on the run is its exception), then the statements and the six
    aggregations in the order of the source and returns the final frame and a \<open>report\<close>. \<open>stmt_writes\<close>
    names the columns a statement assigns: every other column is left as it was (the frame
    condition \<open>exec_stmts_frame\<close>). Properties: the shape of the final frame (C17),
    the drop statement (C18), the invariant of the statements (C15),
    the missing-column error and the empty-header error of line 58 (C16), the year column (C22), the rectangular severity table
    of any successful run (C23), the exact condition under which the script runs through
    (C24: liveness on the ready inputs \<open>script_ready\<close>, an exception on all others),
    the independence of the aggregations from their place in the script (C25), the
    range of the years counted (C26), no missing value in the imputed columns after
    cleaning (C27) and the heights of the stacked severity chart (C28). \<open>script_file\<close>
    is line 45 on the file's text followed by the script: it always returns (C29), it
    gives back a table written as CSV (C30), it raises \<open>ParserError\<close> on an open quote
    (C31) and \<open>EmptyDataError\<close> on a file of blank lines (C32), the year range of C26
    holds on every file (C33), and one non-numeric fatality field ends the run with
    \<open>TypeError\<close> at line 86, the column being inferred as strings (C38). In a successful run the final
    fatality column is the loaded one filled with the mean \<open>describe()\<close> displays (C39). The data of the
    five charts is \<open>charts\<close> (lines 120-197). It also holds a three-record data set
    and its evaluated run (\<open>example_run\<close>), which the witnesses use.
  \<^item> This theory: the end-to-end scenario of the spec (C19).

  \<^bold>\<open>Termination and fuel.\<close> The script has no loop of its own: every pass over a
  column is structural recursion or a \<open>fold\<close> over a finite list, so every definition is
  total and no fuel is needed; C24 is therefore a statement about exceptions, not about
  divergence. The one loop of the development is the tokenizer's character loop,
  \<open>tokenize\<close>, written as a \<open>partial_function (option)\<close> as the C loop is (it runs
  while input remains); \<open>tokenize_fold\<close> shows it equal to a \<open>fold\<close> of
  \<open>tok_step\<close> over the text, hence \<open>Some\<close> on every input (C29).

  \<^bold>\<open>Modelling choices.\<close> Floats are reals (rounding not modelled). Strings are byte
  lists (the file is read as ISO-8859-1, one byte per character), ordered as Python
  orders \<open>str\<close>. The CSV tokenizer is modelled for newline line ends, the
  delimiter comma and the quote character; carriage returns, lines of blank characters,
  numbers with exponents, boolean and integer dtypes (read as floats or strings here),
  the renaming of duplicate header names and the implicit index column are not.
  The in-place \<open>fillna\<close> on \<open>df[col]\<close> writes back into \<open>df\<close>, as in pandas 2 without copy-on-write. The sort of
  \<open>sort_values\<close> is taken to be stable (see the findings).

  \<^bold>\<open>Not modelled.\<close> The printing itself; the
  rendering of the plots (figure sizes, markers, grid, tick rotation), which the spec
  leaves out of scope; \<open>pd.to_datetime\<close> on formats other than ISO dates and on
  numeric epochs. The values \<open>head()\<close>, \<open>info()\<close> and \<open>isnull().sum()\<close> display are
  \<open>frame_head\<close>, \<open>info_non_null\<close> and \<open>isnull_sum\<close> of \<open>Frame\<close>. The lines of the
  script outside the map are its Markdown narrative, its imports and its \<open>print\<close> calls:
  no computation of the program is left unmodelled. The pandas passes themselves
  (theories \<open>Frame\<close>, \<open>Csv\<close>, \<open>Counting\<close>) are models of the library, used by the
  definitions that translate the script's statements and not mapped to its lines.
\<close>

subsection \<open>An end-to-end run\<close>



end
